(* ===== verification/Prelude.thy ===== *)
theory Prelude
  imports Main "HOL-Library.Word"
begin

text \<open>
  Shared vocabulary of the development: the machine types of the C++ sources, the outcome of an
  operation that can return \<open>false\<close> or run into undefined behaviour, actions that thread an object
  through a chain of such operations, and the list and word lemmas the component theories share.

  \<^item> \<open>Ok v\<close>: the operation returned \<open>true\<close> and produced \<open>v\<close>.
  \<^item> \<open>Refused\<close>: the operation returned \<open>false\<close>.
  \<^item> \<open>Undefined\<close>: the C++ code has undefined behaviour at this point (an access outside a
    \<open>std::vector\<close>, a pointer range that is not valid). It is a value of its own so that the absence
    of undefined behaviour can be stated and proved, and its presence exhibited.
\<close>

unbundle bit_operations_syntax

named_theorems wire_simps \<open>equations that compute the bytes an operation writes\<close>
named_theorems consumes_intros \<open>how many bytes a successful read consumes\<close>
named_theorems safe_intros \<open>absence of undefined behaviour and preservation of well-formedness\<close>

type_synonym byte = "8 word"
type_synonym u16 = "16 word"
type_synonym u32 = "32 word"
type_synonym u64 = "64 word"
type_synonym bytes = "byte list"

section \<open>Outcomes and actions\<close>

datatype 'a result = Ok 'a | Refused | Undefined

type_synonym ('s, 'a) action = "'s \<Rightarrow> 'a result \<times> 's"

text \<open>
  \<open>bind_a\<close> runs the second action on the value and the state of the first; a failure of the first
  skips the second and keeps the state the first one left behind. This is how the sources chain
  calls with \<open>&&\<close>.
\<close>

definition return_a :: "'a \<Rightarrow> ('s, 'a) action" where
  "return_a a = (\<lambda>s. (Ok a, s))"

definition bind_a :: "('s, 'a) action \<Rightarrow> ('a \<Rightarrow> ('s, 'b) action) \<Rightarrow> ('s, 'b) action" where
  "bind_a p f = (\<lambda>s. case p s of
       (Ok a, s') \<Rightarrow> f a s'
     | (Refused, s') \<Rightarrow> (Refused, s')
     | (Undefined, s') \<Rightarrow> (Undefined, s'))"

definition refuse_a :: "('s, 'a) action" where
  "refuse_a = (\<lambda>s. (Refused, s))"

definition map_a :: "('a \<Rightarrow> 'b) \<Rightarrow> ('s, 'a) action \<Rightarrow> ('s, 'b) action" where
  "map_a f p = bind_a p (\<lambda>a. return_a (f a))"

lemma bind_a_Ok [simp]: "p s = (Ok a, s') \<Longrightarrow> bind_a p f s = f a s'"
  by (simp add: bind_a_def)

lemma bind_a_Refused [simp]: "p s = (Refused, s') \<Longrightarrow> bind_a p f s = (Refused, s')"
  by (simp add: bind_a_def)

lemma bind_a_Undefined [simp]: "p s = (Undefined, s') \<Longrightarrow> bind_a p f s = (Undefined, s')"
  by (simp add: bind_a_def)

lemma fst_bind_a_Refused [simp]: "fst (p s) = Refused \<Longrightarrow> fst (bind_a p f s) = Refused"
  by (cases "p s") simp

lemma return_a_apply [simp]: "return_a a s = (Ok a, s)"
  by (simp add: return_a_def)

lemma refuse_a_apply [simp]: "refuse_a s = (Refused, s)"
  by (simp add: refuse_a_def)

lemma bind_a_OkE:
  assumes "bind_a p f s = (Ok b, t)"
  obtains a s' where "p s = (Ok a, s')" and "f a s' = (Ok b, t)"
  using assms by (auto simp: bind_a_def split: prod.splits result.splits)

text \<open>
  An action is safe for an invariant \<open>I\<close> when, started in a state with \<open>I\<close>, it does not run into
  undefined behaviour and re-establishes \<open>I\<close>, whatever it returns.
\<close>

definition safe_action :: "('s \<Rightarrow> bool) \<Rightarrow> ('s, 'a) action \<Rightarrow> bool" where
  "safe_action I p \<longleftrightarrow> (\<forall>s. I s \<longrightarrow> fst (p s) \<noteq> Undefined \<and> I (snd (p s)))"

lemma safe_actionI:
  "(\<And>s. I s \<Longrightarrow> fst (p s) \<noteq> Undefined \<and> I (snd (p s))) \<Longrightarrow> safe_action I p"
  by (simp add: safe_action_def)

lemma safe_actionD:
  assumes "safe_action I p" "I s"
  shows "fst (p s) \<noteq> Undefined" and "I (snd (p s))"
  using assms by (auto simp: safe_action_def)

lemma safe_return [safe_intros]: "safe_action I (return_a a)"
  by (simp add: safe_action_def)

lemma safe_refuse [safe_intros]: "safe_action I refuse_a"
  by (simp add: safe_action_def)

lemma safe_bind [safe_intros]:
  assumes p: "safe_action I p" and f: "\<And>a. safe_action I (f a)"
  shows "safe_action I (bind_a p f)"
proof (rule safe_actionI)
  fix s assume I: "I s"
  obtain r s' where ps: "p s = (r, s')" by (cases "p s")
  have r: "r \<noteq> Undefined" "I s'" using safe_actionD [OF p I] by (simp_all add: ps)
  then show "fst (bind_a p f s) \<noteq> Undefined \<and> I (snd (bind_a p f s))"
    using safe_actionD [OF f r(2)] by (cases r) (simp_all add: ps)
qed

lemma safe_map [safe_intros]: "safe_action I p \<Longrightarrow> safe_action I (map_a f p)"
  unfolding map_a_def by (intro safe_intros)

lemma safe_if [safe_intros]:
  "safe_action I p \<Longrightarrow> safe_action I q \<Longrightarrow> safe_action I (if b then p else q)"
  by simp

text \<open>The same for operations without a state of their own.\<close>

fun bind_r :: "'a result \<Rightarrow> ('a \<Rightarrow> 'b result) \<Rightarrow> 'b result" where
  "bind_r (Ok a) f = f a"
| "bind_r Refused f = Refused"
| "bind_r Undefined f = Undefined"

lemma bind_r_Ok_iff: "bind_r r f = Ok b \<longleftrightarrow> (\<exists>a. r = Ok a \<and> f a = Ok b)"
  by (cases r) simp_all

section \<open>Lists as buffers\<close>

text \<open>
  \<open>vec_resize\<close> is \<open>std::vector::resize\<close> with a fill value; \<open>vec_write\<close> overwrites a range that lies
  inside the vector (\<open>memcpy\<close> into it), and is \<open>None\<close> when the range does not.
\<close>

definition vec_resize :: "nat \<Rightarrow> 'a \<Rightarrow> 'a list \<Rightarrow> 'a list" where
  "vec_resize n fill xs = take n xs @ replicate (n - length xs) fill"

definition vec_write :: "nat \<Rightarrow> 'a list \<Rightarrow> 'a list \<Rightarrow> 'a list option" where
  "vec_write i ys xs =
     (if i + length ys \<le> length xs then Some (take i xs @ ys @ drop (i + length ys) xs) else None)"

lemma length_vec_resize [simp]: "length (vec_resize n fill xs) = n"
  by (simp add: vec_resize_def)

lemma nth_vec_resize:
  "i < n \<Longrightarrow> vec_resize n fill xs ! i = (if i < length xs then xs ! i else fill)"
  by (auto simp: vec_resize_def nth_append)

lemma take_vec_resize: "k \<le> n \<Longrightarrow> k \<le> length xs \<Longrightarrow> take k (vec_resize n fill xs) = take k xs"
  by (simp add: vec_resize_def)

lemma vec_resize_same [simp]: "vec_resize (length xs) fill xs = xs"
  by (simp add: vec_resize_def)

lemma vec_write_Some_iff: "vec_write i ys xs = Some zs \<longleftrightarrow>
    i + length ys \<le> length xs \<and> zs = take i xs @ ys @ drop (i + length ys) xs"
  by (auto simp: vec_write_def)

lemma length_vec_write: "vec_write i ys xs = Some zs \<Longrightarrow> length zs = length xs"
  by (auto simp: vec_write_Some_iff)

lemma nth_vec_write:
  assumes "vec_write i ys xs = Some zs" "j < length xs"
  shows "zs ! j = (if i \<le> j \<and> j < i + length ys then ys ! (j - i) else xs ! j)"
  using assms by (auto simp: vec_write_Some_iff nth_append)

text \<open>Indexing a vector: outside of it the behaviour is undefined.\<close>

definition buf_get :: "nat \<Rightarrow> 'a list \<Rightarrow> 'a result" where
  "buf_get i xs = (if i < length xs then Ok (xs ! i) else Undefined)"

definition buf_put :: "nat \<Rightarrow> 'a \<Rightarrow> 'a list \<Rightarrow> 'a list result" where
  "buf_put i v xs = (if i < length xs then Ok (xs[i := v]) else Undefined)"

lemma buf_get_Ok [simp]: "i < length xs \<Longrightarrow> buf_get i xs = Ok (xs ! i)"
  by (simp add: buf_get_def)

lemma buf_put_Ok [simp]: "i < length xs \<Longrightarrow> buf_put i v xs = Ok (xs[i := v])"
  by (simp add: buf_put_def)

lemma sorted_split_at:
  fixes i :: nat
  assumes "sorted xs" "i \<notin> set xs"
  shows "takeWhile (\<lambda>j. j < i) xs = filter (\<lambda>j. j < i) xs"
    and "dropWhile (\<lambda>j. j < i) xs = filter (\<lambda>j. i < j) xs"
  using assms
proof (induction xs)
  case (Cons a xs)
  { case 1
    with Cons show ?case by (auto simp: filter_empty_conv eq_commute [of "[]"])
  next
    case 2
    then have "\<not> a < i \<Longrightarrow> filter (\<lambda>j. i < j) xs = xs" by (force simp: filter_id_conv)
    with 2 Cons show ?case by auto }
qed simp_all

section \<open>Words\<close>

lemma mask8: "(0xFF :: 'a::len word) = mask 8"
  by (simp add: mask_eq_exp_minus_1)

lemma bit_shift_index: "bit x (k + (n - k)) = (if k \<le> n then bit x n else bit x k)"
  by simp

lemmas word_bits = mask8 bit_simps bit_shift_index

text \<open>Small numbers as words.\<close>

lemma unat_byte: "n < 256 \<Longrightarrow> unat (of_nat n :: byte) = n"
  by (simp add: unat_of_nat take_bit_eq_mod)

lemma unat_u16: "n < 2 ^ 16 \<Longrightarrow> unat (of_nat n :: u16) = n"
  by (simp add: unat_of_nat take_bit_eq_mod)

lemma unat_u32: "n < 2 ^ 32 \<Longrightarrow> unat (of_nat n :: u32) = n"
  by (simp add: unat_of_nat take_bit_eq_mod)

lemma unat_byte_less: "unat (b :: byte) < 256"
  using unsigned_less [of b] by simp

lemma unat_u16_less: "unat (w :: u16) < 2 ^ 16"
  using unsigned_less [of w] by simp

lemma unat_u32_less: "unat (w :: u32) < 2 ^ 32"
  using unsigned_less [of w] by simp

end
