(* ===== verification/Byteorder.thy ===== *)
theory Byteorder
  imports Prelude
begin

text \<open>
  The byte order macros of \<open>implementation/utility/include/byteorder.hpp\<close>, in the variant compiled on
  a little-endian host, and the round trips between an integer and its bytes. The macros work on
  \<open>int\<close> after integral promotion and cast the result back; here they are written at the width of
  the cast.
\<close>

definition BYTES_TO_WORD :: "byte \<Rightarrow> byte \<Rightarrow> u16" where
  "BYTES_TO_WORD x0 x1 = push_bit 8 (ucast x0) OR ucast x1"

definition BYTES_TO_LONG :: "byte \<Rightarrow> byte \<Rightarrow> byte \<Rightarrow> byte \<Rightarrow> u32" where
  "BYTES_TO_LONG x0 x1 x2 x3 =
     push_bit 24 (ucast x0) OR push_bit 16 (ucast x1) OR push_bit 8 (ucast x2) OR ucast x3"

definition WORDS_TO_LONG :: "u16 \<Rightarrow> u16 \<Rightarrow> u32" where
  "WORDS_TO_LONG x0 x1 = push_bit 16 (ucast x0) OR ucast x1"

definition WORD_BYTE0 :: "u16 \<Rightarrow> byte" where
  "WORD_BYTE0 x = ucast (x AND 0xFF)"

definition WORD_BYTE1 :: "u16 \<Rightarrow> byte" where
  "WORD_BYTE1 x = ucast (drop_bit 8 x)"

definition LONG_BYTE0 :: "u32 \<Rightarrow> byte" where
  "LONG_BYTE0 x = ucast (x AND 0xFF)"

definition LONG_BYTE1 :: "u32 \<Rightarrow> byte" where
  "LONG_BYTE1 x = ucast (drop_bit 8 x AND 0xFF)"

definition LONG_BYTE2 :: "u32 \<Rightarrow> byte" where
  "LONG_BYTE2 x = ucast (drop_bit 16 x AND 0xFF)"

definition LONG_BYTE3 :: "u32 \<Rightarrow> byte" where
  "LONG_BYTE3 x = ucast (drop_bit 24 x AND 0xFF)"

definition LONG_WORD0 :: "u32 \<Rightarrow> u16" where
  "LONG_WORD0 x = ucast (x AND 0xFFFF)"

definition LONG_WORD1 :: "u32 \<Rightarrow> u16" where
  "LONG_WORD1 x = ucast (drop_bit 16 x AND 0xFFFF)"

lemmas byteorder_defs = BYTES_TO_WORD_def BYTES_TO_LONG_def WORDS_TO_LONG_def
  WORD_BYTE0_def WORD_BYTE1_def LONG_BYTE0_def LONG_BYTE1_def LONG_BYTE2_def LONG_BYTE3_def
  LONG_WORD0_def LONG_WORD1_def

text \<open>
  The bytes of an integer in network byte order. \<open>be32\<close> is also the memory image of \<open>htonl x\<close>, which
  is how the segmentation code writes the length field and the TP header.
\<close>

definition be16 :: "u16 \<Rightarrow> bytes" where
  "be16 x = [WORD_BYTE1 x, WORD_BYTE0 x]"

definition be24 :: "u32 \<Rightarrow> bytes" where
  "be24 x = [LONG_BYTE2 x, LONG_BYTE1 x, LONG_BYTE0 x]"

definition be32 :: "u32 \<Rightarrow> bytes" where
  "be32 x = [LONG_BYTE3 x, LONG_BYTE2 x, LONG_BYTE1 x, LONG_BYTE0 x]"

lemma length_be [simp]: "length (be16 x) = 2" "length (be24 y) = 3" "length (be32 y) = 4"
  by (simp_all add: be16_def be24_def be32_def)

section \<open>Round trips\<close>

lemma mask16: "(0xFFFF :: 'a::len word) = mask 16"
  by (simp add: mask_eq_exp_minus_1)

lemma BYTES_TO_WORD_bytes [simp]: "BYTES_TO_WORD (WORD_BYTE1 x) (WORD_BYTE0 x) = x"
  by (rule bit_word_eqI)
    (auto simp: byteorder_defs word_bits split: if_splits dest: bit_imp_le_length)

lemma WORD_BYTE_BYTES_TO_WORD [simp]:
  "WORD_BYTE1 (BYTES_TO_WORD a b) = a" "WORD_BYTE0 (BYTES_TO_WORD a b) = b"
  by (rule bit_word_eqI,
      auto simp: byteorder_defs word_bits split: if_splits dest: bit_imp_le_length)+

lemma BYTES_TO_LONG_bytes [simp]:
  "BYTES_TO_LONG (LONG_BYTE3 x) (LONG_BYTE2 x) (LONG_BYTE1 x) (LONG_BYTE0 x) = x"
  by (rule bit_word_eqI)
    (auto simp: byteorder_defs word_bits split: if_splits dest: bit_imp_le_length)

lemma LONG_BYTE_BYTES_TO_LONG [simp]:
  "LONG_BYTE3 (BYTES_TO_LONG a b c d) = a" "LONG_BYTE2 (BYTES_TO_LONG a b c d) = b"
  "LONG_BYTE1 (BYTES_TO_LONG a b c d) = c" "LONG_BYTE0 (BYTES_TO_LONG a b c d) = d"
  by (rule bit_word_eqI,
      auto simp: byteorder_defs word_bits split: if_splits dest: bit_imp_le_length)+

lemma BYTES_TO_LONG_24 [simp]:
  "BYTES_TO_LONG 0 (LONG_BYTE2 x) (LONG_BYTE1 x) (LONG_BYTE0 x) = take_bit 24 x"
  by (rule bit_word_eqI)
    (auto simp: byteorder_defs word_bits split: if_splits dest: bit_imp_le_length)

lemma LONG_WORD_WORDS_TO_LONG [simp]:
  "LONG_WORD1 (WORDS_TO_LONG a b) = a" "LONG_WORD0 (WORDS_TO_LONG a b) = b"
  by (rule bit_word_eqI,
      auto simp: byteorder_defs word_bits mask16 split: if_splits dest: bit_imp_le_length)+

lemma be16_inject [simp]: "be16 x = be16 y \<longleftrightarrow> x = y"
proof
  assume "be16 x = be16 y"
  then have "WORD_BYTE1 x = WORD_BYTE1 y" and "WORD_BYTE0 x = WORD_BYTE0 y"
    by (simp_all add: be16_def)
  then show "x = y" by (metis BYTES_TO_WORD_bytes)
qed simp

lemma be32_inject [simp]: "be32 x = be32 y \<longleftrightarrow> x = y"
proof
  assume "be32 x = be32 y"
  then have "LONG_BYTE3 x = LONG_BYTE3 y" and "LONG_BYTE2 x = LONG_BYTE2 y"
    and "LONG_BYTE1 x = LONG_BYTE1 y" and "LONG_BYTE0 x = LONG_BYTE0 y"
    by (simp_all add: be32_def)
  then show "x = y" by (metis BYTES_TO_LONG_bytes)
qed simp

end
