(* ===== verification/Serializer.thy ===== *)
theory Serializer
  imports Byteorder
begin

text \<open>
  \<open>vsomeip_v3::serializer\<close> and \<open>vsomeip_v3::deserializer\<close> (\<open>implementation/message/src\<close>): the buffers
  every wire format of the stack is written to and read from.

  The serializer only ever appends, so each of its operations is described by the bytes it appends.
  The deserializer keeps an iterator into its buffer and a count of the bytes that may still be
  read; the two are independent fields of the C++ class. An iterator is modelled by its offset, and
  a read through it beyond the end of the buffer is \<open>Undefined\<close>. The invariant \<open>wf_des\<close> relates the two
  fields; the operations that keep it are free of undefined behaviour.
\<close>

section \<open>The serializer\<close>

record serializer =
  ser_data :: bytes
  ser_shrink_count :: u32
  ser_buffer_shrink_threshold :: u32

definition new_serializer :: "u32 \<Rightarrow> serializer" where
  "new_serializer threshold =
     \<lparr>ser_data = [], ser_shrink_count = 0, ser_buffer_shrink_threshold = threshold\<rparr>"

definition serialize_u8 :: "byte \<Rightarrow> serializer \<Rightarrow> bool \<times> serializer" where
  "serialize_u8 v s = (True, s\<lparr>ser_data := ser_data s @ [v]\<rparr>)"

definition serialize_u16 :: "u16 \<Rightarrow> serializer \<Rightarrow> bool \<times> serializer" where
  "serialize_u16 v s =
     (let s1 = s\<lparr>ser_data := ser_data s @ [WORD_BYTE1 v]\<rparr>
      in (True, s1\<lparr>ser_data := ser_data s1 @ [WORD_BYTE0 v]\<rparr>))"

definition serialize_u32 :: "u32 \<Rightarrow> bool \<Rightarrow> serializer \<Rightarrow> bool \<times> serializer" where
  "serialize_u32 v omit_last_byte s =
     (let s0 = (if \<not> omit_last_byte then s\<lparr>ser_data := ser_data s @ [LONG_BYTE3 v]\<rparr> else s);
          s1 = s0\<lparr>ser_data := ser_data s0 @ [LONG_BYTE2 v]\<rparr>;
          s2 = s1\<lparr>ser_data := ser_data s1 @ [LONG_BYTE1 v]\<rparr>
      in (True, s2\<lparr>ser_data := ser_data s2 @ [LONG_BYTE0 v]\<rparr>))"

text \<open>
  \<open>serialize(const uint8_t *_data, uint32_t _length)\<close> and \<open>serialize(const std::vector<byte_t> &)\<close> insert
  the range at the end. The range is the list argument. A failing allocation is not modelled.
\<close>

definition serialize_range :: "bytes \<Rightarrow> serializer \<Rightarrow> bool \<times> serializer" where
  "serialize_range bs s = (True, s\<lparr>ser_data := ser_data s @ bs\<rparr>)"

definition serialize_vector :: "bytes \<Rightarrow> serializer \<Rightarrow> bool \<times> serializer" where
  "serialize_vector bs s = (True, s\<lparr>ser_data := ser_data s @ bs\<rparr>)"

definition ser_get_size :: "serializer \<Rightarrow> u32" where
  "ser_get_size s = word_of_nat (length (ser_data s))"

definition ser_set_data :: "bytes \<Rightarrow> serializer \<Rightarrow> serializer" where
  "ser_set_data bs s = s\<lparr>ser_data := bs\<rparr>"

text \<open>
  \<open>reset\<close> clears the buffer and counts how often it was less than half full; the capacity of the
  vector is an argument, its value is up to the allocator. The result also says whether the memory
  is given back (\<open>shrink_to_fit\<close>).
\<close>

definition ser_reset :: "nat \<Rightarrow> serializer \<Rightarrow> bool \<times> serializer" where
  "ser_reset capacity s =
     (let s1 = (if ser_buffer_shrink_threshold s \<noteq> 0
                then (if length (ser_data s) < capacity div 2
                      then s\<lparr>ser_shrink_count := ser_shrink_count s + 1\<rparr>
                      else s\<lparr>ser_shrink_count := 0\<rparr>)
                else s);
          s2 = s1\<lparr>ser_data := []\<rparr>
      in if ser_buffer_shrink_threshold s \<noteq> 0
            \<and> ser_shrink_count s2 > ser_buffer_shrink_threshold s2
         then (True, s2\<lparr>ser_shrink_count := 0\<rparr>) else (False, s2))"

text \<open>\<open>a && b\<close> on two operations of the serializer.\<close>

definition and_s ::
  "(serializer \<Rightarrow> bool \<times> serializer) \<Rightarrow> (serializer \<Rightarrow> bool \<times> serializer) \<Rightarrow> serializer \<Rightarrow> bool \<times> serializer" where
  "and_s f g s = (case f s of (True, s') \<Rightarrow> g s' | (False, s') \<Rightarrow> (False, s'))"

definition appends :: "(serializer \<Rightarrow> bool \<times> serializer) \<Rightarrow> bytes \<Rightarrow> bool" where
  "appends f bs \<longleftrightarrow> (\<forall>s. f s = (True, s\<lparr>ser_data := ser_data s @ bs\<rparr>))"

lemma appendsD: "appends f bs \<Longrightarrow> f s = (True, s\<lparr>ser_data := ser_data s @ bs\<rparr>)"
  by (simp add: appends_def)

lemma appends_u8 [wire_simps]: "appends (serialize_u8 v) [v]"
  by (simp add: appends_def serialize_u8_def)

lemma appends_u16 [wire_simps]: "appends (serialize_u16 v) (be16 v)"
  by (simp add: appends_def serialize_u16_def be16_def Let_def)

lemma appends_u32 [wire_simps]: "appends (serialize_u32 v False) (be32 v)"
  by (simp add: appends_def serialize_u32_def be32_def Let_def)

lemma appends_u24 [wire_simps]: "appends (serialize_u32 v True) (be24 v)"
  by (simp add: appends_def serialize_u32_def be24_def Let_def)

lemma appends_range [wire_simps]: "appends (serialize_range bs) bs"
  by (simp add: appends_def serialize_range_def)

lemma appends_vector [wire_simps]: "appends (serialize_vector bs) bs"
  by (simp add: appends_def serialize_vector_def)

lemma appends_and [wire_simps]:
  "appends f bs \<Longrightarrow> appends g cs \<Longrightarrow> appends (and_s f g) (bs @ cs)"
  by (simp add: appends_def and_s_def)

section \<open>The deserializer\<close>

record deserializer =
  des_data :: bytes
  des_position :: nat
  des_remaining :: nat
  des_buffer_shrink_threshold :: u32
  des_shrink_count :: u32

definition new_deserializer :: "bytes \<Rightarrow> u32 \<Rightarrow> deserializer" where
  "new_deserializer bs threshold =
     \<lparr>des_data = bs, des_position = 0, des_remaining = length bs,
      des_buffer_shrink_threshold = threshold, des_shrink_count = 0\<rparr>"

definition get_available :: "deserializer \<Rightarrow> nat" where
  "get_available d = length (des_data d)"

definition get_remaining :: "deserializer \<Rightarrow> nat" where
  "get_remaining d = des_remaining d"

definition set_remaining :: "nat \<Rightarrow> deserializer \<Rightarrow> deserializer" where
  "set_remaining n d = d\<lparr>des_remaining := n\<rparr>"

text \<open>Reading \<open>n\<close> bytes through the iterator and advancing it; the callers have checked the count.\<close>

definition fetch :: "nat \<Rightarrow> (deserializer, bytes) action" where
  "fetch n d =
     (if des_position d + n \<le> length (des_data d)
      then (Ok (take n (drop (des_position d) (des_data d))),
            d\<lparr>des_position := des_position d + n, des_remaining := des_remaining d - n\<rparr>)
      else (Undefined, d))"

definition deserialize_u8 :: "(deserializer, byte) action" where
  "deserialize_u8 d = (if 0 = des_remaining d then (Refused, d) else map_a (\<lambda>bs. bs ! 0) (fetch 1) d)"

definition deserialize_u16 :: "(deserializer, u16) action" where
  "deserialize_u16 d =
     (if 2 > des_remaining d then (Refused, d)
      else map_a (\<lambda>bs. BYTES_TO_WORD (bs ! 0) (bs ! 1)) (fetch 2) d)"

definition deserialize_u32 :: "bool \<Rightarrow> (deserializer, u32) action" where
  "deserialize_u32 omit_last_byte d =
     (if 3 > des_remaining d \<or> (\<not> omit_last_byte \<and> 4 > des_remaining d) then (Refused, d)
      else if \<not> omit_last_byte
      then map_a (\<lambda>bs. BYTES_TO_LONG (bs ! 0) (bs ! 1) (bs ! 2) (bs ! 3)) (fetch 4) d
      else map_a (\<lambda>bs. BYTES_TO_LONG 0 (bs ! 0) (bs ! 1) (bs ! 2)) (fetch 3) d)"

definition deserialize_range :: "nat \<Rightarrow> (deserializer, bytes) action" where
  "deserialize_range len d = (if len > des_remaining d then (Refused, d) else fetch len d)"

definition deserialize_string :: "nat \<Rightarrow> nat \<Rightarrow> (deserializer, bytes) action" where
  "deserialize_string target_capacity len d =
     (if len > des_remaining d \<or> len > target_capacity then (Refused, d) else fetch len d)"

text \<open>\<open>deserialize(std::vector<uint8_t> &_value)\<close> reads as many bytes as the target has capacity.\<close>

definition deserialize_vector :: "nat \<Rightarrow> (deserializer, bytes) action" where
  "deserialize_vector value_capacity d =
     (if value_capacity > des_remaining d then (Refused, d) else fetch value_capacity d)"

definition look_ahead_u8 :: "nat \<Rightarrow> deserializer \<Rightarrow> byte result" where
  "look_ahead_u8 index d =
     (if index \<ge> length (des_data d) then Refused
      else if des_position d + index < length (des_data d)
      then Ok (des_data d ! (des_position d + index)) else Undefined)"

definition look_ahead_u16 :: "nat \<Rightarrow> deserializer \<Rightarrow> u16 result" where
  "look_ahead_u16 index d =
     (if index + 1 \<ge> length (des_data d) then Refused
      else if des_position d + index + 1 < length (des_data d)
      then Ok (BYTES_TO_WORD (des_data d ! (des_position d + index))
                             (des_data d ! (des_position d + index + 1))) else Undefined)"

definition look_ahead_u32 :: "nat \<Rightarrow> deserializer \<Rightarrow> u32 result" where
  "look_ahead_u32 index d =
     (if index + 3 \<ge> length (des_data d) then Refused
      else if des_position d + index + 3 < length (des_data d)
      then Ok (BYTES_TO_LONG (des_data d ! (des_position d + index))
                             (des_data d ! (des_position d + index + 1))
                             (des_data d ! (des_position d + index + 2))
                             (des_data d ! (des_position d + index + 3))) else Undefined)"

text \<open>\<open>set_data\<close> takes a pointer; \<open>None\<close> is the null pointer.\<close>

definition set_data :: "bytes option \<Rightarrow> deserializer \<Rightarrow> deserializer" where
  "set_data src d =
     (case src of
        Some bs \<Rightarrow> d\<lparr>des_data := bs, des_position := 0, des_remaining := length bs\<rparr>
      | None \<Rightarrow> d\<lparr>des_data := [], des_position := 0, des_remaining := 0\<rparr>)"

definition append_data :: "bytes \<Rightarrow> deserializer \<Rightarrow> deserializer" where
  "append_data bs d =
     d\<lparr>des_data := des_data d @ bs, des_remaining := des_remaining d + length bs\<rparr>"

definition drop_data :: "nat \<Rightarrow> deserializer \<Rightarrow> deserializer" where
  "drop_data len d =
     (if des_position d + len < length (des_data d)
      then d\<lparr>des_position := des_position d + len\<rparr>
      else d\<lparr>des_position := length (des_data d)\<rparr>)"

definition des_reset :: "nat \<Rightarrow> deserializer \<Rightarrow> bool \<times> deserializer" where
  "des_reset capacity d =
     (let d1 = (if des_buffer_shrink_threshold d \<noteq> 0
                then (if length (des_data d) < capacity div 2
                      then d\<lparr>des_shrink_count := des_shrink_count d + 1\<rparr>
                      else d\<lparr>des_shrink_count := 0\<rparr>)
                else d);
          d2 = d1\<lparr>des_data := [], des_position := 0, des_remaining := 0\<rparr>
      in if des_buffer_shrink_threshold d \<noteq> 0
            \<and> des_shrink_count d2 > des_buffer_shrink_threshold d2
         then (True, d2\<lparr>des_shrink_count := 0\<rparr>) else (False, d2))"

section \<open>The invariant of the deserializer\<close>

definition wf_des :: "deserializer \<Rightarrow> bool" where
  "wf_des d \<longleftrightarrow> des_position d + des_remaining d \<le> length (des_data d)"

text \<open>The bytes that may still be read, and the state after reading \<open>n\<close> of them.\<close>

definition unread :: "deserializer \<Rightarrow> bytes" where
  "unread d = take (des_remaining d) (drop (des_position d) (des_data d))"

definition skip_des :: "nat \<Rightarrow> deserializer \<Rightarrow> deserializer" where
  "skip_des n d = d\<lparr>des_position := des_position d + n, des_remaining := des_remaining d - n\<rparr>"

lemma length_unread: "wf_des d \<Longrightarrow> length (unread d) = des_remaining d"
  by (simp add: wf_des_def unread_def)

lemma skip_des_fields [simp]:
  "des_remaining (skip_des n d) = des_remaining d - n"
  "des_position (skip_des n d) = des_position d + n"
  "des_data (skip_des n d) = des_data d"
  by (simp_all add: skip_des_def)

lemma skip_des_0 [simp]: "skip_des 0 d = d"
  by (simp add: skip_des_def)

lemma skip_des_skip [simp]: "skip_des m (skip_des n d) = skip_des (n + m) d"
  by (simp add: skip_des_def add.assoc)

lemma wf_skip_des: "wf_des d \<Longrightarrow> n \<le> des_remaining d \<Longrightarrow> wf_des (skip_des n d)"
  by (simp add: wf_des_def)

lemma unread_skip_des: "unread (skip_des n d) = drop n (unread d)"
  by (simp add: unread_def drop_take add.commute)

lemma unread_append:
  assumes "wf_des d" "unread d = bs @ rest"
  shows "length bs \<le> des_remaining d" "wf_des (skip_des (length bs) d)"
    "unread (skip_des (length bs) d) = rest"
proof -
  show le: "length bs \<le> des_remaining d"
    using length_unread [OF assms(1)] assms(2) by simp
  then show "wf_des (skip_des (length bs) d)" using assms(1) by (rule wf_skip_des [rotated])
  show "unread (skip_des (length bs) d) = rest" by (simp add: unread_skip_des assms(2))
qed

lemma fetch_wf:
  "wf_des d \<Longrightarrow> n \<le> des_remaining d \<Longrightarrow> fetch n d = (Ok (take n (unread d)), skip_des n d)"
  by (auto simp: fetch_def wf_des_def unread_def skip_des_def)

lemma safe_fetch: "n \<le> des_remaining d \<Longrightarrow> wf_des d \<Longrightarrow>
    fst (fetch n d) \<noteq> Undefined \<and> wf_des (snd (fetch n d))"
  by (simp add: fetch_wf wf_skip_des)

lemma map_fetch_wf: "wf_des d \<Longrightarrow> n \<le> des_remaining d \<Longrightarrow>
    map_a f (fetch n) d = (Ok (f (take n (unread d))), skip_des n d)"
  by (simp add: map_a_def fetch_wf)

lemmas des_op_defs = deserialize_u8_def deserialize_u16_def deserialize_u32_def
  deserialize_range_def deserialize_string_def deserialize_vector_def

lemma safe_deserialize [safe_intros]:
  "safe_action wf_des deserialize_u8"
  "safe_action wf_des deserialize_u16"
  "safe_action wf_des (deserialize_u32 b)"
  "safe_action wf_des (deserialize_range n)"
  "safe_action wf_des (deserialize_string c n)"
  "safe_action wf_des (deserialize_vector n)"
  by (rule safe_actionI; simp add: des_op_defs map_fetch_wf fetch_wf wf_skip_des)+

text \<open>
  A reader of fixed width: when it succeeds it has consumed exactly \<open>n\<close> bytes. Together with safety
  this says that it refuses an input that is too short.
\<close>

definition consumes :: "nat \<Rightarrow> (deserializer, 'a) action \<Rightarrow> bool" where
  "consumes n p \<longleftrightarrow> (\<forall>d a d'. wf_des d \<longrightarrow> p d = (Ok a, d') \<longrightarrow>
     n \<le> des_remaining d \<and> d' = skip_des n d)"

lemma consumesD:
  "consumes n p \<Longrightarrow> wf_des d \<Longrightarrow> p d = (Ok a, d') \<Longrightarrow> n \<le> des_remaining d \<and> d' = skip_des n d"
  by (simp add: consumes_def)

lemma consumes_deserialize [consumes_intros]:
  "consumes 1 deserialize_u8" "consumes 2 deserialize_u16"
  "consumes 4 (deserialize_u32 False)" "consumes 3 (deserialize_u32 True)"
  "consumes n (deserialize_range n)" "consumes n (deserialize_vector n)"
  by (auto simp: consumes_def des_op_defs map_fetch_wf fetch_wf split: if_splits)

lemma consumes_return [consumes_intros]: "consumes 0 (return_a a)"
  by (simp add: consumes_def)

lemma consumes_bind [consumes_intros]:
  assumes p: "consumes m p" and f: "\<And>a. consumes n (f a)"
  shows "consumes (m + n) (bind_a p f)"
  unfolding consumes_def
proof (intro allI impI)
  fix d b d'' assume d: "wf_des d" and "bind_a p f d = (Ok b, d'')"
  then obtain a d' where 1: "p d = (Ok a, d')" and 2: "f a d' = (Ok b, d'')" by (blast elim: bind_a_OkE)
  from consumesD [OF p d 1] have m: "m \<le> des_remaining d" "d' = skip_des m d" by auto
  then have "wf_des d'" using d by (simp add: wf_skip_des)
  from consumesD [OF f this 2] m show "m + n \<le> des_remaining d \<and> d'' = skip_des (m + n) d"
    by (cases "n = 0") auto
qed

lemma consumes_map [consumes_intros]: "consumes n p \<Longrightarrow> consumes n (map_a f p)"
  unfolding map_a_def using consumes_bind [OF _ consumes_return, where m = n] by simp

lemma short_input_refused:
  assumes "consumes n p" "safe_action wf_des p" "wf_des d" "des_remaining d < n"
  shows "fst (p d) = Refused"
proof (cases "p d")
  case (Pair r d')
  with assms show ?thesis using consumesD [OF assms(1,3)] safe_actionD(1) [OF assms(2,3)]
    by (cases r) fastforce+
qed

section \<open>Wire formats as codecs\<close>

text \<open>
  The interface of a wire format: the bytes of a value (\<open>wire\<close>), the operation that writes it, the
  operation that reads it back, and the values it can represent (\<open>good\<close>). The laws: the writer
  appends exactly \<open>wire a\<close>; the reader, in front of \<open>wire a\<close>, returns \<open>a\<close> and consumes exactly those
  bytes; and on any input it keeps the invariant and avoids undefined behaviour.
\<close>

locale codec =
  fixes wire :: "'a \<Rightarrow> bytes"
    and ser :: "'a \<Rightarrow> serializer \<Rightarrow> bool \<times> serializer"
    and des :: "(deserializer, 'a) action"
    and good :: "'a \<Rightarrow> bool"
  assumes ser_wire: "good a \<Longrightarrow> appends (ser a) (wire a)"
    and des_wire: "wf_des d \<Longrightarrow> good a \<Longrightarrow> unread d = wire a @ rest \<Longrightarrow>
        des d = (Ok a, skip_des (length (wire a)) d)"
    and des_safe: "safe_action wf_des des"
begin

lemma bind_wire:
  assumes "wf_des d" "good a" "unread d = wire a @ rest"
  shows "bind_a des f d = f a (skip_des (length (wire a)) d)"
    and "wf_des (skip_des (length (wire a)) d)"
    and "unread (skip_des (length (wire a)) d) = rest"
  using des_wire [OF assms] unread_append [OF assms(1,3)] by simp_all

text \<open>What is written to an empty serializer is read back from a deserializer over its buffer.\<close>

lemma round_trip:
  assumes "good a"
  shows "ser a (new_serializer t) = (True, (new_serializer t)\<lparr>ser_data := wire a\<rparr>)"
    and "fst (des (new_deserializer (wire a @ rest) t')) = Ok a"
proof -
  show "ser a (new_serializer t) = (True, (new_serializer t)\<lparr>ser_data := wire a\<rparr>)"
    using appendsD [OF ser_wire [OF assms]] by (simp add: new_serializer_def)
  have "wf_des (new_deserializer (wire a @ rest) t')"
    "unread (new_deserializer (wire a @ rest) t') = wire a @ rest"
    by (simp_all add: wf_des_def unread_def new_deserializer_def)
  then show "fst (des (new_deserializer (wire a @ rest) t')) = Ok a"
    using des_wire [OF _ assms] by simp
qed

text \<open>No encoding of a value is a proper prefix of another one's: two values followed by anything
  can be told apart.\<close>

lemma wire_prefix_free:
  assumes "good a" "good b" "wire a @ xs = wire b @ ys"
  shows "a = b \<and> xs = ys"
proof -
  have a: "fst (des (new_deserializer (wire a @ xs) 0)) = Ok a" by (rule round_trip) fact
  have b: "fst (des (new_deserializer (wire b @ ys) 0)) = Ok b" by (rule round_trip) fact
  from a b assms(3) have "a = b" by simp
  with assms(3) show ?thesis by simp
qed

end

interpretation c8: codec "\<lambda>v. [v]" serialize_u8 deserialize_u8 "\<lambda>_. True"
proof unfold_locales
  fix d a rest assume d: "wf_des d" "unread d = [a] @ rest"
  then have "1 \<le> des_remaining d" using unread_append(1) [OF d] by simp
  then show "deserialize_u8 d = (Ok a, skip_des (length [a]) d)"
    using d by (simp add: deserialize_u8_def map_fetch_wf)
qed (rule wire_simps safe_intros)+

interpretation c16: codec be16 serialize_u16 deserialize_u16 "\<lambda>_. True"
proof unfold_locales
  fix d a rest assume d: "wf_des d" "unread d = be16 a @ rest"
  then have "2 \<le> des_remaining d" using unread_append(1) by fastforce
  then show "deserialize_u16 d = (Ok a, skip_des (length (be16 a)) d)"
    using d by (simp add: deserialize_u16_def map_fetch_wf) (simp add: be16_def)
qed (rule wire_simps safe_intros)+

interpretation c32: codec be32 "\<lambda>v. serialize_u32 v False" "deserialize_u32 False" "\<lambda>_. True"
proof unfold_locales
  fix d a rest assume d: "wf_des d" "unread d = be32 a @ rest"
  then have "4 \<le> des_remaining d" using unread_append(1) by fastforce
  then show "deserialize_u32 False d = (Ok a, skip_des (length (be32 a)) d)"
    using d by (simp add: deserialize_u32_def map_fetch_wf) (simp add: be32_def)
qed (rule wire_simps safe_intros)+

text \<open>A \<open>uint32_t\<close> written without its most significant byte is read back when it fits 24 bits.\<close>

interpretation c24: codec be24 "\<lambda>v. serialize_u32 v True" "deserialize_u32 True" "\<lambda>v. take_bit 24 v = v"
proof unfold_locales
  fix d rest and a :: u32 assume d: "wf_des d" "unread d = be24 a @ rest" and a: "take_bit 24 a = a"
  from d have "3 \<le> des_remaining d" using unread_append(1) by fastforce
  then show "deserialize_u32 True d = (Ok a, skip_des (length (be24 a)) d)"
    using d a by (simp add: deserialize_u32_def map_fetch_wf) (simp add: be24_def)
qed (rule wire_simps safe_intros)+

interpretation crange: codec "\<lambda>bs. bs" serialize_range "deserialize_range n" "\<lambda>bs. length bs = n" for n
proof unfold_locales
  fix d and a rest :: bytes assume d: "wf_des d" "unread d = a @ rest" and a: "length a = n"
  then have "n \<le> des_remaining d" using unread_append(1) by fastforce
  then show "deserialize_range n d = (Ok a, skip_des (length a) d)"
    using d a by (simp add: deserialize_range_def fetch_wf)
qed (rule wire_simps safe_intros)+

interpretation cvec: codec "\<lambda>bs. bs" serialize_vector "deserialize_vector n" "\<lambda>bs. length bs = n" for n
proof unfold_locales
  fix d and a rest :: bytes assume d: "wf_des d" "unread d = a @ rest" and a: "length a = n"
  then have "n \<le> des_remaining d" using unread_append(1) by fastforce
  then show "deserialize_vector n d = (Ok a, skip_des (length a) d)"
    using d a by (simp add: deserialize_vector_def fetch_wf)
qed (rule wire_simps safe_intros)+

end
