(* ===== verification/Message.thy ===== *)
theory Message
  imports Serializer
begin

text \<open>
  SOME/IP messages (\<open>implementation/message/src\<close>): \<open>message_header_impl\<close>, \<open>payload_impl\<close>,
  \<open>message_base_impl\<close> and \<open>message_impl\<close>. The constants are those of \<open>interface/vsomeip/defines.hpp\<close>
  and \<open>enumeration_types.hpp\<close>. A scoped enumeration over \<open>uint8_t\<close> can hold every byte value (the code
  casts received bytes to it unchecked), so it is modelled by the byte.
\<close>

definition VSOMEIP_SOMEIP_HEADER_SIZE :: nat where
  "VSOMEIP_SOMEIP_HEADER_SIZE = 8"

definition VSOMEIP_FULL_HEADER_SIZE :: nat where
  "VSOMEIP_FULL_HEADER_SIZE = 16"

lemmas header_sizes = VSOMEIP_SOMEIP_HEADER_SIZE_def VSOMEIP_FULL_HEADER_SIZE_def

type_synonym message_type_e = byte
type_synonym return_code_e = byte

definition MT_NOTIFICATION :: message_type_e where "MT_NOTIFICATION = 0x02"
definition MT_UNKNOWN :: message_type_e where "MT_UNKNOWN = 0xFF"
definition E_OK :: return_code_e where "E_OK = 0x00"
definition E_UNKNOWN :: return_code_e where "E_UNKNOWN = 0xFF"

section \<open>The message header\<close>

record header =
  h_service :: u16
  h_method :: u16
  h_length :: u32
  h_client :: u16
  h_session :: u16
  h_protocol_version :: byte
  h_interface_version :: byte
  h_type :: message_type_e
  h_code :: return_code_e
  h_instance :: u16

definition new_header :: header where
  "new_header =
     \<lparr>h_service = 0, h_method = 0, h_length = 0, h_client = 0, h_session = 0,
      h_protocol_version = 1, h_interface_version = 0, h_type = MT_UNKNOWN, h_code = E_UNKNOWN,
      h_instance = 0\<rparr>"

text \<open>
  The header does not write its own \<open>length_\<close> field but asks the message that owns it; \<open>owner_length\<close>
  is the value of \<open>owner_->get_length()\<close>. Reading fills the fields of an existing header, whose
  \<open>instance_\<close> is not part of the wire format.
\<close>

definition serialize_header :: "u32 \<Rightarrow> header \<Rightarrow> serializer \<Rightarrow> bool \<times> serializer" where
  "serialize_header owner_length h =
     and_s (serialize_u16 (h_service h))
    (and_s (serialize_u16 (h_method h))
    (and_s (serialize_u32 owner_length False)
    (and_s (serialize_u16 (h_client h))
    (and_s (serialize_u16 (h_session h))
    (and_s (serialize_u8 (h_protocol_version h))
    (and_s (serialize_u8 (h_interface_version h))
    (and_s (serialize_u8 (h_type h))
           (serialize_u8 (h_code h)))))))))"

definition deserialize_header :: "header \<Rightarrow> (deserializer, header) action" where
  "deserialize_header h0 =
     bind_a deserialize_u16 (\<lambda>service.
     bind_a deserialize_u16 (\<lambda>method.
     bind_a (deserialize_u32 False) (\<lambda>len.
     bind_a deserialize_u16 (\<lambda>client.
     bind_a deserialize_u16 (\<lambda>session.
     bind_a deserialize_u8 (\<lambda>protocol_version.
     bind_a deserialize_u8 (\<lambda>interface_version.
     bind_a deserialize_u8 (\<lambda>tmp_message_type.
     bind_a deserialize_u8 (\<lambda>tmp_return_code.
     return_a (h0\<lparr>h_service := service, h_method := method, h_length := len, h_client := client,
       h_session := session, h_protocol_version := protocol_version,
       h_interface_version := interface_version, h_type := tmp_message_type,
       h_code := tmp_return_code\<rparr>))))))))))"

text \<open>The layout of the 16 header bytes.\<close>

definition wire_header :: "u32 \<Rightarrow> header \<Rightarrow> bytes" where
  "wire_header owner_length h =
     be16 (h_service h) @ be16 (h_method h) @ be32 owner_length @ be16 (h_client h)
       @ be16 (h_session h)
       @ [h_protocol_version h] @ [h_interface_version h] @ [h_type h] @ [h_code h]"

lemma length_wire_header [simp]: "length (wire_header n h) = 16"
  by (simp add: wire_header_def)

lemma appends_header [wire_simps]: "appends (serialize_header n h) (wire_header n h)"
  unfolding serialize_header_def wire_header_def by (intro wire_simps)

lemma safe_header [safe_intros]: "safe_action wf_des (deserialize_header h0)"
  unfolding deserialize_header_def by (intro safe_intros)

lemma deserialize_header_wire:
  assumes "wf_des d" "unread d = wire_header n h @ rest"
  shows "deserialize_header h0 d = (Ok (h\<lparr>h_length := n, h_instance := h_instance h0\<rparr>), skip_des 16 d)"
proof -
  note w = assms(2) [unfolded wire_header_def append_assoc]
  note s1 = c16.bind_wire [OF assms(1) TrueI w]
  note s2 = c16.bind_wire [OF s1(2) TrueI s1(3)]
  note s3 = c32.bind_wire [OF s2(2) TrueI s2(3)]
  note s4 = c16.bind_wire [OF s3(2) TrueI s3(3)]
  note s5 = c16.bind_wire [OF s4(2) TrueI s4(3)]
  note s6 = c8.bind_wire [OF s5(2) TrueI s5(3)]
  note s7 = c8.bind_wire [OF s6(2) TrueI s6(3)]
  note s8 = c8.bind_wire [OF s7(2) TrueI s7(3)]
  note s9 = c8.bind_wire [OF s8(2) TrueI s8(3)]
  show ?thesis
    unfolding deserialize_header_def
    by (simp only: s1(1) s2(1) s3(1) s4(1) s5(1) s6(1) s7(1) s8(1) s9(1)) simp
qed

interpretation chdr: codec "\<lambda>h. wire_header (h_length h) h" "\<lambda>h. serialize_header (h_length h) h"
    "deserialize_header h0" "\<lambda>h. h_instance h = h_instance h0" for h0
proof unfold_locales
  fix d a rest
  assume "wf_des d" "unread d = wire_header (h_length a) a @ rest" "h_instance a = h_instance h0"
  then show "deserialize_header h0 d = (Ok a, skip_des (length (wire_header (h_length a) a)) d)"
    by (simp add: deserialize_header_wire)
qed (rule wire_simps safe_intros)+

section \<open>The payload\<close>

text \<open>
  The payload owns a vector. Its capacity is part of the model, because \<open>message_impl::deserialize\<close>
  reserves the number of bytes it expects and the deserializer then reads as many bytes as the
  vector has capacity. \<open>reserve\<close> on a vector of smaller capacity allocates exactly what is asked for.
\<close>

record payload =
  pl_data :: bytes
  pl_capacity :: nat

definition create_payload :: payload where
  "create_payload = \<lparr>pl_data = [], pl_capacity = 0\<rparr>"

definition payload_get_length :: "payload \<Rightarrow> u32" where
  "payload_get_length p = word_of_nat (length (pl_data p))"

definition set_capacity :: "u32 \<Rightarrow> payload \<Rightarrow> payload" where
  "set_capacity capacity p = p\<lparr>pl_capacity := max (pl_capacity p) (unat capacity)\<rparr>"

definition payload_set_data :: "bytes \<Rightarrow> payload \<Rightarrow> payload" where
  "payload_set_data bs p = \<lparr>pl_data = bs, pl_capacity = max (pl_capacity p) (length bs)\<rparr>"

definition serialize_payload :: "payload \<Rightarrow> serializer \<Rightarrow> bool \<times> serializer" where
  "serialize_payload p = serialize_vector (pl_data p)"

definition deserialize_payload :: "payload \<Rightarrow> (deserializer, payload) action" where
  "deserialize_payload p = map_a (\<lambda>bs. p\<lparr>pl_data := bs\<rparr>) (deserialize_vector (pl_capacity p))"

section \<open>Messages\<close>

record message =
  m_header :: header
  m_payload :: "payload option"
  m_check_result :: byte
  m_uid :: u32
  m_gid :: u32
  m_is_reliable :: bool
  m_is_initial :: bool

definition ANY_UID :: u32 where "ANY_UID = 0xFFFFFFFF"
definition ANY_GID :: u32 where "ANY_GID = 0xFFFFFFFF"

definition new_message :: message where
  "new_message =
     \<lparr>m_header = new_header, m_payload = Some create_payload, m_check_result = 0,
      m_uid = ANY_UID, m_gid = ANY_GID, m_is_reliable = False, m_is_initial = False\<rparr>"

text \<open>The combined identifiers of \<open>message_base_impl\<close>.\<close>

definition get_message :: "message \<Rightarrow> u32" where
  "get_message m = WORDS_TO_LONG (h_service (m_header m)) (h_method (m_header m))"

definition set_message :: "u32 \<Rightarrow> message \<Rightarrow> message" where
  "set_message v m =
     m\<lparr>m_header := (m_header m)\<lparr>h_service := LONG_WORD0 v, h_method := LONG_WORD1 v\<rparr>\<rparr>"

definition get_request :: "message \<Rightarrow> u32" where
  "get_request m = WORDS_TO_LONG (h_client (m_header m)) (h_session (m_header m))"

definition get_length :: "message \<Rightarrow> u32" where
  "get_length m =
     of_nat VSOMEIP_SOMEIP_HEADER_SIZE
       + (case m_payload m of Some p \<Rightarrow> payload_get_length p | None \<Rightarrow> 0)"

definition serialize_message :: "message \<Rightarrow> serializer \<Rightarrow> bool \<times> serializer" where
  "serialize_message m =
     and_s (serialize_header (get_length m) (m_header m))
       (case m_payload m of Some p \<Rightarrow> serialize_payload p | None \<Rightarrow> (\<lambda>s. (True, s)))"

definition message_deserialize :: "message \<Rightarrow> (deserializer, message) action" where
  "message_deserialize m =
     bind_a (deserialize_header (m_header m)) (\<lambda>h.
     bind_a (deserialize_payload
        (set_capacity (h_length h - of_nat VSOMEIP_SOMEIP_HEADER_SIZE) create_payload)) (\<lambda>p.
     return_a (m\<lparr>m_header := h, m_payload := Some p\<rparr>)))"

text \<open>\<open>deserializer::deserialize_message\<close> reads into a fresh message and returns a null pointer on failure.\<close>

definition deserialize_message :: "(deserializer, message) action" where
  "deserialize_message = message_deserialize new_message"

definition is_valid_crc :: "message \<Rightarrow> bool" where
  "is_valid_crc m \<longleftrightarrow> m_check_result m = 0"

section \<open>Reading a message from arbitrary bytes\<close>

lemma safe_payload [safe_intros]: "safe_action wf_des (deserialize_payload p)"
  unfolding deserialize_payload_def by (intro safe_intros)

lemma safe_message [safe_intros]: "safe_action wf_des (message_deserialize m)"
  unfolding message_deserialize_def by (intro safe_intros)

lemma consumes_header [consumes_intros]: "consumes 16 (deserialize_header h0)"
proof -
  have "consumes (2 + (2 + (4 + (2 + (2 + (1 + (1 + (1 + (1 + 0))))))))) (deserialize_header h0)"
    unfolding deserialize_header_def by (intro consumes_intros)
  then show ?thesis by simp
qed

lemma list16: "length bs = 16 \<longleftrightarrow> (\<exists>a b c d e f g h i j k l m n p q.
    bs = [a, b, c, d, e, f, g, h, i, j, k, l, m, n, p, q])"
  by (auto simp: numeral_eq_Suc length_Suc_conv)

text \<open>
  A reference reading of a message buffer by byte position (\<open>VSOMEIP_*_POS_*\<close>), against which the
  chain of deserializer calls is proved.
\<close>

definition header_at :: "bytes \<Rightarrow> header" where
  "header_at bs =
     \<lparr>h_service = BYTES_TO_WORD (bs ! 0) (bs ! 1), h_method = BYTES_TO_WORD (bs ! 2) (bs ! 3),
      h_length = BYTES_TO_LONG (bs ! 4) (bs ! 5) (bs ! 6) (bs ! 7),
      h_client = BYTES_TO_WORD (bs ! 8) (bs ! 9), h_session = BYTES_TO_WORD (bs ! 10) (bs ! 11),
      h_protocol_version = bs ! 12, h_interface_version = bs ! 13, h_type = bs ! 14,
      h_code = bs ! 15, h_instance = 0\<rparr>"

lemma wire_header_at: "length bs = 16 \<Longrightarrow> wire_header (h_length (header_at bs)) (header_at bs) = bs"
  by (auto simp: list16 wire_header_def header_at_def be16_def be32_def)

lemma header_at_take: "16 \<le> length bs \<Longrightarrow> header_at (take 16 bs) = header_at bs"
  by (simp add: header_at_def)

lemma header_at_wire: "header_at (wire_header n h @ rest) = h\<lparr>h_length := n, h_instance := 0\<rparr>"
  by (simp add: wire_header_def header_at_def be16_def be32_def)

lemma new_deserializer_wf [simp]: "wf_des (new_deserializer bs t)" "unread (new_deserializer bs t) = bs"
  "des_remaining (new_deserializer bs t) = length bs"
  by (simp_all add: wf_des_def unread_def new_deserializer_def)

lemma deserialize_header_bytes:
  assumes "16 \<le> length bs"
  shows "deserialize_header new_header (new_deserializer bs t)
    = (Ok (header_at bs), skip_des 16 (new_deserializer bs t))"
proof -
  have "unread (new_deserializer bs t)
      = wire_header (h_length (header_at (take 16 bs))) (header_at (take 16 bs)) @ drop 16 bs"
    using assms by (simp add: wire_header_at)
  from deserialize_header_wire [OF _ this] show ?thesis
    using assms by (simp add: header_at_take) (simp add: header_at_def new_header_def)
qed

lemma deserialize_payload_wf:
  assumes "wf_des d"
  shows "deserialize_payload (set_capacity n create_payload) d =
    (if unat n \<le> des_remaining d
     then (Ok \<lparr>pl_data = take (unat n) (unread d), pl_capacity = unat n\<rparr>, skip_des (unat n) d)
     else (Refused, d))"
  using assms
  by (simp add: deserialize_payload_def map_a_def bind_a_def deserialize_vector_def fetch_wf
      set_capacity_def create_payload_def)

lemma deserialize_message_long:
  assumes "16 \<le> length bs"
  shows "fst (deserialize_message (new_deserializer bs t)) =
     (let n = unat (h_length (header_at bs) - 8) in
        if n \<le> length bs - 16
        then Ok (new_message\<lparr>m_header := header_at bs,
               m_payload := Some \<lparr>pl_data = take n (drop 16 bs), pl_capacity = n\<rparr>\<rparr>)
        else Refused)"
proof -
  let ?d = "new_deserializer bs t"
  have wf: "wf_des (skip_des 16 ?d)" using assms by (intro wf_skip_des) simp_all
  have "deserialize_message ?d =
      bind_a (deserialize_payload (set_capacity (h_length (header_at bs) - 8) create_payload))
        (\<lambda>p. return_a (new_message\<lparr>m_header := header_at bs, m_payload := Some p\<rparr>)) (skip_des 16 ?d)"
    using assms deserialize_header_bytes [of bs t]
    by (simp add: deserialize_message_def message_deserialize_def new_message_def header_sizes)
  then show ?thesis using assms
    by (simp add: bind_a_def deserialize_payload_wf [OF wf] unread_skip_des Let_def)
qed

text \<open>
  [C26] Reading a message from any byte sequence is free of undefined behaviour and is described
  completely by byte positions: it is refused when the buffer is shorter than a header or than the
  payload size the length field announces, computed as a \<open>uint32_t\<close> difference (so that a length
  field below 8 announces almost 4 GiB); otherwise it yields the header fields at their positions
  and exactly the announced payload.
\<close>

theorem deserialize_message_bytes:
  "fst (deserialize_message (new_deserializer bs t)) =
     (if length bs < 16 then Refused
      else let n = unat (h_length (header_at bs) - 8) in
        if n \<le> length bs - 16
        then Ok (new_message\<lparr>m_header := header_at bs,
               m_payload := Some \<lparr>pl_data = take n (drop 16 bs), pl_capacity = n\<rparr>\<rparr>)
        else Refused)"
proof (cases "length bs < 16")
  case True
  then have "fst (deserialize_header new_header (new_deserializer bs t)) = Refused"
    by (intro short_input_refused [OF consumes_header safe_header]) simp_all
  then show ?thesis using True
    by (simp add: deserialize_message_def message_deserialize_def new_message_def)
qed (simp add: deserialize_message_long)

section \<open>Round trip\<close>

definition wire_message :: "message \<Rightarrow> bytes" where
  "wire_message m = wire_header (get_length m) (m_header m)
     @ (case m_payload m of Some p \<Rightarrow> pl_data p | None \<Rightarrow> [])"

lemma appends_message [wire_simps]: "appends (serialize_message m) (wire_message m)"
proof (cases "m_payload m")
  case None
  then show ?thesis
    using appends_header [of "get_length m" "m_header m"]
    by (simp add: serialize_message_def wire_message_def appends_def and_s_def)
next
  case (Some p)
  then show ?thesis unfolding serialize_message_def wire_message_def serialize_payload_def
    by (auto intro!: wire_simps)
qed

text \<open>
  [C1] A message whose payload fits the length field, serialized and then read back, is the same
  message: every header field, the payload, and a length field that counts the bytes that follow it.
\<close>

theorem message_round_trip:
  assumes "m_payload m = Some p" and "length (pl_data p) + 8 < 2 ^ 32"
  shows "\<exists>s m' p'. serialize_message m (new_serializer t) = (True, s)
    \<and> fst (deserialize_message (new_deserializer (ser_data s) t')) = Ok m'
    \<and> m_header m' = (m_header m)\<lparr>h_length := get_length m, h_instance := 0\<rparr>
    \<and> m_payload m' = Some p' \<and> pl_data p' = pl_data p
    \<and> length (ser_data s) = unat (get_length m) + 8"
proof -
  let ?w = "wire_message m"
  have len: "unat (get_length m) = length (pl_data p) + 8"
    using assms by (simp add: get_length_def payload_get_length_def header_sizes unat_word_ariths
        unat_of_nat take_bit_eq_mod)
  then have sub: "unat (get_length m - 8) = length (pl_data p)"
    by (simp add: unat_sub word_le_nat_alt)
  have w: "?w = wire_header (get_length m) (m_header m) @ pl_data p"
    by (simp add: wire_message_def assms(1))
  have ser: "serialize_message m (new_serializer t) = (True, (new_serializer t)\<lparr>ser_data := ?w\<rparr>)"
    using appendsD [OF appends_message] by (simp add: new_serializer_def)
  have hdr: "header_at ?w = (m_header m)\<lparr>h_length := get_length m, h_instance := 0\<rparr>"
    by (simp add: w header_at_wire)
  have "fst (deserialize_message (new_deserializer ?w t')) =
      Ok (new_message\<lparr>m_header := header_at ?w,
        m_payload := Some \<lparr>pl_data = pl_data p, pl_capacity = length (pl_data p)\<rparr>\<rparr>)"
    by (subst deserialize_message_long) (simp_all add: w hdr [unfolded w] Let_def sub)
  then show ?thesis using ser hdr len by (auto simp: w)
qed

theorem message_round_trip_witness:
  "\<exists>s m' p'. serialize_message (new_message\<lparr>m_payload := Some \<lparr>pl_data = [1, 2, 3], pl_capacity = 3\<rparr>\<rparr>)
      (new_serializer 5) = (True, s)
    \<and> fst (deserialize_message (new_deserializer (ser_data s) 5)) = Ok m'
    \<and> m_payload m' = Some p' \<and> pl_data p' = [1, 2, 3] \<and> length (ser_data s) = 19"
proof -
  let ?m = "new_message\<lparr>m_payload := Some \<lparr>pl_data = [1, 2, 3 :: byte], pl_capacity = 3\<rparr>\<rparr>"
  have h: "m_payload ?m = Some \<lparr>pl_data = [1, 2, 3], pl_capacity = 3\<rparr>"
    "length (pl_data \<lparr>pl_data = [1, 2, 3 :: byte], pl_capacity = 3\<rparr>) + 8 < 2 ^ 32" by simp_all
  have "get_length ?m = 11"
    by (simp add: get_length_def payload_get_length_def header_sizes)
  then show ?thesis using message_round_trip [OF h, of 5 5] by auto
qed

section \<open>The combined message identifier\<close>

text \<open>
  \<open>set_message\<close> does not store what \<open>get_message\<close> returns: the former takes the service from the
  low half of the identifier, the latter puts it into the high half. Setting an identifier and
  reading it back gives the identifier with its halves swapped, which is the same identifier only
  when service and method coincide.
\<close>

theorem get_set_message_swaps:
  "get_message (set_message v m) = WORDS_TO_LONG (LONG_WORD0 v) (LONG_WORD1 v)
   \<and> (get_message (set_message v m) = v \<longleftrightarrow> LONG_WORD0 v = LONG_WORD1 v)"
proof -
  have eq: "get_message (set_message v m) = WORDS_TO_LONG (LONG_WORD0 v) (LONG_WORD1 v)"
    by (simp add: get_message_def set_message_def)
  have id: "WORDS_TO_LONG (LONG_WORD1 v) (LONG_WORD0 v) = v"
    by (rule bit_word_eqI)
      (auto simp: byteorder_defs word_bits mask16 split: if_splits dest: bit_imp_le_length)
  have "WORDS_TO_LONG (LONG_WORD0 v) (LONG_WORD1 v) = v \<longleftrightarrow> LONG_WORD0 v = LONG_WORD1 v"
    using id by (metis LONG_WORD_WORDS_TO_LONG)
  with eq show ?thesis by simp
qed

end
