(* ===== verification/Tp.thy ===== *)
theory Tp
  imports Message
begin

text \<open>
  SOME/IP-TP segmentation, \<open>implementation/endpoints/include/tp.hpp\<close> and \<open>src/tp.cpp\<close>: the bit fields of
  the TP header, the TP flag of the message type, and \<open>tp::tp_split_message\<close>, which cuts a message
  that is too large for one datagram into segments.
\<close>

definition VSOMEIP_MAX_UDP_MESSAGE_SIZE :: nat where "VSOMEIP_MAX_UDP_MESSAGE_SIZE = 1416"
definition VSOMEIP_LENGTH_POS_MIN :: nat where "VSOMEIP_LENGTH_POS_MIN = 4"
definition VSOMEIP_MESSAGE_TYPE_POS :: nat where "VSOMEIP_MESSAGE_TYPE_POS = 14"
definition VSOMEIP_RETURN_CODE_POS :: nat where "VSOMEIP_RETURN_CODE_POS = 15"
definition VSOMEIP_TP_HEADER_SIZE :: nat where "VSOMEIP_TP_HEADER_SIZE = 4"
definition VSOMEIP_TP_HEADER_POS_MIN :: nat where "VSOMEIP_TP_HEADER_POS_MIN = 16"
definition VSOMEIP_TP_HEADER_POS_MAX :: nat where "VSOMEIP_TP_HEADER_POS_MAX = 19"
definition VSOMEIP_TP_PAYLOAD_POS :: nat where "VSOMEIP_TP_PAYLOAD_POS = 20"
definition tp_max_segment_length :: nat where "tp_max_segment_length = 1392"
definition TP_FLAG :: byte where "TP_FLAG = 0x20"

lemmas tp_consts = header_sizes VSOMEIP_MAX_UDP_MESSAGE_SIZE_def VSOMEIP_LENGTH_POS_MIN_def
  VSOMEIP_MESSAGE_TYPE_POS_def VSOMEIP_RETURN_CODE_POS_def VSOMEIP_TP_HEADER_SIZE_def
  VSOMEIP_TP_HEADER_POS_MIN_def VSOMEIP_TP_HEADER_POS_MAX_def VSOMEIP_TP_PAYLOAD_POS_def
  tp_max_segment_length_def TP_FLAG_def

definition get_offset :: "u32 \<Rightarrow> u32" where
  "get_offset tp_header = tp_header AND 0xfffffff0"

definition more_segments :: "u32 \<Rightarrow> bool" where
  "more_segments tp_header \<longleftrightarrow> tp_header AND 0x1 \<noteq> 0"

definition tp_flag_is_set :: "byte \<Rightarrow> bool" where
  "tp_flag_is_set msg_type \<longleftrightarrow> msg_type AND TP_FLAG \<noteq> 0"

definition tp_flag_set :: "message_type_e \<Rightarrow> byte" where
  "tp_flag_set msg_type = msg_type OR TP_FLAG"

definition tp_flag_unset :: "byte \<Rightarrow> message_type_e" where
  "tp_flag_unset msg_type = msg_type AND NOT TP_FLAG"

section \<open>Splitting a message\<close>

text \<open>
  One pass of the loop: \<open>current\<close> is the offset of \<open>current_offset\<close> from \<open>_data\<close>. The length field is
  written through \<open>htonl\<close> into bytes 4 to 7.
\<close>

definition put_length :: "u32 \<Rightarrow> bytes \<Rightarrow> bytes" where
  "put_length v bs =
     take VSOMEIP_LENGTH_POS_MIN bs @ be32 v @ drop (VSOMEIP_LENGTH_POS_MIN + 4) bs"

definition tp_segment :: "bytes \<Rightarrow> nat \<Rightarrow> bytes" where
  "tp_segment data current =
     (let data_end = length data;
          msg = take VSOMEIP_FULL_HEADER_SIZE data;
          msg = msg[VSOMEIP_MESSAGE_TYPE_POS := msg ! VSOMEIP_MESSAGE_TYPE_POS OR 0x20];
          segment_end = current + tp_max_segment_length;
          is_last_segment = (segment_end \<ge> data_end);
          header = (of_nat (current - VSOMEIP_FULL_HEADER_SIZE) :: u32)
                     OR (if is_last_segment then 0x0 else 0x1);
          msg = msg @ be32 header;
          msg = msg @ (if is_last_segment then drop current data
                       else take (segment_end - current) (drop current data));
          its_length = of_nat (length msg - VSOMEIP_SOMEIP_HEADER_SIZE)
      in put_length its_length msg)"

function tp_split_loop :: "bytes \<Rightarrow> nat \<Rightarrow> bytes list" where
  "tp_split_loop data current =
     (if current < length data
      then tp_segment data current
             # tp_split_loop data
                 (if current + tp_max_segment_length \<ge> length data then length data
                  else current + tp_max_segment_length)
      else [])"
  by pat_completeness auto
termination
  by (relation "measure (\<lambda>(data, current). length data - current)")
    (auto simp: tp_max_segment_length_def)

declare tp_split_loop.simps [simp del]

definition tp_split_message :: "bytes \<Rightarrow> bytes list" where
  "tp_split_message data =
     (if length data < VSOMEIP_MAX_UDP_MESSAGE_SIZE then []
      else tp_split_loop data VSOMEIP_FULL_HEADER_SIZE)"

section \<open>Properties of the TP header and flag\<close>

lemma bit_more_segments: "more_segments h \<longleftrightarrow> bit h 0"
  by (simp add: more_segments_def and_one_eq odd_iff_mod_2_eq_one bit_0)

lemma get_offset_mask: "get_offset h = h AND NOT (mask 4)"
proof -
  have "(0xfffffff0 :: u32) = NOT (mask 4)" by (simp add: mask_eq_exp_minus_1)
  then show ?thesis by (simp only: get_offset_def)
qed

lemma bit_get_offset: "bit (get_offset h) n \<longleftrightarrow> bit h n \<and> 4 \<le> n"
  by (auto simp: get_offset_mask bit_simps dest: bit_imp_le_length)

text \<open>A header built from a segment offset and a flag gives both back, for offsets in steps of 16.\<close>

lemma header_fields:
  assumes "16 dvd unat off" "v = 0 \<or> v = 1"
  shows "get_offset (off OR v) = off" "more_segments (off OR v) \<longleftrightarrow> v = 1"
proof -
  have "take_bit 4 off = 0"
    using assms(1) by (simp add: unat_eq_zero [symmetric] take_bit_eq_mod unat_mod)
  then have low: "\<not> bit off n" if "n < 4" for n
    using that by (metis bit_0_eq bit_take_bit_iff bot_apply bot_bool_def)
  show "get_offset (off OR v) = off"
    by (rule bit_word_eqI)
      (use assms(2) low in \<open>auto simp: bit_get_offset bit_or_iff bit_1_iff not_less [symmetric]\<close>)
  show "more_segments (off OR v) \<longleftrightarrow> v = 1"
    using assms(2) low [of 0] by (auto simp: bit_more_segments bit_or_iff)
qed

lemma bit_tp_flag: "bit (0x20 :: byte) n \<longleftrightarrow> n = 5"
proof -
  have "(0x20 :: byte) = push_bit 5 1" by (simp add: push_bit_eq_mult)
  then have "bit (0x20 :: byte) n \<longleftrightarrow> bit (push_bit 5 1 :: byte) n" by (simp only:)
  then show ?thesis by (auto simp only: bit_push_bit_iff bit_1_iff) (simp_all add: bit_1_iff)
qed

lemma tp_flag_bit: "tp_flag_is_set t \<longleftrightarrow> bit t 5"
proof -
  have "tp_flag_is_set t \<longleftrightarrow> (\<exists>n. bit (t AND 0x20) n)"
    unfolding tp_flag_is_set_def TP_FLAG_def by (metis bit_0_eq bit_eqI bot_apply bot_bool_def)
  then show ?thesis by (auto simp only: bit_and_iff bit_tp_flag)
qed

lemma tp_flag_set_is_set [simp]: "tp_flag_is_set (t OR 0x20)"
  by (simp add: tp_flag_bit bit_or_iff bit_tp_flag)

lemma tp_flag_unset_set: "\<not> tp_flag_is_set t \<Longrightarrow> tp_flag_unset (t OR 0x20) = t"
  unfolding tp_flag_unset_def TP_FLAG_def
  by (rule bit_word_eqI)
    (auto simp only: tp_flag_bit bit_and_iff bit_or_iff bit_not_iff bit_tp_flag possible_bit_word)

end
