(* ===== verification/Tp_Message.thy ===== *)
theory Tp_Message
  imports Tp
begin

text \<open>
  \<open>tp::tp_message\<close> (\<open>implementation/endpoints/src/tp_message.cpp\<close>): the reassembly of one segmented
  message. The object keeps the set of byte ranges received so far and a buffer that grows as
  segments arrive, in any order. All offsets and sizes are \<open>uint32_t\<close> and wrap around; every access to
  the buffer or to the received datagram outside its bounds is \<open>Undefined\<close>.

  The ranges are a \<open>std::set\<close> ordered by \<open>segment_t::operator<\<close>. The model is the list of the elements in
  that order. A \<open>std::set\<close> has undefined behaviour when two of its elements are each less than the
  other, which this operator allows; \<open>emplace\<close> is \<open>Undefined\<close> in that case, whether or not the tree search of an
  implementation would compare these two elements.
\<close>

section \<open>Ranges\<close>

record segment_t =
  seg_start :: u32
  seg_end :: u32

definition segment :: "u32 \<Rightarrow> u32 \<Rightarrow> segment_t" where
  "segment s e = \<lparr>seg_start = s, seg_end = e\<rparr>"

lemma segment_sel [simp]: "seg_start (segment s e) = s" "seg_end (segment s e) = e"
  "segment s e = segment s' e' \<longleftrightarrow> s = s' \<and> e = e'"
  by (auto simp: segment_def)

definition segment_lt :: "segment_t \<Rightarrow> segment_t \<Rightarrow> bool" where
  "segment_lt a b \<longleftrightarrow>
     seg_start a < seg_start b \<or> (seg_start a \<ge> seg_start b \<and> seg_end a < seg_end b)"

text \<open>
  \<open>emplace x segs\<close>: \<open>Undefined\<close> when \<open>x\<close> and an element are ordered both ways, \<open>Refused\<close> when an equivalent
  element is present, otherwise the elements before and behind the position of \<open>x\<close>.
\<close>

definition emplace :: "segment_t \<Rightarrow> segment_t list \<Rightarrow> (segment_t list \<times> segment_t list) result" where
  "emplace x segs =
     (if list_ex (\<lambda>y. segment_lt x y \<and> segment_lt y x) segs then Undefined
      else if list_ex (\<lambda>y. \<not> segment_lt x y \<and> \<not> segment_lt y x) segs then Refused
      else Ok (takeWhile (\<lambda>y. segment_lt y x) segs, dropWhile (\<lambda>y. segment_lt y x) segs))"

text \<open>\<open>segments_.erase(seg_current); segments_.emplace(x)\<close> with the outcome of \<open>emplace\<close> ignored.\<close>

definition re_emplace :: "segment_t \<Rightarrow> segment_t list \<Rightarrow> segment_t list result" where
  "re_emplace x segs =
     (case emplace x segs of
        Ok (before, behind) \<Rightarrow> Ok (before @ x # behind)
      | Refused \<Rightarrow> Ok segs
      | Undefined \<Rightarrow> Undefined)"

section \<open>The object\<close>

record tp_message =
  tpm_creation :: int
  tpm_max_message_size :: u32
  tpm_current_message_size :: u32
  tpm_last_segment_received :: bool
  tpm_segments :: "segment_t list"
  tpm_message :: bytes

definition tp_header_of :: "bytes \<Rightarrow> u32" where
  "tp_header_of data =
     BYTES_TO_LONG (data ! VSOMEIP_TP_HEADER_POS_MIN) (data ! (VSOMEIP_TP_HEADER_POS_MIN + 1))
       (data ! (VSOMEIP_TP_HEADER_POS_MIN + 2)) (data ! VSOMEIP_TP_HEADER_POS_MAX)"

definition length_field_of :: "bytes \<Rightarrow> u32" where
  "length_field_of data =
     BYTES_TO_LONG (data ! VSOMEIP_LENGTH_POS_MIN) (data ! (VSOMEIP_LENGTH_POS_MIN + 1))
       (data ! (VSOMEIP_LENGTH_POS_MIN + 2)) (data ! (VSOMEIP_LENGTH_POS_MIN + 3))"

definition check_lengths :: "tp_message \<Rightarrow> bytes \<Rightarrow> u32 \<Rightarrow> u32 \<Rightarrow> bool \<Rightarrow> bool" where
  "check_lengths m data data_length segment_size more_fragments =
     (let its_length = length_field_of data; its_tp_header = tp_header_of data in
      if \<not> tp_flag_is_set (data ! VSOMEIP_MESSAGE_TYPE_POS) then False
      else if data_length \<noteq> its_length + of_nat VSOMEIP_SOMEIP_HEADER_SIZE then False
      else if segment_size \<noteq> its_length - of_nat VSOMEIP_TP_HEADER_SIZE
                - (of_nat VSOMEIP_FULL_HEADER_SIZE - of_nat VSOMEIP_SOMEIP_HEADER_SIZE) then False
      else if segment_size > of_nat tp_max_segment_length then False
      else if more_fragments \<and> segment_size mod 16 > 0 then False
      else if tpm_current_message_size m + segment_size > tpm_max_message_size m then False
      else if get_offset its_tp_header + segment_size > tpm_max_message_size m then False
      else True)"

definition too_short :: "u32 \<Rightarrow> bool" where
  "too_short data_length \<longleftrightarrow>
     data_length < of_nat VSOMEIP_FULL_HEADER_SIZE + of_nat VSOMEIP_TP_HEADER_SIZE"

definition segment_size_of :: "u32 \<Rightarrow> u32" where
  "segment_size_of data_length =
     data_length - of_nat VSOMEIP_FULL_HEADER_SIZE - of_nat VSOMEIP_TP_HEADER_SIZE"

text \<open>The payload of a segment, \<open>&_data[VSOMEIP_TP_PAYLOAD_POS]\<close> up to the end of the datagram.\<close>

definition tp_payload :: "bytes \<Rightarrow> bytes" where
  "tp_payload data = drop VSOMEIP_TP_PAYLOAD_POS data"

definition new_tp_message :: "int \<Rightarrow> bytes \<Rightarrow> u32 \<Rightarrow> tp_message" where
  "new_tp_message now data max_message_size =
     (let data_length = of_nat (length data);
          m = \<lparr>tpm_creation = now, tpm_max_message_size = max_message_size,
               tpm_current_message_size = 0, tpm_last_segment_received = False,
               tpm_segments = [], tpm_message = []\<rparr>
      in if too_short data_length then m
      else let msg = take VSOMEIP_FULL_HEADER_SIZE data;
               msg = msg[VSOMEIP_MESSAGE_TYPE_POS := tp_flag_unset (msg ! VSOMEIP_MESSAGE_TYPE_POS)];
               its_segment_size = segment_size_of data_length;
               its_tp_header = tp_header_of data
           in if check_lengths m data data_length its_segment_size (more_segments its_tp_header)
              then let its_offset = get_offset its_tp_header;
                       msg1 = (if its_offset \<noteq> 0
                               then vec_resize (unat (of_nat VSOMEIP_FULL_HEADER_SIZE + its_offset)) 0 msg
                               else msg)
                   in m\<lparr>tpm_segments := [segment its_offset (its_offset + its_segment_size - 1)],
                        tpm_last_segment_received :=
                          (its_offset \<noteq> 0 \<and> \<not> more_segments its_tp_header),
                        tpm_message := msg1 @ take (unat its_segment_size) (tp_payload data),
                        tpm_current_message_size :=
                          of_nat VSOMEIP_FULL_HEADER_SIZE + its_segment_size\<rparr>
              else m\<lparr>tpm_message := msg\<rparr>)"

section \<open>Adding a segment\<close>

text \<open>
  \<open>copy_in at from count msg payload\<close>: \<open>memcpy(&msg[at], payload + from, count)\<close>, \<open>Undefined\<close> when it reads
  beyond the payload or writes beyond the message.
\<close>

definition copy_in :: "u32 \<Rightarrow> u32 \<Rightarrow> u32 \<Rightarrow> bytes \<Rightarrow> bytes \<Rightarrow> bytes result" where
  "copy_in at from count msg payload =
     (if unat from + unat count \<le> length payload
      then (case vec_write (unat at) (take (unat count) (drop (unat from) payload)) msg of
              Some msg' \<Rightarrow> Ok msg' | None \<Rightarrow> Undefined)
      else Undefined)"

text \<open>
  The placement of a new range between its neighbours. The result is the new buffer, the new set of
  ranges and the amount by which \<open>current_message_size_\<close> grows. \<open>before\<close> and \<open>behind\<close> are the
  neighbours in the set; \<open>hdr\<close> is \<open>VSOMEIP_FULL_HEADER_SIZE\<close>.
\<close>

definition append_segment ::
  "bytes \<Rightarrow> segment_t list \<Rightarrow> segment_t \<Rightarrow> u32 \<Rightarrow> bytes \<Rightarrow> (bytes \<times> segment_t list \<times> u32) result" where
  "append_segment msg before cur its_segment_size payload =
     (let hdr = of_nat VSOMEIP_FULL_HEADER_SIZE; its_offset = seg_start cur in
      if before = []
      then (let msg1 = (if its_offset \<noteq> 0 then vec_resize (unat (hdr + its_offset)) 0 msg else msg)
            in Ok (msg1 @ payload, [cur], its_segment_size))
      else let prev = last before in
        if seg_end prev < seg_start cur
        then (let direct_previous_segment_present = (seg_end prev + 1 = seg_start cur);
                  msg1 = (if \<not> direct_previous_segment_present
                          then vec_resize (unat (hdr + its_offset)) 0 msg else msg)
              in Ok (msg1 @ payload, before @ [cur], its_segment_size))
        else let skipped = (seg_end prev + 1) - seg_start cur in
          if unat skipped \<le> length payload
          then (case re_emplace (segment (seg_end prev + 1) (seg_end cur)) before of
                  Ok segs \<Rightarrow> Ok (msg @ drop (unat skipped) payload, segs, seg_end cur - seg_end prev)
                | _ \<Rightarrow> Undefined)
          else Undefined)"

definition insert_segment ::
  "bytes \<Rightarrow> segment_t list \<Rightarrow> segment_t \<Rightarrow> segment_t list \<Rightarrow> u32 \<Rightarrow> bytes
     \<Rightarrow> (bytes \<times> segment_t list \<times> u32) result" where
  "insert_segment msg before cur behind its_segment_size payload =
     (let hdr = of_nat VSOMEIP_FULL_HEADER_SIZE; its_offset = seg_start cur;
          prev = last before; next = hd behind in
      if (before \<noteq> [] \<and> seg_end prev < seg_start cur) \<or> before = []
      then (if seg_end cur < seg_start next
            then (case copy_in (hdr + its_offset) 0 its_segment_size msg payload of
                    Ok msg' \<Rightarrow> Ok (msg', before @ cur # behind, its_segment_size)
                  | _ \<Rightarrow> Undefined)
            else (case copy_in (hdr + its_offset) 0 (seg_start next - its_offset) msg payload of
                    Ok msg' \<Rightarrow>
                      (case re_emplace (segment (seg_start cur) (seg_start next - 1)) (before @ behind) of
                         Ok segs \<Rightarrow> Ok (msg', segs, seg_start next - seg_start cur)
                       | _ \<Rightarrow> Undefined)
                  | _ \<Rightarrow> Undefined))
      else let its_corrected_offset = seg_end prev + 1 in
        case copy_in (hdr + its_corrected_offset) (its_corrected_offset - its_offset)
               (seg_start next - its_corrected_offset) msg payload of
          Ok msg' \<Rightarrow>
            (if seg_end cur < seg_start next
             then (case re_emplace (segment (seg_end prev + 1) (seg_end cur)) (before @ behind) of
                     Ok segs \<Rightarrow> Ok (msg', segs, seg_end cur - seg_end prev)
                   | _ \<Rightarrow> Undefined)
             else (case re_emplace (segment (seg_end prev + 1) (seg_start next - 1)) (before @ behind) of
                     Ok segs \<Rightarrow> Ok (msg', segs, seg_start next - (seg_end prev + 1))
                   | _ \<Rightarrow> Undefined))
        | _ \<Rightarrow> Undefined)"

text \<open>The loop over \<open>segments_\<close> that checks that they follow each other without a gap.\<close>

fun segments_complete :: "u32 \<Rightarrow> segment_t list \<Rightarrow> bool" where
  "segments_complete last_end [] = True"
| "segments_complete last_end (seg # segs) =
     (if last_end + 1 \<noteq> seg_start seg then False else segments_complete (seg_end seg) segs)"

text \<open>
  The end of \<open>add_segment\<close>: note the last segment and, when every byte is there, patch the length
  field and the return code of the message.
\<close>

definition finish_segment :: "bytes \<Rightarrow> (tp_message, bool) action" where
  "finish_segment data m =
     (let its_tp_header = tp_header_of data;
          m1 = (if \<not> more_segments its_tp_header then m\<lparr>tpm_last_segment_received := True\<rparr> else m)
      in if tpm_last_segment_received m1
         then (if segments_complete 0xFFFFFFFF (tpm_segments m1)
               then (if length (tpm_message m1) < VSOMEIP_FULL_HEADER_SIZE then (Undefined, m1)
                     else let its_length = of_nat (length (tpm_message m1) - VSOMEIP_SOMEIP_HEADER_SIZE);
                              msg = put_length its_length (tpm_message m1);
                              msg = msg[VSOMEIP_RETURN_CODE_POS := data ! VSOMEIP_RETURN_CODE_POS]
                          in (Ok True, m1\<lparr>tpm_message := msg\<rparr>))
               else (Ok False, m1))
         else (Ok False, m1))"

definition add_segment :: "bytes \<Rightarrow> (tp_message, bool) action" where
  "add_segment data m =
     (let data_length = of_nat (length data) in
      if too_short data_length then (Ok False, m)
      else let its_segment_size = segment_size_of data_length;
               its_tp_header = tp_header_of data
        in if check_lengths m data data_length its_segment_size (more_segments its_tp_header)
           then let its_offset = get_offset its_tp_header;
                    cur = segment its_offset (its_offset + its_segment_size - 1);
                    payload = take (unat its_segment_size) (tp_payload data)
             in case emplace cur (tpm_segments m) of
                  Refused \<Rightarrow> (Ok False, m)
                | Undefined \<Rightarrow> (Undefined, m)
                | Ok (before, behind) \<Rightarrow>
                    (case (if behind = []
                           then append_segment (tpm_message m) before cur its_segment_size payload
                           else insert_segment (tpm_message m) before cur behind its_segment_size payload) of
                       Ok (msg, segs, growth) \<Rightarrow>
                         finish_segment data
                           (m\<lparr>tpm_message := msg, tpm_segments := segs,
                              tpm_current_message_size := tpm_current_message_size m + growth\<rparr>)
                     | _ \<Rightarrow> (Undefined, m))
           else (Ok False, m))"

text \<open>\<open>get_message\<close> moves the buffer out.\<close>

definition tpm_get_message :: "tp_message \<Rightarrow> bytes \<times> tp_message" where
  "tpm_get_message m = (tpm_message m, m\<lparr>tpm_message := []\<rparr>)"

end
