(* ===== verification/Tp_Stream.thy ===== *)
theory Tp_Stream
  imports Tp_Message
begin

text \<open>
  Segmentation and reassembly put together. \<open>receive\<close> is what happens to the datagrams of one message:
  the first one creates the \<open>tp_message\<close>, every further one is added to it until one of them completes
  the message. The locale \<open>tp_sender\<close> states what the receiver expects of the segments of a message;
  inside it the receiver is proved to deliver exactly the original message, whatever the order of
  arrival and however often a segment is repeated. The interpretation shows that
  \<open>tp::tp_split_message\<close> meets the contract.
\<close>

fun add_segments :: "bytes list \<Rightarrow> (tp_message, bytes option) action" where
  "add_segments [] m = (Ok None, m)"
| "add_segments (d # ds) m =
     (case add_segment d m of
        (Ok True, m') \<Rightarrow> (Ok (Some (fst (tpm_get_message m'))), snd (tpm_get_message m'))
      | (Ok False, m') \<Rightarrow> add_segments ds m'
      | (Refused, m') \<Rightarrow> (Refused, m')
      | (Undefined, m') \<Rightarrow> (Undefined, m'))"

fun receive :: "int \<Rightarrow> u32 \<Rightarrow> bytes list \<Rightarrow> bytes option result" where
  "receive now max_message_size [] = Ok None"
| "receive now max_message_size (d # ds) = fst (add_segments ds (new_tp_message now d max_message_size))"

section \<open>Words that hold small numbers\<close>

lemma u32_less_iff: "a < 2 ^ 32 \<Longrightarrow> b < 2 ^ 32 \<Longrightarrow> (of_nat a :: u32) < of_nat b \<longleftrightarrow> a < b"
  by (simp add: word_less_nat_alt unat_u32)

lemma u32_le_iff: "a < 2 ^ 32 \<Longrightarrow> b < 2 ^ 32 \<Longrightarrow> (of_nat a :: u32) \<le> of_nat b \<longleftrightarrow> a \<le> b"
  by (simp add: word_le_nat_alt unat_u32)

lemma u32_eq_iff: "a < 2 ^ 32 \<Longrightarrow> b < 2 ^ 32 \<Longrightarrow> (of_nat a :: u32) = of_nat b \<longleftrightarrow> a = b"
  by (metis unat_u32)

lemma u32_diff: "b \<le> a \<Longrightarrow> (of_nat a - of_nat b :: u32) = of_nat (a - b)"
  by simp

section \<open>Insertion into a sorted list\<close>

text \<open>The elements below, the new element, the elements above: what \<open>emplace\<close> computes on indices.\<close>

definition ins :: "nat \<Rightarrow> nat list \<Rightarrow> nat list" where
  "ins i xs = filter (\<lambda>j. j < i) xs @ i # filter (\<lambda>j. i < j) xs"

lemma ins_props:
  assumes "sorted xs" "distinct xs" "i \<notin> set xs"
  shows "sorted (ins i xs)" "distinct (ins i xs)" "set (ins i xs) = insert i (set xs)" "ins i xs \<noteq> []"
  using assms by (auto simp: ins_def sorted_append sorted_filter [of "\<lambda>x. x", simplified] not_less_iff_gr_or_eq)

lemma sum_list_ins:
  "distinct xs \<Longrightarrow> i \<notin> set xs \<Longrightarrow> sorted xs \<Longrightarrow> (\<Sum>j\<leftarrow>ins i xs. f j) = f i + (\<Sum>j\<leftarrow>xs. f j :: nat)"
  using ins_props [of xs i] by (simp add: sum_list_distinct_conv_sum_set)

lemma last_filter_above:
  "sorted xs \<Longrightarrow> filter (\<lambda>j. (i::nat) < j) xs \<noteq> [] \<Longrightarrow> last (filter (\<lambda>j. i < j) xs) = last xs"
proof (induction xs rule: rev_induct)
  case (snoc x xs)
  then show ?case by (cases "i < x") (auto simp: sorted_append filter_empty_conv)
qed simp

lemma last_ins:
  assumes "sorted xs"
  shows "last (ins i xs) = (if filter (\<lambda>j. i < j) xs = [] then i else last xs)"
  using last_filter_above [OF assms] by (simp add: ins_def)

lemma all_below:
  fixes i :: nat
  assumes "filter (\<lambda>j. i < j) xs = []" "i \<notin> set xs"
  shows "filter (\<lambda>j. j < i) xs = xs" "\<And>j. j \<in> set xs \<Longrightarrow> j < i"
  using assms by (auto simp: filter_empty_conv filter_id_conv) (metis nat_neq_iff)+

lemma sorted_distinct_upt: "sorted xs \<Longrightarrow> distinct xs \<Longrightarrow> set xs = {..<n} \<Longrightarrow> xs = [0..<n]"
  by (metis lessThan_atLeast0 sorted_list_of_set_range sorted_list_of_set.idem_if_sorted_distinct)

lemma ins_complete_iff:
  assumes "sorted xs" "distinct xs" "i \<notin> set xs" "insert i (set xs) \<subseteq> {..<n}"
  shows "n - 1 \<in> insert i (set xs) \<and> ins i xs = [0..<length (ins i xs)] \<longleftrightarrow> insert i (set xs) = {..<n}"
proof
  note ins = ins_props [OF assms(1-3)]
  {
    assume h: "n - 1 \<in> insert i (set xs) \<and> ins i xs = [0..<length (ins i xs)]"
    then have s: "insert i (set xs) = {..<length (ins i xs)}" using ins(3) by (metis atLeast_upt lessThan_atLeast0)
    then have "n \<le> length (ins i xs)" using h by (cases n) auto
    with s assms(4) show "insert i (set xs) = {..<n}" by auto
  next
    assume h: "insert i (set xs) = {..<n}"
    then have "ins i xs = [0..<n]" by (intro sorted_distinct_upt ins(1,2)) (simp only: ins(3))
    moreover have "i \<in> {..<n}" using h by blast
    then have "n - 1 \<in> insert i (set xs)" unfolding h by simp
    ultimately show "n - 1 \<in> insert i (set xs) \<and> ins i xs = [0..<length (ins i xs)]" by simp
  }
qed

section \<open>The length field\<close>

lemma put_length_nth:
  assumes "16 \<le> length msg" "k < length msg"
  shows "put_length v msg ! k = (if k \<in> {4..<8} then be32 v ! (k - 4) else msg ! k)"
  using assms by (auto simp: put_length_def VSOMEIP_LENGTH_POS_MIN_def nth_append min_def)

lemma length_put_length: "16 \<le> length msg \<Longrightarrow> length (put_length v msg) = length msg"
  by (simp add: put_length_def VSOMEIP_LENGTH_POS_MIN_def)

section \<open>What a receiver expects of a sender\<close>

lemma minus_one_u32: "(- 1 :: u32) = 0xFFFFFFFF"
  by simp

locale tp_sender =
  fixes ok :: "bytes \<Rightarrow> bool"                 \<comment> \<open>the messages that are segmented\<close>
    and cnt :: "bytes \<Rightarrow> nat"                 \<comment> \<open>the number of segments\<close>
    and off :: "bytes \<Rightarrow> nat \<Rightarrow> nat"          \<comment> \<open>the offset of a segment in the payload\<close>
    and seg :: "bytes \<Rightarrow> nat \<Rightarrow> bytes"        \<comment> \<open>the datagram of a segment\<close>
  assumes ok_length: "ok data \<Longrightarrow> 16 \<le> length data \<and> length data < 2 ^ 32"
    and ok_flag: "ok data \<Longrightarrow> \<not> tp_flag_is_set (data ! 14)"
    and cnt_ge: "ok data \<Longrightarrow> 2 \<le> cnt data"
    and off_0: "ok data \<Longrightarrow> off data 0 = 0"
    and off_Suc: "ok data \<Longrightarrow> i < cnt data \<Longrightarrow> off data i < off data (Suc i)"
    and off_cnt: "ok data \<Longrightarrow> off data (cnt data) = length data - 16"
    and size_max: "ok data \<Longrightarrow> i < cnt data \<Longrightarrow> off data (Suc i) - off data i \<le> 1392"
    and size_16: "ok data \<Longrightarrow> Suc i < cnt data \<Longrightarrow> 16 dvd off data (Suc i) - off data i"
    and seg_length: "ok data \<Longrightarrow> i < cnt data \<Longrightarrow> length (seg data i) = 20 + (off data (Suc i) - off data i)"
    and seg_offset: "ok data \<Longrightarrow> i < cnt data \<Longrightarrow> get_offset (tp_header_of (seg data i)) = of_nat (off data i)"
    and seg_more: "ok data \<Longrightarrow> i < cnt data \<Longrightarrow> more_segments (tp_header_of (seg data i)) \<longleftrightarrow> Suc i < cnt data"
    and seg_length_field: "ok data \<Longrightarrow> i < cnt data \<Longrightarrow>
          length_field_of (seg data i) = of_nat (length (seg data i) - 8)"
    and seg_flag: "ok data \<Longrightarrow> i < cnt data \<Longrightarrow>
          tp_flag_is_set (seg data i ! 14) \<and> tp_flag_unset (seg data i ! 14) = data ! 14"
    and seg_header: "ok data \<Longrightarrow> i < cnt data \<Longrightarrow> k < 16 \<Longrightarrow> k \<notin> {4..<8} \<Longrightarrow> k \<noteq> 14 \<Longrightarrow>
          seg data i ! k = data ! k"
    and seg_payload: "ok data \<Longrightarrow> i < cnt data \<Longrightarrow>
          drop 20 (seg data i) = take (off data (Suc i) - off data i) (drop (16 + off data i) data)"
begin

lemma off_mono: "ok data \<Longrightarrow> i < j \<Longrightarrow> j \<le> cnt data \<Longrightarrow> off data i < off data j"
proof (induction j)
  case (Suc j)
  then show ?case using off_Suc [of data j] by (cases "i = j") auto
qed simp

lemma off_le: "ok data \<Longrightarrow> i \<le> j \<Longrightarrow> j \<le> cnt data \<Longrightarrow> off data i \<le> off data j"
  using off_mono [of data i j] by (cases "i = j") auto

lemma off_bound: "ok data \<Longrightarrow> i \<le> cnt data \<Longrightarrow> off data i \<le> length data - 16"
  using off_le [of data i "cnt data"] off_cnt [of data] by simp

lemma off_u32: "ok data \<Longrightarrow> i \<le> cnt data \<Longrightarrow> 16 + off data i < 2 ^ 32"
  using off_bound [of data i] ok_length [of data] by simp linarith

lemma off_less_iff: "ok data \<Longrightarrow> i \<le> cnt data \<Longrightarrow> j \<le> cnt data \<Longrightarrow> off data i < off data j \<longleftrightarrow> i < j"
  using off_mono [of data i j] off_le [of data j i] by (meson leD not_less)

lemma off_eq_iff: "ok data \<Longrightarrow> i \<le> cnt data \<Longrightarrow> j \<le> cnt data \<Longrightarrow> off data i = off data j \<longleftrightarrow> i = j"
  using off_less_iff [of data i j] off_less_iff [of data j i] by (metis nat_neq_iff)

text \<open>The range of a segment, and its place in the order of the set.\<close>

definition rng :: "bytes \<Rightarrow> nat \<Rightarrow> segment_t" where
  "rng data i = segment (of_nat (off data i)) (of_nat (off data (Suc i)) - 1)"

lemma unat_rng:
  assumes "ok data" "i < cnt data"
  shows "unat (seg_start (rng data i)) = off data i" "unat (seg_end (rng data i)) = off data (Suc i) - 1"
proof -
  have b: "off data i < 2 ^ 32" "off data (Suc i) - 1 < 2 ^ 32"
    using off_u32 [OF assms(1), of i] off_u32 [OF assms(1), of "Suc i"] assms(2) by simp_all
  have e: "(of_nat (off data (Suc i)) - 1 :: u32) = of_nat (off data (Suc i) - 1)"
    using off_Suc [OF assms] by simp
  show "unat (seg_start (rng data i)) = off data i" using b by (simp add: rng_def unat_u32)
  show "unat (seg_end (rng data i)) = off data (Suc i) - 1"
    unfolding rng_def segment_sel e by (rule unat_u32) (rule b)
qed

lemma rng_lt_iff:
  assumes "ok data" "i < cnt data" "j < cnt data"
  shows "segment_lt (rng data i) (rng data j) \<longleftrightarrow> i < j"
  using assms off_less_iff [OF assms(1), of i j] off_less_iff [OF assms(1), of "Suc i" "Suc j"]
    off_Suc [OF assms(1,2)] off_Suc [OF assms(1,3)]
  by (auto simp: segment_lt_def word_less_nat_alt word_le_nat_alt unat_rng)

lemma end_before_start:
  assumes "ok data" "i < j" "j < cnt data"
  shows "seg_end (rng data i) < seg_start (rng data j)"
    and "seg_end (rng data i) + 1 = seg_start (rng data j) \<longleftrightarrow> Suc i = j"
proof -
  have le: "off data (Suc i) \<le> off data j" using off_le [OF assms(1), of "Suc i" j] assms by simp
  show "seg_end (rng data i) < seg_start (rng data j)"
    using assms le off_Suc [of data i] by (simp add: word_less_nat_alt unat_rng)
  show "seg_end (rng data i) + 1 = seg_start (rng data j) \<longleftrightarrow> Suc i = j"
    using assms off_eq_iff [OF assms(1), of "Suc i" j] off_u32 [OF assms(1), of j]
      off_u32 [OF assms(1), of "Suc i"]
    by (simp add: rng_def u32_eq_iff)
qed

lemma emplace_new:
  assumes "ok data" "i < cnt data" "set xs \<subseteq> {..<cnt data}" "sorted xs" "i \<notin> set xs"
  shows "emplace (rng data i) (map (rng data) xs)
    = Ok (map (rng data) (filter (\<lambda>j. j < i) xs), map (rng data) (filter (\<lambda>j. i < j) xs))"
proof -
  have lt: "segment_lt (rng data j) (rng data i) \<longleftrightarrow> j < i"
      "segment_lt (rng data i) (rng data j) \<longleftrightarrow> i < j" if "j \<in> set xs" for j
    using rng_lt_iff [OF assms(1), of j i] rng_lt_iff [OF assms(1), of i j] that assms(2,3) by auto
  note tw = sorted_split_at [OF assms(4,5)]
  have cong: "takeWhile (\<lambda>j. segment_lt (rng data j) (rng data i)) xs = takeWhile (\<lambda>j. j < i) xs"
       "dropWhile (\<lambda>j. segment_lt (rng data j) (rng data i)) xs = dropWhile (\<lambda>j. j < i) xs"
    using lt(1) by (auto cong: takeWhile_cong dropWhile_cong)
  have "\<not> list_ex (\<lambda>y. segment_lt (rng data i) y \<and> segment_lt y (rng data i)) (map (rng data) xs)"
    using lt by (auto simp: list_ex_iff)
  moreover have "\<not> list_ex (\<lambda>y. \<not> segment_lt (rng data i) y \<and> \<not> segment_lt y (rng data i)) (map (rng data) xs)"
    using lt assms(5) by (auto simp: list_ex_iff not_less_iff_gr_or_eq)
  ultimately show ?thesis
    by (simp add: emplace_def takeWhile_map dropWhile_map o_def cong tw)
qed

lemma emplace_known:
  assumes "ok data" "i < cnt data" "set xs \<subseteq> {..<cnt data}" "i \<in> set xs"
  shows "emplace (rng data i) (map (rng data) xs) = Refused"
proof -
  have lt: "segment_lt (rng data j) (rng data i) \<longleftrightarrow> j < i"
      "segment_lt (rng data i) (rng data j) \<longleftrightarrow> i < j" if "j \<in> set xs" for j
    using rng_lt_iff [OF assms(1), of j i] rng_lt_iff [OF assms(1), of i j] that assms(2,3) by auto
  have "\<not> list_ex (\<lambda>y. segment_lt (rng data i) y \<and> segment_lt y (rng data i)) (map (rng data) xs)"
    using lt by (auto simp: list_ex_iff)
  moreover have "list_ex (\<lambda>y. \<not> segment_lt (rng data i) y \<and> \<not> segment_lt y (rng data i)) (map (rng data) xs)"
    using lt assms(4) by (auto simp: list_ex_iff intro!: bexI [of _ i])
  ultimately show ?thesis by (simp add: emplace_def)
qed

text \<open>The completeness loop accepts exactly an initial run of segments.\<close>

lemma complete_iff:
  assumes "ok data" "set xs \<subseteq> {..<cnt data}" "k \<le> cnt data"
  shows "segments_complete (of_nat (off data k) - 1) (map (rng data) xs) \<longleftrightarrow> xs = [k..<k + length xs]"
  using assms(2,3)
proof (induction xs arbitrary: k)
  case (Cons x xs)
  have "of_nat (off data k) = (of_nat (off data x) :: u32) \<longleftrightarrow> k = x"
    using off_eq_iff [OF assms(1), of k x] off_u32 [OF assms(1), of k] off_u32 [OF assms(1), of x] Cons.prems
    by (simp add: u32_eq_iff)
  then have "segments_complete (of_nat (off data k) - 1) (map (rng data) (x # xs))
      \<longleftrightarrow> k = x \<and> segments_complete (of_nat (off data (Suc x)) - 1) (map (rng data) xs)"
    by (auto simp: rng_def)
  also have "\<dots> \<longleftrightarrow> k = x \<and> xs = [Suc x..<Suc x + length xs]"
    using Cons.IH [of "Suc x"] Cons.prems by simp
  also have "\<dots> \<longleftrightarrow> x # xs = [k..<k + length (x # xs)]"
    by (auto simp: upt_conv_Cons simp del: upt_Suc)
  finally show ?case .
qed simp

section \<open>The state of the receiver\<close>

definition sz :: "bytes \<Rightarrow> nat \<Rightarrow> nat" where
  "sz data i = off data (Suc i) - off data i"

lemma sz_pos: "ok data \<Longrightarrow> i < cnt data \<Longrightarrow> 0 < sz data i"
  using off_Suc [of data i] by (simp add: sz_def)

lemma off_plus_sz: "ok data \<Longrightarrow> i < cnt data \<Longrightarrow> off data i + sz data i = off data (Suc i)"
  using off_Suc [of data i] by (simp add: sz_def)

lemma sum_sz: "ok data \<Longrightarrow> n \<le> cnt data \<Longrightarrow> (\<Sum>j<n. sz data j) = off data n"
  by (induction n) (auto simp: off_0 off_plus_sz)

lemma sum_sz_subset:
  assumes "ok data" "distinct xs" "set xs \<subseteq> {..<cnt data}"
  shows "(\<Sum>j\<leftarrow>xs. sz data j) \<le> length data - 16"
proof -
  have "(\<Sum>j\<leftarrow>xs. sz data j) = (\<Sum>j\<in>set xs. sz data j)"
    using assms(2) by (simp add: sum_list_distinct_conv_sum_set)
  also have "\<dots> \<le> (\<Sum>j<cnt data. sz data j)"
    using assms(3) by (intro sum_mono2) auto
  finally show ?thesis using sum_sz [OF assms(1), of "cnt data"] off_cnt [OF assms(1)] by simp
qed

text \<open>The buffer holds the header, but for the length field, and the bytes of the segments in \<open>R\<close>.\<close>

definition buf_ok :: "bytes \<Rightarrow> nat set \<Rightarrow> bytes \<Rightarrow> bool" where
  "buf_ok data R msg \<longleftrightarrow>
     16 \<le> length msg \<and> (\<forall>k<16. k \<notin> {4..<8} \<longrightarrow> msg ! k = data ! k)
     \<and> (\<forall>i\<in>R. 16 + off data (Suc i) \<le> length msg
          \<and> (\<forall>p. off data i \<le> p \<longrightarrow> p < off data (Suc i) \<longrightarrow> msg ! (16 + p) = data ! (16 + p)))"

text \<open>\<open>xs\<close> are the segments received so far, in increasing order.\<close>

definition tp_inv :: "bytes \<Rightarrow> u32 \<Rightarrow> nat list \<Rightarrow> tp_message \<Rightarrow> bool" where
  "tp_inv data max_size xs m \<longleftrightarrow>
     sorted xs \<and> distinct xs \<and> xs \<noteq> [] \<and> set xs \<subseteq> {..<cnt data}
     \<and> tpm_segments m = map (rng data) xs
     \<and> tpm_max_message_size m = max_size
     \<and> (tpm_last_segment_received m \<longleftrightarrow> cnt data - 1 \<in> set xs)
     \<and> tpm_current_message_size m = of_nat (16 + (\<Sum>j\<leftarrow>xs. sz data j))
     \<and> length (tpm_message m) = 16 + off data (Suc (last xs))
     \<and> buf_ok data (set xs) (tpm_message m)"

lemma segment_size_seg:
  "ok data \<Longrightarrow> i < cnt data \<Longrightarrow> segment_size_of (of_nat (length (seg data i))) = of_nat (sz data i)"
  by (simp add: segment_size_of_def tp_consts seg_length sz_def [symmetric])

lemma not_too_short:
  assumes "ok data" "i < cnt data"
  shows "\<not> too_short (of_nat (length (seg data i)))"
proof -
  have "(of_nat (20 + sz data i) :: u32) \<ge> 20"
    using size_max [OF assms] by (simp add: word_le_nat_alt unat_u32 sz_def del: of_nat_add)
  then show ?thesis using assms by (simp add: too_short_def tp_consts seg_length sz_def [symmetric])
qed

lemma unat_sz: "ok data \<Longrightarrow> i < cnt data \<Longrightarrow> unat (of_nat (sz data i) :: u32) = sz data i"
  using size_max [of data i] by (intro unat_u32) (simp add: sz_def)

lemma payload_seg:
  assumes "ok data" "i < cnt data"
  shows "take (unat (of_nat (sz data i) :: u32)) (tp_payload (seg data i)) = take (sz data i) (drop (16 + off data i) data)"
    and "length (take (sz data i) (drop (16 + off data i) data)) = sz data i"
proof -
  show l: "length (take (sz data i) (drop (16 + off data i) data)) = sz data i"
    using off_bound [OF assms(1), of "Suc i"] off_plus_sz [OF assms] ok_length [OF assms(1)] assms(2)
    by simp
  show "take (unat (of_nat (sz data i) :: u32)) (tp_payload (seg data i)) = take (sz data i) (drop (16 + off data i) data)"
    unfolding unat_sz [OF assms] by (simp add: tp_payload_def tp_consts seg_payload [OF assms] sz_def)
qed

lemma check_lengths_seg:
  assumes "ok data" "i < cnt data" "length data \<le> unat max_size"
    and "tpm_max_message_size m = max_size" "tpm_current_message_size m = of_nat c"
    and "c + sz data i \<le> length data"
  shows "check_lengths m (seg data i) (of_nat (length (seg data i))) (of_nat (sz data i))
    (more_segments (tp_header_of (seg data i)))"
proof -
  have dl: "length data < 2 ^ 32" using ok_length assms(1) by simp
  have cur: "unat (tpm_current_message_size m + of_nat (sz data i)) = c + sz data i"
    using assms(5,6) dl unat_u32 [of "c + sz data i"] by simp
  have o: "unat (of_nat (off data i) + of_nat (sz data i) :: u32) = off data (Suc i)"
    using off_plus_sz [OF assms(1,2)] off_u32 [OF assms(1), of "Suc i"] assms(2) unat_u32 [of "off data (Suc i)"]
    by (simp flip: of_nat_add)
  have "off data (Suc i) \<le> length data" using off_bound [OF assms(1), of "Suc i"] assms(2) by simp
  then have d: "\<not> of_nat (off data i) + of_nat (sz data i) > max_size"
    and c: "\<not> tpm_current_message_size m + of_nat (sz data i) > max_size"
    using cur o assms(3,6) by (simp_all add: word_less_nat_alt)
  have a: "\<not> of_nat (sz data i) > (1392 :: u32)"
    using size_max [OF assms(1,2)] unat_sz [OF assms(1,2)] by (simp add: word_less_nat_alt sz_def)
  have "sz data i mod 16 = 0" if "Suc i < cnt data"
    using size_16 [OF assms(1) that] by (simp add: sz_def)
  then have b: "\<not> (Suc i < cnt data \<and> of_nat (sz data i) mod 16 > (0 :: u32))"
    using unat_sz [OF assms(1,2)] by (simp add: word_less_nat_alt unat_mod)
  show ?thesis
    using a b c d assms(4) seg_flag [OF assms(1,2)]
    by (simp add: check_lengths_def Let_def tp_consts seg_length_field [OF assms(1,2)]
        seg_length [OF assms(1,2)] seg_offset [OF assms(1,2)] seg_more [OF assms(1,2)]
        sz_def [symmetric])
qed

lemma cur_seg:
  assumes "ok data" "i < cnt data"
  shows "segment (of_nat (off data i)) (of_nat (off data i) + of_nat (sz data i) - 1) = rng data i"
  using off_plus_sz [OF assms] by (simp add: rng_def flip: of_nat_add)

abbreviation chunk :: "bytes \<Rightarrow> nat \<Rightarrow> bytes" where
  "chunk data i \<equiv> take (sz data i) (drop (16 + off data i) data)"

lemma nth_chunk:
  assumes "ok data" "i < cnt data" "off data i \<le> p" "p < off data (Suc i)"
  shows "chunk data i ! (p - off data i) = data ! (16 + p)"
  using assms off_bound [OF assms(1), of "Suc i"] ok_length [OF assms(1)] off_plus_sz [OF assms(1,2)]
  by (auto intro: arg_cong [where f = "\<lambda>k. data ! k"])

lemma buf_ok_append:
  assumes "ok data" "i < cnt data" "buf_ok data R msg" "length msg \<le> 16 + off data i"
  shows "buf_ok data (insert i R) (vec_resize (16 + off data i) 0 msg @ chunk data i)"
proof -
  let ?msg = "vec_resize (16 + off data i) 0 msg @ chunk data i"
  have len: "length ?msg = 16 + off data (Suc i)"
    using payload_seg(2) [OF assms(1,2)] off_plus_sz [OF assms(1,2)] by simp
  have old: "?msg ! k = msg ! k" if "k < length msg" for k
    using that assms(4) by (simp add: nth_append nth_vec_resize)
  have new: "?msg ! (16 + p) = data ! (16 + p)" if "off data i \<le> p" "p < off data (Suc i)" for p
    using that nth_chunk [OF assms(1,2) that] by (simp add: nth_append)
  show ?thesis
    using assms(3,4) old new len unfolding buf_ok_def by fastforce
qed

lemma buf_ok_write:
  assumes "ok data" "i < cnt data" "buf_ok data R msg" "16 + off data (Suc i) \<le> length msg"
    and "i \<notin> R" "R \<subseteq> {..<cnt data}"
  shows "\<exists>msg'. vec_write (16 + off data i) (chunk data i) msg = Some msg'
    \<and> length msg' = length msg \<and> buf_ok data (insert i R) msg'"
proof -
  have cl: "length (chunk data i) = sz data i" by (rule payload_seg) fact+
  obtain msg' where w: "vec_write (16 + off data i) (chunk data i) msg = Some msg'"
    using assms(4) off_plus_sz [OF assms(1,2)] cl by (simp add: vec_write_def)
  have len: "length msg' = length msg" by (rule length_vec_write) fact
  note nth = nth_vec_write [OF w, unfolded cl]
  have new: "msg' ! (16 + p) = data ! (16 + p)" if "off data i \<le> p" "p < off data (Suc i)" for p
    using that nth_chunk [OF assms(1,2) that] off_plus_sz [OF assms(1,2)] assms(4) by (simp add: nth)
  have old: "msg' ! (16 + p) = msg ! (16 + p)"
    if "j \<in> R" "off data j \<le> p" "p < off data (Suc j)" "16 + p < length msg" for j p
  proof -
    have j: "j < cnt data" "j \<noteq> i" using that(1) assms(5,6) by auto
    then have "off data (Suc j) \<le> off data i \<or> off data (Suc i) \<le> off data j"
      using off_le [OF assms(1), of "Suc j" i] off_le [OF assms(1), of "Suc i" j] assms(2) by linarith
    then show ?thesis using that off_plus_sz [OF assms(1,2)] by (auto simp: nth)
  qed
  have hdr: "msg' ! k = msg ! k" if "k < 16" for k using that assms(3) by (simp add: nth buf_ok_def)
  have "buf_ok data (insert i R) msg'"
    unfolding buf_ok_def len
  proof (intro conjI ballI allI impI)
    fix j p assume j: "j \<in> insert i R" and p: "off data j \<le> p" "p < off data (Suc j)"
    show "msg' ! (16 + p) = data ! (16 + p)"
    proof (cases "j = i")
      case False
      then have "16 + p < length msg" "msg ! (16 + p) = data ! (16 + p)"
        using j p assms(3) unfolding buf_ok_def by force+
      then show ?thesis using old [of j p] j p False by simp
    qed (use new p in simp)
  qed (use assms(3,4) hdr in \<open>auto simp: buf_ok_def\<close>)
  with w len show ?thesis by blast
qed

text \<open>A new segment is stored, behind everything received so far or in a gap.\<close>

lemma append_new:
  assumes "ok data" "i < cnt data" "tp_inv data max_size xs m" "i \<notin> set xs"
    and "filter (\<lambda>j. i < j) xs = []"
  shows "append_segment (tpm_message m) (map (rng data) xs) (rng data i) (of_nat (sz data i)) (chunk data i)
    = Ok (vec_resize (16 + off data i) 0 (tpm_message m) @ chunk data i, map (rng data) (xs @ [i]),
        of_nat (sz data i))"
proof -
  have xs: "xs \<noteq> []" and len: "length (tpm_message m) = 16 + off data (Suc (last xs))"
    using assms(3) by (simp_all add: tp_inv_def)
  then have lt: "last xs < i" using all_below [OF assms(5,4)] by simp
  note e = end_before_start [OF assms(1) lt assms(2)]
  have u: "unat (16 + seg_start (rng data i)) = 16 + off data i"
    using unat_u32 [OF off_u32 [OF assms(1), of i]] assms(2) by (simp add: rng_def)
  have "Suc (last xs) = i \<Longrightarrow> vec_resize (16 + off data i) 0 (tpm_message m) = tpm_message m"
    using len vec_resize_same [of "tpm_message m" 0] by simp
  then show ?thesis using xs e u
    by (simp add: append_segment_def Let_def last_map tp_consts)
qed

lemma insert_new:
  assumes "ok data" "i < cnt data" "tp_inv data max_size xs m" "i \<notin> set xs"
    and "filter (\<lambda>j. i < j) xs \<noteq> []"
  shows "\<exists>msg'. insert_segment (tpm_message m) (map (rng data) (filter (\<lambda>j. j < i) xs)) (rng data i)
      (map (rng data) (filter (\<lambda>j. i < j) xs)) (of_nat (sz data i)) (chunk data i)
    = Ok (msg', map (rng data) (ins i xs), of_nat (sz data i))
    \<and> length msg' = length (tpm_message m) \<and> buf_ok data (insert i (set xs)) msg'"
proof -
  have inv: "sorted xs" "set xs \<subseteq> {..<cnt data}" "buf_ok data (set xs) (tpm_message m)"
    "length (tpm_message m) = 16 + off data (Suc (last xs))"
    using assms(3) by (simp_all add: tp_inv_def)
  let ?n = "hd (filter (\<lambda>j. i < j) xs)"
  have "?n \<in> set (filter (\<lambda>j. i < j) xs)" using assms(5) by (rule hd_in_set)
  then have n: "i < ?n" "?n < cnt data" using inv(2) by auto
  have l: "last (filter (\<lambda>j. i < j) xs) \<in> set (filter (\<lambda>j. i < j) xs)" using assms(5) by (rule last_in_set)
  then have "i < last xs" "last xs < cnt data" using last_filter_above [OF inv(1) assms(5)] inv(2) by auto
  then have "16 + off data (Suc i) \<le> length (tpm_message m)"
    using inv(4) off_le [OF assms(1), of "Suc i" "Suc (last xs)"] by simp
  from buf_ok_write [OF assms(1,2) inv(3) this assms(4) inv(2)] obtain msg' where
    w: "vec_write (16 + off data i) (chunk data i) (tpm_message m) = Some msg'"
    and msg': "length msg' = length (tpm_message m)" "buf_ok data (insert i (set xs)) msg'" by blast
  have u: "unat (16 + seg_start (rng data i)) = 16 + off data i"
    using unat_u32 [OF off_u32 [OF assms(1), of i]] assms(2) by (simp add: rng_def)
  have c: "copy_in (16 + seg_start (rng data i)) 0 (of_nat (sz data i)) (tpm_message m) (chunk data i) = Ok msg'"
    using w payload_seg(2) [OF assms(1,2)] by (simp add: copy_in_def u unat_sz [OF assms(1,2)])
  have p: "seg_end (rng data (last (filter (\<lambda>j. j < i) xs))) < seg_start (rng data i)"
    if "filter (\<lambda>j. j < i) xs \<noteq> []"
    using last_in_set [OF that] by (intro end_before_start(1) [OF assms(1) _ assms(2)]) simp
  show ?thesis
    using c p end_before_start(1) [OF assms(1) n] msg' assms(5)
    by (auto simp: insert_segment_def Let_def tp_consts last_map hd_map ins_def)
qed

lemma place_new:
  assumes "ok data" "i < cnt data" "tp_inv data max_size xs m" "i \<notin> set xs"
  shows "\<exists>msg'. (if map (rng data) (filter (\<lambda>j. i < j) xs) = []
        then append_segment (tpm_message m) (map (rng data) (filter (\<lambda>j. j < i) xs)) (rng data i)
               (of_nat (sz data i)) (chunk data i)
        else insert_segment (tpm_message m) (map (rng data) (filter (\<lambda>j. j < i) xs)) (rng data i)
               (map (rng data) (filter (\<lambda>j. i < j) xs)) (of_nat (sz data i)) (chunk data i))
      = Ok (msg', map (rng data) (ins i xs), of_nat (sz data i))
    \<and> length msg' = 16 + off data (Suc (last (ins i xs))) \<and> buf_ok data (insert i (set xs)) msg'"
proof (cases "filter (\<lambda>j. i < j) xs = []")
  case True
  have inv: "sorted xs" "xs \<noteq> []" "buf_ok data (set xs) (tpm_message m)"
    "length (tpm_message m) = 16 + off data (Suc (last xs))"
    using assms(3) by (simp_all add: tp_inv_def)
  have "last xs < i" using all_below(2) [OF True assms(4)] inv(2) by simp
  then have "length (tpm_message m) \<le> 16 + off data i"
    using inv(4) off_le [OF assms(1), of "Suc (last xs)" i] assms(2) by simp
  from append_new [OF assms True] buf_ok_append [OF assms(1,2) inv(3) this] show ?thesis
    using True all_below(1) [OF True assms(4)] payload_seg(2) [OF assms(1,2)] off_plus_sz [OF assms(1,2)]
    by (simp add: ins_def)
next
  case False
  then show ?thesis using insert_new [OF assms False] assms(3) last_ins [of xs i]
    by (auto simp: tp_inv_def)
qed

section \<open>Reassembly\<close>

lemma tp_inv_new:
  assumes "ok data" "i < cnt data" "length data \<le> unat max_size"
  shows "tp_inv data max_size [i] (new_tp_message now (seg data i) max_size)"
proof -
  let ?s = "seg data i"
  let ?hdr = "(take 16 ?s)[14 := tp_flag_unset (?s ! 14)]"
  have ls: "length ?s = 20 + sz data i" using seg_length [OF assms(1,2)] by (simp add: sz_def)
  have hdr: "buf_ok data {} ?hdr"
    using seg_flag [OF assms(1,2)] seg_header [OF assms(1,2)] ls
    by (auto simp: buf_ok_def nth_list_update)
  have o0: "of_nat (off data i) = (0 :: u32) \<longleftrightarrow> off data i = 0"
    using off_u32 [OF assms(1), of i] assms(2) u32_eq_iff [of "off data i" 0] by simp
  have u: "unat (16 + of_nat (off data i) :: u32) = 16 + off data i"
    using unat_u32 [OF off_u32 [OF assms(1), of i]] assms(2) by simp
  have rs: "off data i = 0 \<Longrightarrow> vec_resize (16 + off data i) 0 ?hdr = ?hdr"
    using vec_resize_same [of ?hdr 0] ls by simp
  have last: "(off data i \<noteq> 0 \<and> \<not> Suc i < cnt data) \<longleftrightarrow> cnt data - 1 = i"
    using cnt_ge [OF assms(1)] assms(2) off_0 [OF assms(1)] off_mono [OF assms(1), of 0 i] by auto
  have chk: "check_lengths \<lparr>tpm_creation = now, tpm_max_message_size = max_size,
      tpm_current_message_size = 0, tpm_last_segment_received = False, tpm_segments = [], tpm_message = []\<rparr>
      ?s (of_nat (length ?s)) (of_nat (sz data i)) (more_segments (tp_header_of ?s))"
    by (rule check_lengths_seg [where c = 0, OF assms])
      (use off_plus_sz [OF assms(1,2)] off_bound [OF assms(1), of "Suc i"] assms(2) in simp_all)
  have eq: "new_tp_message now ?s max_size =
      \<lparr>tpm_creation = now, tpm_max_message_size = max_size,
       tpm_current_message_size = of_nat (16 + sz data i),
       tpm_last_segment_received = (cnt data - 1 = i),
       tpm_segments = [rng data i], tpm_message = vec_resize (16 + off data i) 0 ?hdr @ chunk data i\<rparr>"
    using chk not_too_short [OF assms(1,2)] rs last
    by (simp add: new_tp_message_def Let_def segment_size_seg [OF assms(1,2)] seg_offset [OF assms(1,2)]
        seg_more [OF assms(1,2)] cur_seg [OF assms(1,2)] payload_seg(1) [OF assms(1,2)] o0 u
        header_sizes VSOMEIP_MESSAGE_TYPE_POS_def)
  show ?thesis
    unfolding tp_inv_def eq
    using buf_ok_append [OF assms(1,2) hdr] ls payload_seg(2) [OF assms(1,2)] off_plus_sz [OF assms(1,2)] assms(2)
    by simp
qed

lemma off_cover:
  assumes "ok data"
  shows "k < off data n \<Longrightarrow> \<exists>i<n. off data i \<le> k \<and> k < off data (Suc i)"
proof (induction n)
  case (Suc n)
  then show ?case by (cases "k < off data n") (auto simp: less_Suc_eq)
qed (simp add: off_0 [OF assms])

text \<open>A buffer with every segment, its length field patched, is the original message.\<close>

lemma complete_message:
  assumes "ok data" "buf_ok data {..<cnt data} msg" "length msg = length data"
    and "length_field_of data = of_nat (length data - 8)"
  shows "(put_length (of_nat (length msg - 8)) msg)[15 := data ! 15] = data"
proof (rule nth_equalityI)
  have l: "16 \<le> length msg" using assms(2) by (simp add: buf_ok_def)
  show "length ((put_length (of_nat (length msg - 8)) msg)[15 := data ! 15]) = length data"
    using l assms(3) by (simp add: length_put_length)
  fix k assume "k < length ((put_length (of_nat (length msg - 8)) msg)[15 := data ! 15])"
  then have k: "k < length msg" using l by (simp add: length_put_length)
  have pay: "msg ! k = data ! k" if "16 \<le> k"
  proof -
    have "k - 16 < off data (cnt data)" using k that assms(3) off_cnt [OF assms(1)] by simp
    from off_cover [OF assms(1) this]
    obtain i where "i < cnt data" "off data i \<le> k - 16" "k - 16 < off data (Suc i)" by blast
    then have "msg ! (16 + (k - 16)) = data ! (16 + (k - 16))" using assms(2) unfolding buf_ok_def by blast
    then show ?thesis using that by simp
  qed
  have fld: "be32 (of_nat (length data - 8)) ! (k - 4) = data ! k" if "k \<in> {4..<8}"
  proof -
    have "k = 4 \<or> k = 5 \<or> k = 6 \<or> k = 7" using that by auto
    then show ?thesis
      unfolding assms(4) [symmetric] length_field_of_def be32_def by (auto simp: VSOMEIP_LENGTH_POS_MIN_def)
  qed
  show "(put_length (of_nat (length msg - 8)) msg)[15 := data ! 15] ! k = data ! k"
    using k l pay fld assms(2,3)
    by (cases "16 \<le> k") (auto simp: put_length_nth length_put_length nth_list_update buf_ok_def)
qed

lemma add_segment_known:
  assumes "ok data" "i < cnt data" "tp_inv data max_size xs m" "i \<in> set xs"
  shows "add_segment (seg data i) m = (Ok False, m)"
proof -
  have inv: "set xs \<subseteq> {..<cnt data}" "tpm_segments m = map (rng data) xs"
    using assms(3) by (simp_all add: tp_inv_def)
  show ?thesis
    using emplace_known [OF assms(1,2) inv(1) assms(4)]
    by (simp add: add_segment_def Let_def segment_size_seg [OF assms(1,2)] seg_offset [OF assms(1,2)]
        cur_seg [OF assms(1,2)] inv(2))
qed

text \<open>What \<open>add_segment\<close> does with a segment it has not seen.\<close>

lemma add_segment_new:
  assumes "ok data" "i < cnt data" "length data \<le> unat max_size"
    and inv: "tp_inv data max_size xs m" and i: "i \<notin> set xs"
  obtains m' where "add_segment (seg data i) m = finish_segment (seg data i) m'"
    and "tpm_segments m' = map (rng data) (ins i xs)" "tpm_max_message_size m' = max_size"
    and "tpm_last_segment_received m' \<longleftrightarrow> cnt data - 1 \<in> set xs"
    and "tpm_current_message_size m' = of_nat (16 + (\<Sum>j\<leftarrow>ins i xs. sz data j))"
    and "length (tpm_message m') = 16 + off data (Suc (last (ins i xs)))"
    and "buf_ok data (insert i (set xs)) (tpm_message m')"
proof -
  have xs: "sorted xs" "distinct xs" "set xs \<subseteq> {..<cnt data}" "tpm_segments m = map (rng data) xs"
    "tpm_max_message_size m = max_size" "tpm_last_segment_received m \<longleftrightarrow> cnt data - 1 \<in> set xs"
    and cur: "tpm_current_message_size m = of_nat (16 + (\<Sum>j\<leftarrow>xs. sz data j))"
    using inv by (simp_all add: tp_inv_def)
  have "(\<Sum>j\<leftarrow>i # xs. sz data j) \<le> length data - 16"
    by (rule sum_sz_subset [OF assms(1)]) (use xs i assms(2) in auto)
  then have "16 + (\<Sum>j\<leftarrow>xs. sz data j) + sz data i \<le> length data"
    using ok_length [OF assms(1)] unfolding list.map sum_list.Cons by linarith
  note chk = check_lengths_seg [OF assms(1-3) xs(5) cur this]
  obtain msg' where place: "(if map (rng data) (filter (\<lambda>j. i < j) xs) = []
        then append_segment (tpm_message m) (map (rng data) (filter (\<lambda>j. j < i) xs)) (rng data i)
               (of_nat (sz data i)) (chunk data i)
        else insert_segment (tpm_message m) (map (rng data) (filter (\<lambda>j. j < i) xs)) (rng data i)
               (map (rng data) (filter (\<lambda>j. i < j) xs)) (of_nat (sz data i)) (chunk data i))
      = Ok (msg', map (rng data) (ins i xs), of_nat (sz data i))"
    and msg': "length msg' = 16 + off data (Suc (last (ins i xs)))" "buf_ok data (insert i (set xs)) msg'"
    using place_new [OF assms(1,2) inv i] by blast
  let ?m = "m\<lparr>tpm_message := msg', tpm_segments := map (rng data) (ins i xs),
     tpm_current_message_size := tpm_current_message_size m + of_nat (sz data i)\<rparr>"
  have "add_segment (seg data i) m = finish_segment (seg data i) ?m"
    using chk not_too_short [OF assms(1,2)] emplace_new [OF assms(1,2) xs(3,1) i] place
    by (simp only: add_segment_def Let_def segment_size_seg [OF assms(1,2)] seg_offset [OF assms(1,2)]
        cur_seg [OF assms(1,2)] xs(4) payload_seg(1) [OF assms(1,2)] if_False if_True
        result.case prod.case)
  then show thesis
    by (rule that) (use xs msg' cur sum_list_ins [OF xs(2) i xs(1), of "sz data"] in simp_all)
qed

lemma add_segment_step:
  assumes "ok data" "i < cnt data" "length data \<le> unat max_size"
    and inv: "tp_inv data max_size xs m" and i: "i \<notin> set xs"
  shows "(insert i (set xs) \<noteq> {..<cnt data} \<longrightarrow>
      (\<exists>m'. add_segment (seg data i) m = (Ok False, m') \<and> tp_inv data max_size (ins i xs) m'))
    \<and> (insert i (set xs) = {..<cnt data} \<longrightarrow> length_field_of data = of_nat (length data - 8) \<longrightarrow>
      (\<exists>m'. add_segment (seg data i) m = (Ok True, m') \<and> tpm_message m' = data))"
proof -
  have xs: "sorted xs" "distinct xs" "set xs \<subseteq> {..<cnt data}" using inv by (simp_all add: tp_inv_def)
  note ins = ins_props [OF xs(1,2) i]
  obtain m' where m': "add_segment (seg data i) m = finish_segment (seg data i) m'"
    "tpm_segments m' = map (rng data) (ins i xs)" "tpm_max_message_size m' = max_size"
    "tpm_last_segment_received m' \<longleftrightarrow> cnt data - 1 \<in> set xs"
    "tpm_current_message_size m' = of_nat (16 + (\<Sum>j\<leftarrow>ins i xs. sz data j))"
    "length (tpm_message m') = 16 + off data (Suc (last (ins i xs)))"
    "buf_ok data (insert i (set xs)) (tpm_message m')"
    by (rule add_segment_new [OF assms])
  let ?l = "cnt data - 1 \<in> insert i (set xs)"
  let ?m = "m'\<lparr>tpm_last_segment_received := ?l\<rparr>"
  have m1: "(if \<not> more_segments (tp_header_of (seg data i))
      then m'\<lparr>tpm_last_segment_received := True\<rparr> else m') = ?m"
    using m'(4) assms(2) by (auto simp: seg_more [OF assms(1,2)])
  have sub: "set (ins i xs) \<subseteq> {..<cnt data}" using ins(3) xs(3) assms(2) by simp
  have "segments_complete 0xFFFFFFFF (map (rng data) (ins i xs)) \<longleftrightarrow> ins i xs = [0..<length (ins i xs)]"
    unfolding minus_one_u32 [symmetric] using complete_iff [OF assms(1) sub, of 0] off_0 [OF assms(1)] by simp
  moreover have "?l \<and> ins i xs = [0..<length (ins i xs)] \<longleftrightarrow> insert i (set xs) = {..<cnt data}"
    by (rule ins_complete_iff [OF xs(1,2) i]) (use xs(3) assms(2) in simp)
  ultimately have compl: "?l \<and> segments_complete 0xFFFFFFFF (tpm_segments ?m) \<longleftrightarrow> insert i (set xs) = {..<cnt data}"
    using m'(2) by simp
  have inv': "tp_inv data max_size (ins i xs) ?m"
    using m' ins sub by (simp add: tp_inv_def)
  have ge: "16 \<le> length (tpm_message m')" using m'(6) by simp
  have fin: "finish_segment (seg data i) m' =
      (if ?l \<and> segments_complete 0xFFFFFFFF (tpm_segments ?m)
       then (Ok True, ?m\<lparr>tpm_message := (put_length (of_nat (length (tpm_message m') - 8)) (tpm_message m'))
               [15 := seg data i ! 15]\<rparr>) else (Ok False, ?m))"
    using ge unfolding finish_segment_def Let_def m1
    by (simp add: header_sizes VSOMEIP_RETURN_CODE_POS_def)
  have "seg data i ! 15 = data ! 15" using seg_header [OF assms(1,2), of 15] by simp
  moreover have "length (tpm_message m') = length data" if "insert i (set xs) = {..<cnt data}"
  proof -
    have "ins i xs = [0..<cnt data]"
      by (rule sorted_distinct_upt [OF ins(1,2)]) (simp only: ins(3) that)
    then show ?thesis using m'(6) off_cnt [OF assms(1)] ok_length [OF assms(1)] assms(2) by simp
  qed
  ultimately have all: "(put_length (of_nat (length (tpm_message m') - 8)) (tpm_message m'))[15 := seg data i ! 15] = data"
    if "insert i (set xs) = {..<cnt data}" "length_field_of data = of_nat (length data - 8)"
    using complete_message [OF assms(1), of "tpm_message m'"] m'(7) that by simp
  show ?thesis
  proof (cases "insert i (set xs) = {..<cnt data}")
    case True
    then have "add_segment (seg data i) m = (Ok True, ?m\<lparr>tpm_message :=
        (put_length (of_nat (length (tpm_message m') - 8)) (tpm_message m'))[15 := seg data i ! 15]\<rparr>)"
      unfolding m'(1) fin compl by (rule if_P)
    with True all show ?thesis by simp
  next
    case False
    then have "add_segment (seg data i) m = (Ok False, ?m)"
      unfolding m'(1) fin compl by (rule if_not_P)
    with False inv' show ?thesis by blast
  qed
qed

text \<open>A run of arrivals, from a state in which the segments \<open>xs\<close> are there and at least one is missing.\<close>

lemma add_segments_run:
  assumes "ok data" "length data \<le> unat max_size" "length_field_of data = of_nat (length data - 8)"
  shows "tp_inv data max_size xs m \<Longrightarrow> set xs \<noteq> {..<cnt data} \<Longrightarrow> set js \<subseteq> {..<cnt data} \<Longrightarrow>
    fst (add_segments (map (seg data) js) m)
      = Ok (if set xs \<union> set js = {..<cnt data} then Some data else None)"
proof (induction js arbitrary: xs m)
  case (Cons i js)
  have i: "i < cnt data" using Cons.prems(3) by simp
  have xs: "sorted xs" "distinct xs" using Cons.prems(1) by (simp_all add: tp_inv_def)
  show ?case
  proof (cases "i \<in> set xs")
    case True
    then have "set xs \<union> set (i # js) = set xs \<union> set js" by auto
    with Cons.IH [OF Cons.prems(1,2)] Cons.prems(3)
    show ?thesis
      by (simp add: add_segment_known [OF assms(1) i Cons.prems(1) True])
  next
    case False
    note step = add_segment_step [OF assms(1) i assms(2) Cons.prems(1) False]
    have set: "set (ins i xs) = insert i (set xs)" by (rule ins_props(3) [OF xs False])
    have sub: "set xs \<subseteq> {..<cnt data}" using Cons.prems(1) by (simp add: tp_inv_def)
    show ?thesis
    proof (cases "insert i (set xs) = {..<cnt data}")
      case True
      then have "set xs \<union> set (i # js) = {..<cnt data}" using Cons.prems(3) sub by auto
      moreover obtain m' where "add_segment (seg data i) m = (Ok True, m')" "tpm_message m' = data"
        using step True assms(3) by blast
      ultimately show ?thesis by (simp add: tpm_get_message_def)
    next
      case incomplete: False
      then obtain m' where m': "add_segment (seg data i) m = (Ok False, m')" "tp_inv data max_size (ins i xs) m'"
        using step by blast
      have "set (ins i xs) \<union> set js = set xs \<union> set (i # js)" using set by auto
      with Cons.IH [OF m'(2)] incomplete Cons.prems(3) set show ?thesis by (simp add: m'(1))
    qed
  qed
qed simp

theorem receive_indices:
  assumes "ok data" "length data \<le> unat max_size" "length_field_of data = of_nat (length data - 8)"
    and "js \<noteq> []" "set js \<subseteq> {..<cnt data}"
  shows "receive now max_size (map (seg data) js) = Ok (if set js = {..<cnt data} then Some data else None)"
proof -
  obtain i ks where js: "js = i # ks" using assms(4) by (cases js) auto
  have "{..<cnt data} \<noteq> {i}"
  proof
    assume "{..<cnt data} = {i}"
    then have "card {..<cnt data} = card {i}" by (rule arg_cong)
    then show False using cnt_ge [OF assms(1)] by simp
  qed
  then show ?thesis
    using add_segments_run [OF assms(1-3) tp_inv_new [OF assms(1) _ assms(2), of i], where js = ks]
      assms(5) by (auto simp: js)
qed

end

end
