(* ===== verification/Tp_Transport.thy ===== *)
theory Tp_Transport
  imports Tp_Stream
begin

text \<open>
  \<open>tp::tp_split_message\<close> as a sender for \<open>tp::tp_message\<close>: the segments it produces, in closed form, meet
  the contract \<open>tp_sender\<close>. The theorems about segmentation and reassembly follow from the
  interpretation. The last section has the inputs for which the reassembly leaves its buffer.
\<close>

section \<open>The segments in closed form\<close>

text \<open>A message that is segmented: large enough, below 4 GiB, and not itself marked as a segment.\<close>

definition segmentable :: "bytes \<Rightarrow> bool" where
  "segmentable data \<longleftrightarrow> VSOMEIP_MAX_UDP_MESSAGE_SIZE \<le> length data \<and> length data < 2 ^ 32
     \<and> \<not> tp_flag_is_set (data ! VSOMEIP_MESSAGE_TYPE_POS)"

definition seg_count :: "bytes \<Rightarrow> nat" where
  "seg_count data = (length data - 16 + 1391) div 1392"

definition seg_off :: "bytes \<Rightarrow> nat \<Rightarrow> nat" where
  "seg_off data i = min (1392 * i) (length data - 16)"

definition seg_at :: "bytes \<Rightarrow> nat \<Rightarrow> bytes" where
  "seg_at data i = tp_segment data (16 + 1392 * i)"

lemma seg_count_iff: "16 \<le> length data \<Longrightarrow> i < seg_count data \<longleftrightarrow> 16 + 1392 * i < length data"
  by (auto simp: seg_count_def less_eq_div_iff_mult_less_eq Suc_le_eq [symmetric])

lemma seg_off_bounds:
  assumes "16 \<le> length data" "i < seg_count data"
  shows "seg_off data i = 1392 * i" "16 + seg_off data (Suc i) \<le> length data"
    "seg_off data i < seg_off data (Suc i)"
    "Suc i < seg_count data \<Longrightarrow> seg_off data (Suc i) = seg_off data i + 1392"
  using assms seg_count_iff [of data i] seg_count_iff [of data "Suc i"] by (auto simp: seg_off_def)

definition seg_body :: "bytes \<Rightarrow> nat \<Rightarrow> bytes" where
  "seg_body data i =
     (take 16 data)[14 := data ! 14 OR 0x20]
     @ be32 (of_nat (1392 * i) OR (if Suc i < seg_count data then 1 else 0))
     @ take (seg_off data (Suc i) - seg_off data i) (drop (16 + seg_off data i) data)"

lemma length_seg_body:
  assumes "16 \<le> length data" "i < seg_count data"
  shows "length (seg_body data i) = 20 + (seg_off data (Suc i) - seg_off data i)"
  using seg_off_bounds [OF assms] by (simp add: seg_body_def)

lemma seg_at_body:
  assumes "16 \<le> length data" "i < seg_count data"
  shows "seg_at data i = put_length (of_nat (length (seg_body data i) - 8)) (seg_body data i)"
proof -
  have last: "length data \<le> 16 + 1392 * i + 1392 \<longleftrightarrow> \<not> Suc i < seg_count data"
    using seg_count_iff [OF assms(1), of "Suc i"] by auto
  let ?b = "(take 16 data)[14 := take 16 data ! 14 OR 0x20]
     @ be32 (of_nat (16 + 1392 * i - 16) OR (if length data \<le> 16 + 1392 * i + 1392 then 0x0 else 0x1))
     @ (if length data \<le> 16 + 1392 * i + 1392 then drop (16 + 1392 * i) data
        else take (16 + 1392 * i + 1392 - (16 + 1392 * i)) (drop (16 + 1392 * i) data))"
  have "seg_at data i = put_length (of_nat (length ?b - 8)) ?b"
    by (simp only: seg_at_def tp_segment_def Let_def tp_consts append_assoc)
  moreover have "?b = seg_body data i"
    using seg_off_bounds [OF assms] unfolding last seg_body_def
    by (cases "Suc i < seg_count data") (use last in \<open>simp_all add: seg_off_def\<close>)
  ultimately show ?thesis by (simp only:)
qed

lemma length_seg_at:
  assumes "16 \<le> length data" "i < seg_count data"
  shows "length (seg_at data i) = 20 + (seg_off data (Suc i) - seg_off data i)"
  using length_seg_body [OF assms] by (simp add: seg_at_body [OF assms] length_put_length)

lemma seg_at_nth:
  assumes "16 \<le> length data" "i < seg_count data" "k < length (seg_at data i)" "k \<notin> {4..<8}"
  shows "seg_at data i ! k = seg_body data i ! k"
proof -
  have "16 \<le> length (seg_body data i)" "k < length (seg_body data i)"
    using assms(3) length_seg_at [OF assms(1,2)] length_seg_body [OF assms(1,2)] by simp_all
  then show ?thesis using assms(4) by (simp only: seg_at_body [OF assms(1,2)] put_length_nth if_False)
qed

lemma seg_at_tp_header:
  assumes "16 \<le> length data" "i < seg_count data"
  shows "tp_header_of (seg_at data i) = of_nat (1392 * i) OR (if Suc i < seg_count data then 1 else 0)"
proof -
  have "seg_at data i ! k = be32 (of_nat (1392 * i) OR (if Suc i < seg_count data then 1 else 0)) ! (k - 16)"
    if "k \<in> {16..<20}" for k
  proof -
    have "k - 16 < 4" "\<not> k < 16" using that by auto
    then show ?thesis using seg_at_nth [OF assms, of k] that length_seg_at [OF assms] assms(1)
      by (simp add: seg_body_def nth_append)
  qed
  then show ?thesis by (simp add: tp_header_of_def tp_consts be32_def)
qed

lemma length_field_put_length:
  "16 \<le> length msg \<Longrightarrow> length_field_of (put_length v msg) = v"
  by (simp add: length_field_of_def tp_consts put_length_nth be32_def)

lemma seg_at_fields:
  assumes "segmentable data" "i < seg_count data"
  shows "get_offset (tp_header_of (seg_at data i)) = of_nat (seg_off data i)"
    "more_segments (tp_header_of (seg_at data i)) \<longleftrightarrow> Suc i < seg_count data"
proof -
  have l: "16 \<le> length data" "length data < 2 ^ 32"
    using assms(1) by (simp_all add: segmentable_def tp_consts)
  have "unat (of_nat (1392 * i) :: u32) = 1392 * i"
    using seg_count_iff [OF l(1), of i] assms(2) l(2) by (intro unat_u32) simp
  then have "16 dvd unat (of_nat (1392 * i) :: u32)" by simp
  note header_fields [OF this, of "if Suc i < seg_count data then 1 else 0"]
  then show "get_offset (tp_header_of (seg_at data i)) = of_nat (seg_off data i)"
    "more_segments (tp_header_of (seg_at data i)) \<longleftrightarrow> Suc i < seg_count data"
    by (simp_all add: seg_at_tp_header [OF l(1) assms(2)] seg_off_bounds(1) [OF l(1) assms(2)])
qed

section \<open>The interpretation\<close>

interpretation split: tp_sender segmentable seg_count seg_off seg_at
proof
  fix data i k
  assume ok: "segmentable data"
  then have l: "16 \<le> length data" "length data < 2 ^ 32" and f: "\<not> tp_flag_is_set (data ! 14)"
    by (simp_all add: segmentable_def tp_consts)
  show "16 \<le> length data \<and> length data < 2 ^ 32" using l by blast
  show "\<not> tp_flag_is_set (data ! 14)" by (rule f)
  show "2 \<le> seg_count data" using ok seg_count_iff [OF l(1), of 1] by (simp add: segmentable_def tp_consts)
  show "seg_off data 0 = 0" by (simp add: seg_off_def)
  show "seg_off data (seg_count data) = length data - 16"
    using seg_count_iff [OF l(1), of "seg_count data"] by (simp add: seg_off_def)
  assume i: "i < seg_count data"
  note b = seg_off_bounds [OF l(1) i] and s = length_seg_at [OF l(1) i] and sb = length_seg_body [OF l(1) i]
  show "seg_off data i < seg_off data (Suc i)" by (rule b)
  show "seg_off data (Suc i) - seg_off data i \<le> 1392" by (simp add: seg_off_def)
  show "length (seg_at data i) = 20 + (seg_off data (Suc i) - seg_off data i)" by (rule s)
  show "get_offset (tp_header_of (seg_at data i)) = of_nat (seg_off data i)"
    "more_segments (tp_header_of (seg_at data i)) \<longleftrightarrow> Suc i < seg_count data"
    by (rule seg_at_fields [OF ok i])+
  show "length_field_of (seg_at data i) = of_nat (length (seg_at data i) - 8)"
    using sb by (simp only: seg_at_body [OF l(1) i] length_put_length length_field_put_length)
  show "tp_flag_is_set (seg_at data i ! 14) \<and> tp_flag_unset (seg_at data i ! 14) = data ! 14"
    using seg_at_nth [OF l(1) i, of 14] s l(1) f by (simp add: seg_body_def nth_append tp_flag_unset_set)
  show "seg_at data i ! k = data ! k" if "k < 16" "k \<notin> {4..<8}" "k \<noteq> 14"
    using seg_at_nth [OF l(1) i, of k] s l(1) that by (simp add: seg_body_def nth_append)
  show "drop 20 (seg_at data i) = take (seg_off data (Suc i) - seg_off data i) (drop (16 + seg_off data i) data)"
    using sb l(1) by (simp add: seg_at_body [OF l(1) i] put_length_def tp_consts seg_body_def)
next
  fix data i
  assume "segmentable data" "Suc i < seg_count data"
  then show "16 dvd seg_off data (Suc i) - seg_off data i"
    using seg_off_bounds(4) [of data i] by (simp add: segmentable_def tp_consts)
qed

section \<open>Segmentation\<close>

lemma tp_split_loop_segs:
  assumes "16 \<le> length data"
  shows "i \<le> seg_count data \<Longrightarrow>
    tp_split_loop data (16 + seg_off data i) = map (seg_at data) [i..<seg_count data]"
proof (induction "seg_count data - i" arbitrary: i)
  case 0
  then have "seg_off data i = length data - 16"
    using seg_count_iff [OF assms, of i] by (simp add: seg_off_def)
  then show ?case using 0 assms by (simp add: tp_split_loop.simps)
next
  case (Suc n)
  then have i: "i < seg_count data" by simp
  have "(if 16 + seg_off data i + tp_max_segment_length \<ge> length data then length data
         else 16 + seg_off data i + tp_max_segment_length) = 16 + seg_off data (Suc i)"
    using seg_off_bounds [OF assms i] assms by (auto simp: seg_off_def tp_consts)
  then have "tp_split_loop data (16 + seg_off data i) = seg_at data i # tp_split_loop data (16 + seg_off data (Suc i))"
    using seg_off_bounds [OF assms i] assms
    by (subst tp_split_loop.simps) (simp add: seg_at_def)
  moreover have "tp_split_loop data (16 + seg_off data (Suc i)) = map (seg_at data) [Suc i..<seg_count data]"
    by (rule Suc.hyps(1)) (use Suc.hyps(2) in simp_all)
  ultimately show ?case using i by (simp add: upt_conv_Cons)
qed

lemma tp_split_segs:
  "VSOMEIP_MAX_UDP_MESSAGE_SIZE \<le> length data \<Longrightarrow>
    tp_split_message data = map (seg_at data) [0..<seg_count data]"
  using tp_split_loop_segs [of data 0] by (simp add: tp_split_message_def tp_consts seg_off_def)

lemma concat_payloads:
  assumes "segmentable data"
  shows "n \<le> seg_count data \<Longrightarrow>
    concat (map (\<lambda>i. drop 20 (seg_at data i)) [0..<n]) = take (seg_off data n) (drop 16 data)"
proof (induction n)
  case (Suc n)
  then have n: "n < seg_count data" by simp
  have "seg_off data (Suc n) = seg_off data n + (seg_off data (Suc n) - seg_off data n)"
    using split.off_Suc [OF assms n] by simp
  then have "take (seg_off data (Suc n)) (drop 16 data) = take (seg_off data n) (drop 16 data)
      @ take (seg_off data (Suc n) - seg_off data n) (drop (16 + seg_off data n) data)"
    by (metis add.commute drop_drop take_add)
  then show ?case using Suc split.seg_payload [OF assms n] by simp
qed (simp add: seg_off_def)

lemma segmentable_sizes: "segmentable data \<Longrightarrow> VSOMEIP_MAX_UDP_MESSAGE_SIZE \<le> length data"
  by (simp add: segmentable_def)

lemma nth_tp_split:
  "segmentable data \<Longrightarrow> i < seg_count data \<Longrightarrow> tp_split_message data ! i = seg_at data i"
  by (simp add: tp_split_segs segmentable_sizes)

lemma length_tp_split: "segmentable data \<Longrightarrow> length (tp_split_message data) = seg_count data"
  by (simp add: tp_split_segs segmentable_sizes)

text \<open>
  [C14] \<open>tp_split_message\<close> cuts a message of at least 1416 bytes into datagrams of at most 1412 bytes whose
  payloads, put one behind the other, are the payload of the message. Every datagram has the TP flag,
  the header of the message, a length field that agrees with its size, its offset in the payload, and
  the \<open>more segments\<close> bit exactly when it is not the last one.
\<close>

theorem tp_split_message_correct:
  assumes "segmentable data"
  shows "concat (map tp_payload (tp_split_message data)) = drop VSOMEIP_FULL_HEADER_SIZE data
    \<and> (\<forall>i < length (tp_split_message data).
         let d = tp_split_message data ! i in
         length d \<le> 1412
         \<and> tp_flag_is_set (d ! 14) \<and> tp_flag_unset (d ! 14) = data ! 14
         \<and> (\<forall>k < 16. k \<notin> {4..<8} \<longrightarrow> k \<noteq> 14 \<longrightarrow> d ! k = data ! k)
         \<and> length_field_of d = of_nat (length d - 8)
         \<and> get_offset (tp_header_of d) = of_nat (1392 * i)
         \<and> (more_segments (tp_header_of d) \<longleftrightarrow> Suc i < length (tp_split_message data)))"
proof (intro conjI allI impI)
  have "map tp_payload (tp_split_message data) = map (\<lambda>i. drop 20 (seg_at data i)) [0..<seg_count data]"
    by (simp add: tp_split_segs [OF segmentable_sizes [OF assms]] tp_payload_def VSOMEIP_TP_PAYLOAD_POS_def)
  then show "concat (map tp_payload (tp_split_message data)) = drop VSOMEIP_FULL_HEADER_SIZE data"
    using concat_payloads [OF assms, of "seg_count data"] split.off_cnt [OF assms] by (simp add: tp_consts)
next
  fix i assume "i < length (tp_split_message data)"
  then have i: "i < seg_count data" by (simp add: length_tp_split assms)
  show "let d = tp_split_message data ! i in
         length d \<le> 1412
         \<and> tp_flag_is_set (d ! 14) \<and> tp_flag_unset (d ! 14) = data ! 14
         \<and> (\<forall>k < 16. k \<notin> {4..<8} \<longrightarrow> k \<noteq> 14 \<longrightarrow> d ! k = data ! k)
         \<and> length_field_of d = of_nat (length d - 8)
         \<and> get_offset (tp_header_of d) = of_nat (1392 * i)
         \<and> (more_segments (tp_header_of d) \<longleftrightarrow> Suc i < length (tp_split_message data))"
    unfolding Let_def nth_tp_split [OF assms i] length_tp_split [OF assms]
    using split.seg_length [OF assms i] split.size_max [OF assms i] split.seg_flag [OF assms i]
      split.seg_header [OF assms i] split.seg_length_field [OF assms i] split.seg_offset [OF assms i]
      split.seg_more [OF assms i] seg_off_bounds(1) [OF _ i] split.ok_length [OF assms] by simp
qed

text \<open>A message of 1416 bytes, the smallest one that is segmented.\<close>

definition sample_data :: bytes where
  "sample_data = [0x12, 0x34, 0x00, 0x01, 0x00, 0x00, 0x05, 0x80, 0x00, 0x01, 0x00, 0x02, 0x01, 0x01, 0x00, 0x00]
     @ replicate 1400 0xAB"

lemma sample_segmentable: "segmentable sample_data"
  unfolding segmentable_def sample_data_def tp_consts tp_flag_is_set_def by simp

lemma sample_length_field: "length_field_of sample_data = of_nat (length sample_data - 8)"
  unfolding length_field_of_def sample_data_def tp_consts by (simp add: BYTES_TO_LONG_def push_bit_eq_mult)

theorem tp_split_message_correct_witness:
  "segmentable sample_data
    \<and> concat (map tp_payload (tp_split_message sample_data)) = replicate 1400 0xAB"
  using tp_split_message_correct [OF sample_segmentable] sample_segmentable
  by (simp add: sample_data_def tp_consts)

section \<open>Reassembly\<close>

lemma seg_at_inj: "segmentable data \<Longrightarrow> inj_on (seg_at data) {..<seg_count data}"
proof (rule inj_onI)
  fix i j assume ok: "segmentable data" and "i \<in> {..<seg_count data}" "j \<in> {..<seg_count data}"
    and "seg_at data i = seg_at data j"
  then show "i = j"
    using split.seg_offset [OF ok, of i] split.seg_offset [OF ok, of j] split.off_u32 [OF ok, of i]
      split.off_u32 [OF ok, of j] u32_eq_iff [of "seg_off data i" "seg_off data j"] split.off_eq_iff [OF ok, of i j]
    by simp
qed

lemma receive_segments:
  assumes "segmentable data" "length data \<le> unat max_message_size"
    and "length_field_of data = of_nat (length data - VSOMEIP_SOMEIP_HEADER_SIZE)"
    and "arrivals \<noteq> []" "set arrivals \<subseteq> set (tp_split_message data)"
  shows "receive now max_message_size arrivals
    = Ok (if set arrivals = set (tp_split_message data) then Some data else None)"
proof -
  have set: "set (tp_split_message data) = seg_at data ` {..<seg_count data}"
    by (simp add: tp_split_segs segmentable_sizes assms(1) lessThan_atLeast0)
  then have "arrivals \<in> map (seg_at data) ` lists {..<seg_count data}"
    using assms(5) by (simp add: lists_image [symmetric] in_lists_conv_set subset_iff)
  then obtain js where js: "arrivals = map (seg_at data) js" "set js \<subseteq> {..<seg_count data}" by auto
  have "set arrivals = set (tp_split_message data) \<longleftrightarrow> set js = {..<seg_count data}"
    unfolding set js(1) set_map by (rule inj_on_image_eq_iff [OF seg_at_inj [OF assms(1)] js(2) order_refl])
  then show ?thesis
    using split.receive_indices [OF assms(1,2) _ _ js(2)] assms(3,4) js(1) by (simp add: header_sizes)
qed

text \<open>
  [C2] The receiver gets the original message back from its segments: datagrams of the message, in any
  order and with any repetitions, give the message exactly when every segment is among them, and
  nothing before that. The message has a correct length field and fits the limit of the receiver.
\<close>

theorem tp_any_order:
  assumes "segmentable data" "length data \<le> unat max_message_size"
    and "length_field_of data = of_nat (length data - VSOMEIP_SOMEIP_HEADER_SIZE)"
    and "arrivals \<noteq> []" "set arrivals \<subseteq> set (tp_split_message data)"
  shows "receive now max_message_size arrivals
    = Ok (if set arrivals = set (tp_split_message data) then Some data else None)"
  by (rule receive_segments [OF assms])

theorem tp_any_order_witness:
  "receive 0 0x20000 (rev (tp_split_message sample_data)) = Ok (Some sample_data)
    \<and> receive 0 0x20000 [tp_split_message sample_data ! 1] = Ok None"
proof
  have c: "seg_count sample_data = 2" by (simp add: seg_count_def sample_data_def)
  note s = sample_segmentable sample_length_field
  have split: "tp_split_message sample_data = [seg_at sample_data 0, seg_at sample_data 1]"
    by (simp add: tp_split_segs segmentable_sizes s c upt_conv_Cons)
  have l: "length sample_data \<le> unat (0x20000 :: u32)" by (simp add: sample_data_def)
  show "receive 0 0x20000 (rev (tp_split_message sample_data)) = Ok (Some sample_data)"
    by (subst tp_any_order [of sample_data]) (use s l in \<open>simp_all add: split header_sizes insert_commute\<close>)
  have "seg_at sample_data 0 \<noteq> seg_at sample_data 1"
    using inj_onD [OF seg_at_inj [OF s(1)], of 0 1] c by auto
  then show "receive 0 0x20000 [tp_split_message sample_data ! 1] = Ok None"
    by (subst tp_any_order [of sample_data]) (use s l in \<open>auto simp: split header_sizes\<close>)
qed

section \<open>Where the reassembly leaves its buffer\<close>

text \<open>
  \<open>segment_t::operator<\<close> orders two ranges both ways exactly when one lies strictly inside the other,
  so it is not the strict weak ordering a \<open>std::set\<close> needs.
\<close>

theorem segment_lt_both_ways:
  "segment_lt a b \<and> segment_lt b a \<longleftrightarrow>
     (seg_start a < seg_start b \<and> seg_end b < seg_end a) \<or> (seg_start b < seg_start a \<and> seg_end a < seg_end b)"
  by (auto simp: segment_lt_def)

text \<open>A datagram with \<open>n\<close> bytes of payload at an offset.\<close>

definition sample_segment :: "u32 \<Rightarrow> nat \<Rightarrow> bytes" where
  "sample_segment tp_header n =
     [0x12, 0x34, 0x00, 0x01] @ be32 (of_nat (12 + n))
     @ [0x00, 0x01, 0x00, 0x02, 0x01, 0x01, 0x20, 0x00] @ be32 tp_header @ replicate n 0xAB"

text \<open>A datagram that is consistent in itself and has a segment of \<open>n\<close> bytes for offset \<open>off\<close>.\<close>

definition tp_datagram :: "bytes \<Rightarrow> u32 \<Rightarrow> nat \<Rightarrow> bool" where
  "tp_datagram d off n \<longleftrightarrow> length d = 20 + n \<and> 0 < n \<and> n \<le> 1392 \<and> tp_flag_is_set (d ! VSOMEIP_MESSAGE_TYPE_POS)
     \<and> length_field_of d = of_nat (12 + n) \<and> get_offset (tp_header_of d) = off
     \<and> (more_segments (tp_header_of d) \<longrightarrow> n mod 16 = 0)"

lemma tp_datagram_sizes:
  assumes "tp_datagram d off n"
  shows "\<not> too_short (of_nat (length d))" "segment_size_of (of_nat (length d)) = of_nat n"
    "take n (tp_payload d) = tp_payload d" "length (tp_payload d) = n" "unat (of_nat n :: u32) = n"
  using assms unat_u32 [of n] unat_u32 [of "20 + n"]
  by (simp_all add: tp_datagram_def too_short_def segment_size_of_def tp_payload_def tp_consts word_less_nat_alt)

lemma tp_datagram_check:
  assumes "tp_datagram d off n"
  shows "check_lengths m d (of_nat (length d)) (of_nat n) (more_segments (tp_header_of d)) \<longleftrightarrow>
    tpm_current_message_size m + of_nat n \<le> tpm_max_message_size m \<and> off + of_nat n \<le> tpm_max_message_size m"
proof -
  have "\<not> (of_nat n :: u32) > 1392" "n mod 16 = 0 \<Longrightarrow> \<not> (of_nat n mod 16 :: u32) > 0"
    using assms tp_datagram_sizes(5) [OF assms] by (simp_all add: tp_datagram_def word_less_nat_alt unat_mod)
  then show ?thesis using assms by (auto simp: check_lengths_def Let_def tp_datagram_def tp_consts)
qed

lemma first_segment_wraps:
  assumes d0: "tp_datagram d0 0xFFFFFFF0 16" and max: "16 \<le> max_size"
  shows "new_tp_message now d0 max_size = \<lparr>tpm_creation = now, tpm_max_message_size = max_size, tpm_current_message_size = 32,
    tpm_last_segment_received = (\<not> more_segments (tp_header_of d0)), tpm_segments = [segment 0xFFFFFFF0 0xFFFFFFFF],
    tpm_message = tp_payload d0\<rparr>"
proof -
  have wraps: "(4294967296 :: u32) = 0" by simp
  show ?thesis
    using tp_datagram_sizes [OF d0] tp_datagram_check [OF d0] max d0 wraps
    by (simp add: new_tp_message_def Let_def header_sizes vec_resize_def) (simp add: tp_datagram_def)
qed

lemma unat_plus_nat: "unat (w :: u32) + k < 2 ^ 32 \<Longrightarrow> unat (w + of_nat k) = unat w + k"
  by (simp add: unat_word_ariths unat_of_nat take_bit_eq_mod)

lemma segment_end:
  assumes "unat (off :: u32) + n < 2 ^ 32" "0 < n"
  shows "unat (off + of_nat n - 1) = unat off + n - 1"
proof -
  have "off + of_nat n - 1 = off + of_nat (n - 1)" using assms(2) by (simp add: of_nat_diff)
  then show ?thesis using unat_plus_nat [of off "n - 1"] assms by (simp only: add_diff_assoc)
qed

lemma write_beyond:
  assumes "tp_datagram d0 0xFFFFFFF0 16" "tp_datagram d1 off n" "off < 0xFFFFFFF0"
    and "32 + n \<le> unat max_size" "unat off + n \<le> unat max_size" "max_size \<le> 0xFFFFFFF0"
  shows "add_segment d1 (new_tp_message now d0 max_size) = (Undefined, new_tp_message now d0 max_size)"
    "vec_write (16 + unat off) (tp_payload d1) (tp_payload d0) = None"
    "tpm_message (new_tp_message now d0 max_size) = tp_payload d0"
proof -
  note sz = tp_datagram_sizes [OF assms(2)]
  have len: "length (tp_payload d0) = 16" using tp_datagram_sizes(4) [OF assms(1)] .
  have mx: "unat max_size \<le> 0xFFFFFFF0" using assms(6) by (simp add: word_le_nat_alt)
  have n: "0 < n" using assms(2) by (simp add: tp_datagram_def)
  show w: "vec_write (16 + unat off) (tp_payload d1) (tp_payload d0) = None"
    using sz(4) len n by (simp add: vec_write_def)
  have "16 \<le> max_size" using assms(4) by (simp add: word_le_nat_alt)
  note m = first_segment_wraps [OF assms(1) this, of now]
  then show "tpm_message (new_tp_message now d0 max_size) = tp_payload d0" by simp
  let ?cur = "segment off (off + of_nat n - 1)" and ?y = "segment 0xFFFFFFF0 0xFFFFFFFF"
  have e: "off + of_nat n - 1 < 0xFFFFFFF0"
    using segment_end [of off n] assms(5) mx n by (simp add: word_less_nat_alt)
  have "\<not> (0xFFFFFFFF :: u32) < x" for x using unat_u32_less [of x] by (simp add: word_less_nat_alt)
  then have emp: "emplace ?cur [?y] = Ok ([], [?y])"
    using assms(3) by (auto simp: emplace_def segment_lt_def)
  have at: "unat (16 + off) = 16 + unat off"
    using unat_plus_nat [of off 16] assms(5) mx n by (simp add: add.commute)
  have chk: "check_lengths (new_tp_message now d0 max_size) d1 (of_nat (length d1)) (of_nat n) (more_segments (tp_header_of d1))"
    using tp_datagram_check [OF assms(2)] unat_plus_nat [of 32 n] unat_plus_nat [of off n] assms(4,5) mx
    by (simp add: m word_le_nat_alt)
  have "insert_segment (tp_payload d0) [] ?cur [?y] (of_nat n) (tp_payload d1) = Undefined"
    using e w sz(3-5) at by (simp add: insert_segment_def Let_def copy_in_def header_sizes)
  then show "add_segment d1 (new_tp_message now d0 max_size) = (Undefined, new_tp_message now d0 max_size)"
    using chk emp sz assms(2) by (simp add: add_segment_def Let_def m tp_datagram_def)
qed

lemma read_beyond:
  assumes "tp_datagram d off n" "cur = segment off (off + of_nat n - 1)"
    and "tpm_current_message_size m + of_nat n \<le> tpm_max_message_size m" "off + of_nat n \<le> tpm_max_message_size m"
    and "emplace cur (tpm_segments m) = Ok (before, behind)" "before \<noteq> []" "behind \<noteq> []"
    and "off \<le> seg_end (last before)" "seg_end (last before) < seg_end cur" "unat off + n < unat (seg_start (hd behind))"
  shows "add_segment d m = (Undefined, m)"
    "length (tp_payload d) < unat (seg_end (last before) + 1 - off) + unat (seg_start (hd behind) - (seg_end (last before) + 1))"
proof -
  note sz = tp_datagram_sizes [OF assms(1)]
  have n: "0 < n" using assms(1) by (simp add: tp_datagram_def)
  let ?p = "seg_end (last before)" and ?q = "seg_start (hd behind)"
  have q: "unat ?q < 2 ^ 32" using unat_u32_less [of ?q] by simp
  have "unat (seg_end cur) = unat off + n - 1" using segment_end [of off n] n assms(2,10) q by simp
  then have p: "unat off \<le> unat ?p" "unat ?p + 1 < unat off + n" "unat (?p + 1) = unat ?p + 1"
    using assms(8,9,10) q n unat_plus_nat [of ?p 1] by (auto simp: word_le_nat_alt word_less_nat_alt)
  have "unat (?p + 1 - off) = unat ?p + 1 - unat off" "unat (?q - (?p + 1)) = unat ?q - (unat ?p + 1)"
    using unat_sub [of off "?p + 1"] unat_sub [of "?p + 1" ?q] p assms(10) by (simp_all add: word_le_nat_alt)
  then show len: "length (tp_payload d) < unat (?p + 1 - off) + unat (?q - (?p + 1))"
    using p assms(10) sz(4) by linarith
  then have "copy_in at (?p + 1 - off) (?q - (?p + 1)) msg (tp_payload d) = Undefined" for at msg
    by (simp add: copy_in_def)
  moreover have "\<not> ?p < off" using assms(8) by simp
  ultimately have "insert_segment (tpm_message m) before cur behind (of_nat n) (tp_payload d) = Undefined"
    using assms(2,6) by (simp add: insert_segment_def Let_def)
  then show "add_segment d m = (Undefined, m)"
    using tp_datagram_check [OF assms(1), of m] assms sz by (simp add: add_segment_def Let_def tp_datagram_def)
qed



end
