(* ===== verification/Keyed.thy ===== *)
theory Keyed
  imports Prelude "HOL-Library.AList"
begin

text \<open>
  Objects that keep one independent entry per key, the shape of every table of the program. The locale
  \<open>keyed_machine\<close> says what it means for a table to be nothing more than its entries: an event changes
  the entries of the keys it concerns, as the entry machine \<open>slot\<close> does, and no other; its result is that
  of the entry machine. A run of the table is then, for every key, the run of the entry machine on the
  events that concern that key alone. The second part has
  the lemmas on association lists (\<open>std::map\<close>) that the instances use.
\<close>

fun run_events :: "('e \<Rightarrow> 's \<Rightarrow> 'r \<times> 's) \<Rightarrow> 'e list \<Rightarrow> 's \<Rightarrow> 'r list \<times> 's" where
  "run_events step [] s = ([], s)"
| "run_events step (e # es) s =
     (case step e s of (r, s') \<Rightarrow> case run_events step es s' of (rs, t) \<Rightarrow> (r # rs, t))"

lemma run_events_Cons:
  "run_events step (e # es) s = (fst (step e s) # fst (run_events step es (snd (step e s))),
     snd (run_events step es (snd (step e s))))"
  by (simp split: prod.splits)

lemma length_run_events: "length (fst (run_events step es s)) = length es"
  by (induction es arbitrary: s) (simp_all split: prod.splits, metis fst_conv)

lemma run_events_append:
  "run_events step (xs @ ys) s =
    (fst (run_events step xs s) @ fst (run_events step ys (snd (run_events step xs s))),
     snd (run_events step ys (snd (run_events step xs s))))"
  by (induction xs arbitrary: s) (auto split: prod.splits)

text \<open>The results of the events that concern one key.\<close>

definition results_of :: "('e \<Rightarrow> 'k \<Rightarrow> bool) \<Rightarrow> 'k \<Rightarrow> 'e list \<Rightarrow> 'r list \<Rightarrow> 'r list" where
  "results_of concerns k es rs = map snd (filter (\<lambda>(e, r). concerns e k) (zip es rs))"

lemma results_of_simps [simp]:
  "results_of concerns k [] rs = []"
  "results_of concerns k (e # es) (r # rs) =
     (if concerns e k then r # results_of concerns k es rs else results_of concerns k es rs)"
  by (simp_all add: results_of_def)

locale keyed_machine =
  fixes inv :: "'s \<Rightarrow> bool"
    and entry :: "'s \<Rightarrow> 'k \<Rightarrow> 'v option"
    and step :: "'e \<Rightarrow> 's \<Rightarrow> 'r \<times> 's"
    and concerns :: "'e \<Rightarrow> 'k \<Rightarrow> bool"
    and slot :: "'e \<Rightarrow> 'v option \<Rightarrow> 'r \<times> 'v option"
  assumes inv_step: "inv s \<Longrightarrow> inv (snd (step e s))"
    and step_result: "inv s \<Longrightarrow> concerns e k \<Longrightarrow> fst (step e s) = fst (slot e (entry s k))"
    and step_entry: "inv s \<Longrightarrow>
          entry (snd (step e s)) k = (if concerns e k then snd (slot e (entry s k)) else entry s k)"
begin

lemma inv_run: "inv s \<Longrightarrow> inv (snd (run_events step es s))"
proof (induction es arbitrary: s)
  case (Cons e es)
  then show ?case using inv_step [of s e] by (simp split: prod.splits) (metis snd_conv)
qed simp

theorem run_project:
  assumes "inv s"
  shows "results_of concerns k es (fst (run_events step es s))
      = fst (run_events slot (filter (\<lambda>e. concerns e k) es) (entry s k))"
    and "entry (snd (run_events step es s)) k
      = snd (run_events slot (filter (\<lambda>e. concerns e k) es) (entry s k))"
  using assms
proof (induction es arbitrary: s)
  case (Cons e es)
  { case 1
    then show ?case
      using Cons.IH(1) [OF inv_step] by (simp add: run_events_Cons step_result step_entry del: run_events.simps)
  next
    case 2
    then show ?case
      using Cons.IH(2) [OF inv_step] by (simp add: run_events_Cons step_entry del: run_events.simps)
  }
qed simp_all

end

section \<open>Association lists\<close>

definition wf_alist :: "('k \<times> 'v) list \<Rightarrow> bool" where
  "wf_alist m \<longleftrightarrow> distinct (map fst m)"

lemma wf_alist_Nil [simp]: "wf_alist []"
  by (simp add: wf_alist_def)

lemma wf_alist_update [simp]: "wf_alist m \<Longrightarrow> wf_alist (AList.update k v m)"
  by (simp add: wf_alist_def distinct_update)

lemma wf_alist_delete [simp]: "wf_alist m \<Longrightarrow> wf_alist (AList.delete k m)"
  by (simp add: wf_alist_def distinct_delete)

lemma map_of_update [simp]: "map_of (AList.update k v m) k' = (if k' = k then Some v else map_of m k')"
  by (simp add: update_conv')

lemma map_of_delete [simp]: "map_of (AList.delete k m) k' = (if k' = k then None else map_of m k')"
  by (simp add: delete_conv')

lemma map_of_eq_empty: "map_of m = (\<lambda>_. None) \<longleftrightarrow> m = []"
  by (cases m) (auto simp: fun_eq_iff)

lemma update_not_Nil [simp]: "AList.update k v m \<noteq> []"
  by (cases m) auto

lemma map_of_Some_set: "wf_alist m \<Longrightarrow> map_of m k = Some v \<longleftrightarrow> (k, v) \<in> set m"
  by (simp add: wf_alist_def map_of_eq_Some_iff)

lemma wf_alist_filter [simp]: "wf_alist m \<Longrightarrow> wf_alist (filter P m)"
  by (simp add: wf_alist_def distinct_map_filter)

lemma map_of_filter:
  "wf_alist m \<Longrightarrow> map_of (filter (\<lambda>(k, v). P k v) m) k
     = (case map_of m k of Some v \<Rightarrow> if P k v then Some v else None | None \<Rightarrow> None)"
  unfolding wf_alist_def
proof (induction m)
  case (Cons kv m)
  obtain a b where kv: "kv = (a, b)" by (cases kv)
  have "map_of m a = None" using Cons.prems by (simp add: kv map_of_eq_None_iff)
  then show ?case using Cons by (auto simp: kv split: option.splits)
qed simp

lemma map_of_map_values: "map_of (map (\<lambda>(k, v). (k, f k v)) m) k = map_option (f k) (map_of m k)"
  by (induction m) auto

text \<open>A property of all values, kept by update and delete and found by lookup.\<close>

definition all_values :: "('v \<Rightarrow> bool) \<Rightarrow> ('k \<times> 'v) list \<Rightarrow> bool" where
  "all_values P m = list_all (\<lambda>kv. P (snd kv)) m"

lemma all_values_simps [simp]:
  "all_values P []" "all_values P ((k, v) # m) \<longleftrightarrow> P v \<and> all_values P m"
  by (simp_all add: all_values_def)

lemma all_values_update [simp]: "all_values P m \<Longrightarrow> P v \<Longrightarrow> all_values P (AList.update k v m)"
  by (induction m) auto

lemma all_values_delete [simp]: "all_values P m \<Longrightarrow> all_values P (AList.delete k m)"
  by (auto simp: all_values_def AList.delete_eq list_all_iff)

lemma all_values_lookup: "all_values P m \<Longrightarrow> map_of m k = Some v \<Longrightarrow> P v"
  by (force simp: all_values_def list_all_iff dest: map_of_SomeD)

lemma wf_alist_Cons [simp]: "wf_alist ((k, v) # m) \<longleftrightarrow> map_of m k = None \<and> wf_alist m"
  by (simp add: wf_alist_def map_of_eq_None_iff)

lemma delete_Nil_lookup: "AList.delete k m = [] \<Longrightarrow> k' \<noteq> k \<Longrightarrow> map_of m k' = None"
  by (metis map_of.simps(1) map_of_delete)

text \<open>Rewriting every value and dropping the keys whose value becomes empty.\<close>

fun prune :: "('v \<Rightarrow> 'w list) \<Rightarrow> ('k \<times> 'v) list \<Rightarrow> ('k \<times> 'w list) list" where
  "prune f [] = []"
| "prune f ((k, v) # m) = (if f v = [] then prune f m else (k, f v) # prune f m)"

lemma map_of_prune:
  "wf_alist m \<Longrightarrow> map_of (prune f m) k
     = (case map_of m k of None \<Rightarrow> None | Some v \<Rightarrow> if f v = [] then None else Some (f v))"
  by (induction f m rule: prune.induct) (auto split: option.splits)

lemma wf_alist_prune: "wf_alist m \<Longrightarrow> wf_alist (prune f m)"
  by (induction f m rule: prune.induct) (simp_all add: map_of_prune)

lemma all_values_prune:
  "all_values P m \<Longrightarrow> (\<And>v. P v \<Longrightarrow> f v \<noteq> [] \<Longrightarrow> Q (f v)) \<Longrightarrow> all_values Q (prune f m)"
  by (induction f m rule: prune.induct) simp_all

end
