(* ===== verification/Tp_Reassembler.thy ===== *)
theory Tp_Reassembler
  imports Tp_Transport Keyed
begin

text \<open>
  \<open>tp::tp_reassembler\<close> (\<open>implementation/endpoints/src/tp_reassembler.cpp\<close>): the table of the messages
  under reassembly, per sender address, port and message identifier, and the timer that removes the
  ones that are never completed. Addresses are values of a type parameter; the clock is an argument
  in nanoseconds. The timer of the I/O library is its pending wait, if there is one.
\<close>

section \<open>State\<close>

type_synonym tp_slots = "(u64 \<times> (u16 \<times> tp_message)) list"
type_synonym tp_ports = "(u16 \<times> tp_slots) list"

record 'a tp_reassembler =
  tpr_max_message_size :: u32
  tpr_cleanup_timer_running :: bool
  tpr_cleanup_timer :: "int option"   \<comment> \<open>when the pending wait expires\<close>
  tpr_tp_messages :: "('a \<times> tp_ports) list"

definition new_tp_reassembler :: "u32 \<Rightarrow> 'a tp_reassembler" where
  "new_tp_reassembler max_message_size =
     \<lparr>tpr_max_message_size = max_message_size, tpr_cleanup_timer_running = False,
      tpr_cleanup_timer = None, tpr_tp_messages = []\<rparr>"

section \<open>The cleanup timer\<close>

definition milliseconds :: "int \<Rightarrow> int" where
  "milliseconds ns = ns div 1000000"

definition tp_expired :: "int \<Rightarrow> tp_message \<Rightarrow> bool" where
  "tp_expired now m \<longleftrightarrow> milliseconds (now - tpm_creation m) > 5000"

fun cleanup_slots :: "int \<Rightarrow> tp_slots \<Rightarrow> tp_slots" where
  "cleanup_slots now [] = []"
| "cleanup_slots now ((mid, (session, m)) # rest) =
     (if tp_expired now m then cleanup_slots now rest
      else (mid, (session, m)) # cleanup_slots now rest)"

fun cleanup_ports :: "int \<Rightarrow> tp_ports \<Rightarrow> tp_ports" where
  "cleanup_ports now [] = []"
| "cleanup_ports now ((port, slots) # rest) =
     (let slots' = cleanup_slots now slots in
      if slots' = [] then cleanup_ports now rest else (port, slots') # cleanup_ports now rest)"

fun cleanup_addresses :: "int \<Rightarrow> ('a \<times> tp_ports) list \<Rightarrow> ('a \<times> tp_ports) list" where
  "cleanup_addresses now [] = []"
| "cleanup_addresses now ((address, ports) # rest) =
     (let ports' = cleanup_ports now ports in
      if ports' = [] then cleanup_addresses now rest else (address, ports') # cleanup_addresses now rest)"

definition cleanup_unfinished_messages :: "int \<Rightarrow> 'a tp_reassembler \<Rightarrow> bool \<times> 'a tp_reassembler" where
  "cleanup_unfinished_messages now s =
     (let s' = s\<lparr>tpr_tp_messages := cleanup_addresses now (tpr_tp_messages s)\<rparr>
      in (tpr_tp_messages s' \<noteq> [], s'))"

definition cleanup_timer_start :: "int \<Rightarrow> bool \<Rightarrow> 'a tp_reassembler \<Rightarrow> 'a tp_reassembler" where
  "cleanup_timer_start now force s =
     (if \<not> tpr_cleanup_timer_running s \<or> force
      then s\<lparr>tpr_cleanup_timer := Some (now + 5 * 1000000000), tpr_cleanup_timer_running := True\<rparr>
      else s)"

definition cleanup_timer_cbk :: "int \<Rightarrow> bool \<Rightarrow> 'a tp_reassembler \<Rightarrow> 'a tp_reassembler" where
  "cleanup_timer_cbk now error s =
     (if \<not> error
      then (case cleanup_unfinished_messages now s of
              (left, s') \<Rightarrow> if left then cleanup_timer_start now True s'
                           else s'\<lparr>tpr_cleanup_timer_running := False\<rparr>)
      else s)"

definition stop :: "'a tp_reassembler \<Rightarrow> 'a tp_reassembler" where
  "stop s = s\<lparr>tpr_cleanup_timer := None\<rparr>"

section \<open>Processing a datagram\<close>

definition tp_message_id :: "u16 \<Rightarrow> u16 \<Rightarrow> u16 \<Rightarrow> byte \<Rightarrow> message_type_e \<Rightarrow> u64" where
  "tp_message_id service method client interface_version msg_type =
     push_bit 48 (ucast service) OR push_bit 32 (ucast method) OR push_bit 16 (ucast client)
       OR push_bit 8 (ucast interface_version) OR ucast msg_type"

definition its_tp_message_id :: "bytes \<Rightarrow> u64" where
  "its_tp_message_id data =
     tp_message_id (BYTES_TO_WORD (data ! 0) (data ! 1)) (BYTES_TO_WORD (data ! 2) (data ! 3))
       (BYTES_TO_WORD (data ! 8) (data ! 9)) (data ! 13) (tp_flag_unset (data ! VSOMEIP_MESSAGE_TYPE_POS))"

definition its_session :: "bytes \<Rightarrow> u16" where
  "its_session data = BYTES_TO_WORD (data ! 10) (data ! 11)"

text \<open>The removal of a finished message, with the maps that become empty.\<close>

definition erase_slot :: "'a \<Rightarrow> u16 \<Rightarrow> u64 \<Rightarrow> tp_ports \<Rightarrow> tp_slots \<Rightarrow> ('a \<times> tp_ports) list \<Rightarrow> ('a \<times> tp_ports) list" where
  "erase_slot address port mid ports slots messages =
     (let slots' = AList.delete mid slots in
      if slots' = []
      then (let ports' = AList.delete port ports in
            if ports' = [] then AList.delete address messages else AList.update address ports' messages)
      else AList.update address (AList.update port slots' ports) messages)"

text \<open>The part of \<open>process_tp_message\<close> that runs under \<open>mutex_\<close>.\<close>

definition process_locked ::
  "int \<Rightarrow> bytes \<Rightarrow> 'a \<Rightarrow> u16 \<Rightarrow> ('a tp_reassembler, bool \<times> bytes) action" where
  "process_locked now data address port s =
     (let mid = its_tp_message_id data; session = its_session data;
          messages = tpr_tp_messages s;
          fresh = (session, new_tp_message now data (tpr_max_message_size s));
          put = (\<lambda>slots ports entry. (Ok (False, []),
             s\<lparr>tpr_tp_messages := AList.update address (AList.update port (AList.update mid entry slots) ports) messages\<rparr>))
      in case map_of messages address of
           Some ports \<Rightarrow>
             (case map_of ports port of
                Some slots \<Rightarrow>
                  (case map_of slots mid of
                     Some (old_session, m) \<Rightarrow>
                       (if old_session = session
                        then (case add_segment data m of
                                (Ok True, m') \<Rightarrow>
                                  (Ok (True, fst (tpm_get_message m')),
                                   s\<lparr>tpr_tp_messages := erase_slot address port mid ports slots messages\<rparr>)
                              | (Ok False, m') \<Rightarrow> put slots ports (old_session, m')
                              | (_, m') \<Rightarrow> (Undefined, s))
                        else put slots ports fresh)
                   | None \<Rightarrow> put slots ports fresh)
              | None \<Rightarrow> put [] ports fresh)
         | None \<Rightarrow> put [] [] fresh)"

definition process_tp_message ::
  "int \<Rightarrow> bytes \<Rightarrow> 'a \<Rightarrow> u16 \<Rightarrow> ('a tp_reassembler, bool \<times> bytes) action" where
  "process_tp_message now data address port s =
     (if length data < VSOMEIP_FULL_HEADER_SIZE then (Ok (False, []), s)
      else process_locked now data address port (cleanup_timer_start now False s))"

section \<open>The table as a map of entries\<close>

type_synonym 'a tp_key = "'a \<times> u16 \<times> u64"

definition tp_entry :: "'a tp_reassembler \<Rightarrow> 'a tp_key \<Rightarrow> (u16 \<times> tp_message) option" where
  "tp_entry s = (\<lambda>(address, port, mid).
     case map_of (tpr_tp_messages s) address of
       None \<Rightarrow> None
     | Some ports \<Rightarrow> (case map_of ports port of None \<Rightarrow> None | Some slots \<Rightarrow> map_of slots mid))"

definition wf_slots :: "tp_slots \<Rightarrow> bool" where
  "wf_slots slots \<longleftrightarrow> wf_alist slots \<and> slots \<noteq> []"

definition wf_ports :: "tp_ports \<Rightarrow> bool" where
  "wf_ports ports \<longleftrightarrow> wf_alist ports \<and> ports \<noteq> [] \<and> all_values wf_slots ports"

definition wf_tpr :: "'a tp_reassembler \<Rightarrow> bool" where
  "wf_tpr s \<longleftrightarrow> wf_alist (tpr_tp_messages s) \<and> all_values wf_ports (tpr_tp_messages s)"

text \<open>
  What can happen to the table: a datagram arrives, the timer calls back (with an error or without) or
  the reassembler is stopped. An event concerns the entries it may change: a datagram the one of its
  sender and message, a callback without error all of them.
\<close>

datatype 'a tp_event = Datagram int bytes 'a u16 | Timer int bool | Stop

fun tp_event_step :: "'a tp_event \<Rightarrow> 'a tp_reassembler \<Rightarrow> (bool \<times> bytes) result \<times> 'a tp_reassembler" where
  "tp_event_step (Datagram now data address port) s = process_tp_message now data address port s"
| "tp_event_step (Timer now error) s = (Ok (False, []), cleanup_timer_cbk now error s)"
| "tp_event_step Stop s = (Ok (False, []), stop s)"

fun tp_concerns :: "'a tp_event \<Rightarrow> 'a tp_key \<Rightarrow> bool" where
  "tp_concerns (Datagram now data address port) k \<longleftrightarrow> k = (address, port, its_tp_message_id data)"
| "tp_concerns (Timer now error) k \<longleftrightarrow> \<not> error"
| "tp_concerns Stop k \<longleftrightarrow> False"

text \<open>One entry on its own: what the events that concern it do to it.\<close>

fun tp_slot :: "u32 \<Rightarrow> 'a tp_event \<Rightarrow> (u16 \<times> tp_message) option \<Rightarrow> (bool \<times> bytes) result \<times> (u16 \<times> tp_message) option" where
  "tp_slot max_size (Datagram now data address port) e =
     (if length data < 16 then (Ok (False, []), e)
      else (case e of
         Some (session, m) \<Rightarrow>
           (if session = its_session data
            then (case add_segment data m of
                    (Ok True, m') \<Rightarrow> (Ok (True, tpm_message m'), None)
                  | (Ok False, m') \<Rightarrow> (Ok (False, []), Some (session, m'))
                  | (_, m') \<Rightarrow> (Undefined, e))
            else (Ok (False, []), Some (its_session data, new_tp_message now data max_size)))
       | None \<Rightarrow> (Ok (False, []), Some (its_session data, new_tp_message now data max_size))))"
| "tp_slot max_size (Timer now error) e =
     (Ok (False, []), case e of
        Some (session, m) \<Rightarrow> if \<not> error \<and> tp_expired now m then None else Some (session, m)
      | None \<Rightarrow> None)"
| "tp_slot max_size Stop e = (Ok (False, []), e)"

lemma timer_start_frame [simp]:
  "tpr_tp_messages (cleanup_timer_start now f s) = tpr_tp_messages s"
  "tpr_max_message_size (cleanup_timer_start now f s) = tpr_max_message_size s"
  by (simp_all add: cleanup_timer_start_def)

lemma wf_slots_update [simp]: "slots = [] \<or> wf_slots slots \<Longrightarrow> wf_slots (AList.update k v slots)"
  by (auto simp: wf_slots_def)

lemma wf_ports_update [simp]:
  "ports = [] \<or> wf_ports ports \<Longrightarrow> wf_slots slots \<Longrightarrow> wf_ports (AList.update port slots ports)"
  by (auto simp: wf_ports_def)

lemma wf_ports_delete: "wf_ports ports \<Longrightarrow> AList.delete port ports \<noteq> [] \<Longrightarrow> wf_ports (AList.delete port ports)"
  by (simp add: wf_ports_def)

lemma wf_tpr_update [simp]:
  "wf_tpr s \<Longrightarrow> wf_ports ports \<Longrightarrow> wf_tpr (s\<lparr>tpr_tp_messages := AList.update a ports (tpr_tp_messages s)\<rparr>)"
  by (simp add: wf_tpr_def)

lemma wf_tpr_delete [simp]:
  "wf_tpr s \<Longrightarrow> wf_tpr (s\<lparr>tpr_tp_messages := AList.delete a (tpr_tp_messages s)\<rparr>)"
  by (simp add: wf_tpr_def)

lemma wf_lookup_ports: "wf_tpr s \<Longrightarrow> map_of (tpr_tp_messages s) a = Some ports \<Longrightarrow> wf_ports ports"
  unfolding wf_tpr_def by (blast intro: all_values_lookup)

lemma wf_lookup_slots: "wf_ports ports \<Longrightarrow> map_of ports p = Some slots \<Longrightarrow> wf_slots slots"
  unfolding wf_ports_def by (blast intro: all_values_lookup)

lemma wf_erase:
  assumes "wf_tpr s" "map_of (tpr_tp_messages s) a = Some ports" "map_of ports p = Some slots"
  shows "wf_tpr (s\<lparr>tpr_tp_messages := erase_slot a p mid ports slots (tpr_tp_messages s)\<rparr>)"
proof -
  have wf: "wf_ports ports" using wf_lookup_ports assms(1,2) .
  have "wf_slots slots" using wf_lookup_slots wf assms(3) .
  then have "wf_slots (AList.delete mid slots)" if "AList.delete mid slots \<noteq> []"
    using that by (simp add: wf_slots_def)
  then show ?thesis using assms(1) wf wf_ports_delete [of ports p] by (simp add: erase_slot_def Let_def)
qed

lemma entry_erase:
  assumes "map_of (tpr_tp_messages s) a = Some ports" "map_of ports p = Some slots"
  shows "tp_entry (s\<lparr>tpr_tp_messages := erase_slot a p mid ports slots (tpr_tp_messages s)\<rparr>) k
    = (if k = (a, p, mid) then None else tp_entry s k)"
  using assms
  by (cases k) (auto simp: tp_entry_def erase_slot_def Let_def delete_Nil_lookup split: option.splits)

lemma entry_put:
  assumes "ports = (case map_of (tpr_tp_messages s) a of None \<Rightarrow> [] | Some ports \<Rightarrow> ports)"
    "slots = (case map_of ports p of None \<Rightarrow> [] | Some slots \<Rightarrow> slots)"
  shows "tp_entry (s\<lparr>tpr_tp_messages := AList.update a (AList.update p (AList.update mid e slots) ports)
      (tpr_tp_messages s)\<rparr>) k = (if k = (a, p, mid) then Some e else tp_entry s k)"
  using assms by (cases k) (auto simp: tp_entry_def split: option.splits)

lemma entry_timer_start [simp]: "tp_entry (cleanup_timer_start now f s) = tp_entry s"
  by (simp add: tp_entry_def fun_eq_iff)

lemma wf_timer_start [simp]: "wf_tpr (cleanup_timer_start now f s) = wf_tpr s"
  by (simp add: wf_tpr_def)

text \<open>\<open>process_locked\<close> on the entries.\<close>

lemma process_locked_slot:
  assumes "wf_tpr s" "16 \<le> length data"
  shows "wf_tpr (snd (process_locked now data a p s))
    \<and> tpr_max_message_size (snd (process_locked now data a p s)) = tpr_max_message_size s
    \<and> fst (process_locked now data a p s)
        = fst (tp_slot (tpr_max_message_size s) (Datagram now data a p) (tp_entry s (a, p, its_tp_message_id data)))
    \<and> tp_entry (snd (process_locked now data a p s)) k
        = (if k = (a, p, its_tp_message_id data)
           then snd (tp_slot (tpr_max_message_size s) (Datagram now data a p) (tp_entry s k)) else tp_entry s k)"
proof (cases "map_of (tpr_tp_messages s) a")
  case None
  then have e: "tp_entry s (a, p, mid) = None" for mid by (simp add: tp_entry_def)
  show ?thesis
    using assms None entry_put [of "[]" s a "[]" p]
      wf_ports_update [of "[]" "[(its_tp_message_id data, its_session data, new_tp_message now data (tpr_max_message_size s))]" p]
      wf_slots_update [of "[]" "its_tp_message_id data" "(its_session data, new_tp_message now data (tpr_max_message_size s))"]
    by (simp add: process_locked_def Let_def e)
next
  case ports: (Some ports)
  note wp = wf_lookup_ports [OF assms(1) ports]
  show ?thesis
  proof (cases "map_of ports p")
    case None
    then have e: "tp_entry s (a, p, mid) = None" for mid by (simp add: tp_entry_def ports)
    show ?thesis
      using assms ports None wp entry_put [of ports s a "[]" p]
        wf_slots_update [of "[]" "its_tp_message_id data" "(its_session data, new_tp_message now data (tpr_max_message_size s))"]
      by (simp add: process_locked_def Let_def e)
  next
    case slots: (Some slots)
    have e: "tp_entry s (a, p, its_tp_message_id data) = map_of slots (its_tp_message_id data)"
      by (simp add: tp_entry_def ports slots)
    show ?thesis
      using assms ports slots wp wf_lookup_slots [OF wp slots] entry_put [of ports s a slots p]
        wf_erase [OF assms(1) ports slots] entry_erase [OF ports slots]
      by (auto simp: process_locked_def Let_def e tpm_get_message_def
          split: option.splits prod.splits result.splits bool.splits)
  qed
qed

section \<open>The cleanup on the entries\<close>

lemma cleanup_slots_filter: "cleanup_slots now slots = filter (\<lambda>(k, e). \<not> tp_expired now (snd e)) slots"
  by (induction now slots rule: cleanup_slots.induct) auto

lemma cleanup_prune:
  "cleanup_ports now ports = prune (cleanup_slots now) ports"
  "cleanup_addresses now messages = prune (cleanup_ports now) messages"
proof -
  show p: "cleanup_ports now ports = prune (cleanup_slots now) ports" for ports
    by (induction now ports rule: cleanup_ports.induct) (simp_all add: Let_def)
  show "cleanup_addresses now messages = prune (cleanup_ports now) messages"
    by (induction now messages rule: cleanup_addresses.induct) (simp_all add: Let_def)
qed

lemma wf_cleanup_slots: "wf_slots slots \<Longrightarrow> cleanup_slots now slots \<noteq> [] \<Longrightarrow> wf_slots (cleanup_slots now slots)"
  by (simp add: wf_slots_def cleanup_slots_filter)

lemma wf_cleanup_ports: "wf_ports ports \<Longrightarrow> cleanup_ports now ports \<noteq> [] \<Longrightarrow> wf_ports (cleanup_ports now ports)"
  unfolding wf_ports_def cleanup_prune(1)
  by (blast intro: wf_alist_prune all_values_prune [of wf_slots] wf_cleanup_slots)

lemma wf_cleanup: "wf_tpr s \<Longrightarrow> wf_tpr (snd (cleanup_unfinished_messages now s))"
  unfolding wf_tpr_def cleanup_unfinished_messages_def Let_def
  by (simp add: cleanup_prune(2)) (blast intro: wf_alist_prune all_values_prune [of wf_ports] wf_cleanup_ports)

lemma entry_exists:
  assumes "wf_tpr s"
  shows "tpr_tp_messages s \<noteq> [] \<longleftrightarrow> (\<exists>k. tp_entry s k \<noteq> None)"
proof
  assume "tpr_tp_messages s \<noteq> []"
  then obtain a ports rest where m: "tpr_tp_messages s = (a, ports) # rest" by (cases "tpr_tp_messages s") auto
  then obtain p slots where "ports = (p, slots) # tl ports" "wf_slots slots"
    using assms by (cases ports) (auto simp: wf_tpr_def wf_ports_def)
  moreover from this(2) obtain mid e where "slots = (mid, e) # tl slots" by (cases slots) (auto simp: wf_slots_def)
  ultimately have "map_of ports p = Some slots" "map_of slots mid = Some e" by (metis map_of_Cons_code(2))+
  then have "tp_entry s (a, p, mid) = Some e" using m by (simp add: tp_entry_def)
  then show "\<exists>k. tp_entry s k \<noteq> None" by (intro exI [of _ "(a, p, mid)"]) simp
qed (auto simp: tp_entry_def)

lemma entry_cleanup:
  assumes "wf_tpr s"
  shows "tp_entry (snd (cleanup_unfinished_messages now s)) k
    = (case tp_entry s k of None \<Rightarrow> None | Some (session, m) \<Rightarrow> if tp_expired now m then None else Some (session, m))"
proof -
  obtain a p mid where k: "k = (a, p, mid)" by (cases k)
  have slots: "map_of (cleanup_slots now slots) mid
      = (case map_of slots mid of None \<Rightarrow> None | Some (session, m) \<Rightarrow> if tp_expired now m then None else Some (session, m))"
    if "wf_slots slots" for slots
    using that map_of_filter [of slots "\<lambda>k e. \<not> tp_expired now (snd e)" mid]
    by (auto simp: cleanup_slots_filter wf_slots_def split: option.splits)
  show ?thesis
  proof (cases "map_of (tpr_tp_messages s) a")
    case None
    then show ?thesis
      using assms by (simp add: k tp_entry_def cleanup_unfinished_messages_def cleanup_prune map_of_prune wf_tpr_def)
  next
    case ports: (Some ports)
    then have wp: "wf_ports ports" using assms by (rule wf_lookup_ports [rotated])
    show ?thesis
    proof (cases "map_of ports p")
      case None
      then show ?thesis using assms wp ports
        by (auto simp: k tp_entry_def cleanup_unfinished_messages_def cleanup_prune map_of_prune wf_tpr_def wf_ports_def)
    next
      case (Some sl)
      then have "wf_slots sl" using wp wf_lookup_slots by blast
      note sl = slots [OF this]
      have e: "tp_entry s k = map_of sl mid" by (simp add: k tp_entry_def ports Some)
      have "map_of (prune (cleanup_slots now) ports) p = (if cleanup_slots now sl = [] then None else Some (cleanup_slots now sl))"
        using wp Some by (simp add: map_of_prune wf_ports_def)
      then have "tp_entry (snd (cleanup_unfinished_messages now s)) k = map_of (cleanup_slots now sl) mid"
        using assms ports
        by (auto simp: k tp_entry_def cleanup_unfinished_messages_def cleanup_prune map_of_prune wf_tpr_def)
      then show ?thesis by (simp only: e sl)
    qed
  qed
qed

text \<open>The callback on the entries.\<close>

lemma timer_cbk_entry:
  assumes "wf_tpr s"
  shows "wf_tpr (cleanup_timer_cbk now error s)"
    "tpr_max_message_size (cleanup_timer_cbk now error s) = tpr_max_message_size s"
    "tp_entry (cleanup_timer_cbk now error s) k = snd (tp_slot n (Timer now error) (tp_entry s k))"
proof -
  let ?c = "snd (cleanup_unfinished_messages now s)"
  have t: "tpr_tp_messages (cleanup_timer_cbk now error s) = (if error then tpr_tp_messages s else tpr_tp_messages ?c)"
    by (simp add: cleanup_timer_cbk_def cleanup_unfinished_messages_def Let_def)
  then show "wf_tpr (cleanup_timer_cbk now error s)" using assms wf_cleanup [OF assms, of now] by (simp add: wf_tpr_def)
  show "tpr_max_message_size (cleanup_timer_cbk now error s) = tpr_max_message_size s"
    by (simp add: cleanup_timer_cbk_def cleanup_unfinished_messages_def Let_def)
  have "tp_entry (cleanup_timer_cbk now error s) = (if error then tp_entry s else tp_entry ?c)"
    using t by (simp add: tp_entry_def fun_eq_iff)
  then show "tp_entry (cleanup_timer_cbk now error s) k = snd (tp_slot n (Timer now error) (tp_entry s k))"
    using entry_cleanup [OF assms, of now k] by (simp split: option.splits)
qed

lemma stop_entry [simp]:
  "wf_tpr (stop s) = wf_tpr s" "tpr_max_message_size (stop s) = tpr_max_message_size s" "tp_entry (stop s) = tp_entry s"
  by (simp_all add: stop_def wf_tpr_def tp_entry_def fun_eq_iff)

lemma datagram_entry:
  assumes "wf_tpr s"
  shows "wf_tpr (snd (process_tp_message now data a p s))
    \<and> tpr_max_message_size (snd (process_tp_message now data a p s)) = tpr_max_message_size s
    \<and> fst (process_tp_message now data a p s)
        = fst (tp_slot (tpr_max_message_size s) (Datagram now data a p) (tp_entry s (a, p, its_tp_message_id data)))
    \<and> tp_entry (snd (process_tp_message now data a p s)) k
        = (if k = (a, p, its_tp_message_id data)
           then snd (tp_slot (tpr_max_message_size s) (Datagram now data a p) (tp_entry s k)) else tp_entry s k)"
  using process_locked_slot [of "cleanup_timer_start now False s" data now a p k] assms
  by (cases "length data < 16") (simp_all add: process_tp_message_def header_sizes)

interpretation tpr: keyed_machine "\<lambda>s. wf_tpr s \<and> tpr_max_message_size s = max_size" tp_entry tp_event_step
  tp_concerns "tp_slot max_size" for max_size
proof
  fix s :: "'a tp_reassembler" and e :: "'a tp_event" and k
  assume s: "wf_tpr s \<and> tpr_max_message_size s = max_size"
  show "wf_tpr (snd (tp_event_step e s)) \<and> tpr_max_message_size (snd (tp_event_step e s)) = max_size"
    using s by (cases e) (simp_all add: datagram_entry timer_cbk_entry(1,2))
  show "fst (tp_event_step e s) = fst (tp_slot max_size e (tp_entry s k))" if "tp_concerns e k"
  proof (cases e)
    case (Datagram now data a p)
    then show ?thesis using s that datagram_entry [of s now data a p k] by simp
  qed simp_all
  show "tp_entry (snd (tp_event_step e s)) k
      = (if tp_concerns e k then snd (tp_slot max_size e (tp_entry s k)) else tp_entry s k)"
  proof (cases e)
    case (Datagram now data a p)
    then show ?thesis using s datagram_entry [of s now data a p k] by simp
  next
    case (Timer now error)
    then show ?thesis using s timer_cbk_entry(3) [of s now error k max_size] by (auto split: option.splits)
  qed simp
qed

section \<open>Interleaved messages\<close>

lemma new_tp_reassembler_wf [simp]:
  "wf_tpr (new_tp_reassembler n)" "tpr_max_message_size (new_tp_reassembler n) = n"
  "tp_entry (new_tp_reassembler n) k = None"
  by (cases k, simp_all add: wf_tpr_def new_tp_reassembler_def tp_entry_def)

text \<open>
  [C11] The reassembler is a table of independent entries: for every sender address, port and message
  identifier, what it answers to the datagrams of that key and the entry it keeps for it are those of
  the entry machine \<open>tp_slot\<close> on the events that concern this key alone: its own datagrams and the
  callbacks of the timer. Datagrams of other senders or messages never change them.
\<close>

theorem reassembler_entries:
  "results_of tp_concerns k es (fst (run_events tp_event_step es (new_tp_reassembler n)))
      = fst (run_events (tp_slot n) (filter (\<lambda>e. tp_concerns e k) es) None)
   \<and> tp_entry (snd (run_events tp_event_step es (new_tp_reassembler n))) k
      = snd (run_events (tp_slot n) (filter (\<lambda>e. tp_concerns e k) es) None)"
  using tpr.run_project [where s = "new_tp_reassembler n" and max_size = n and k = k and es = es] by simp

text \<open>The entry machine on the datagrams of one message.\<close>

lemma add_segments_None_append:
  "fst (add_segments ds m) = Ok None \<Longrightarrow> add_segments (ds @ es) m = add_segments es (snd (add_segments ds m))"
  by (induction ds arbitrary: m) (auto split: prod.splits result.splits bool.splits)

lemma segment_identity:
  assumes "segmentable data" "i < seg_count data"
  shows "its_tp_message_id (seg_at data i) = its_tp_message_id data" "its_session (seg_at data i) = its_session data"
proof -
  have same: "seg_at data i ! k = data ! k" if "k < 16" "k \<notin> {4..<8}" "k \<noteq> 14" for k
    using split.seg_header [OF assms that] .
  have flag: "\<not> tp_flag_is_set (data ! 14)" using split.ok_flag [OF assms(1)] .
  have unset: "tp_flag_unset (data ! 14) = data ! 14"
    unfolding tp_flag_unset_def TP_FLAG_def
    by (rule bit_word_eqI)
      (use flag in \<open>auto simp only: tp_flag_bit bit_and_iff bit_not_iff bit_tp_flag possible_bit_word\<close>)
  show "its_tp_message_id (seg_at data i) = its_tp_message_id data"
    using split.seg_flag [OF assms] by (simp add: its_tp_message_id_def same unset VSOMEIP_MESSAGE_TYPE_POS_def)
  show "its_session (seg_at data i) = its_session data" by (simp add: its_session_def same)
qed

lemma split_identity:
  assumes "segmentable data" "d \<in> set (tp_split_message data)"
  shows "16 \<le> length d" "its_session d = its_session data" "its_tp_message_id d = its_tp_message_id data"
proof -
  obtain i where i: "i < seg_count data" "d = seg_at data i"
    using assms by (auto simp: tp_split_segs segmentable_sizes)
  show "16 \<le> length d" using split.seg_length [OF assms(1) i(1)] by (simp add: i(2))
  show "its_session d = its_session data" "its_tp_message_id d = its_tp_message_id data"
    using segment_identity [OF assms(1) i(1)] by (simp_all add: i(2))
qed

lemma two_segments:
  assumes "segmentable data"
  shows "{d} \<noteq> set (tp_split_message data)"
proof
  assume "{d} = set (tp_split_message data)"
  then have "card (set (tp_split_message data)) = 1" by (metis card.empty card_insert_disjoint empty_iff finite.emptyI One_nat_def)
  moreover have "distinct (tp_split_message data)" "2 \<le> length (tp_split_message data)"
    using seg_at_inj [OF assms] split.cnt_ge [OF assms]
    by (simp_all add: assms length_tp_split tp_split_segs segmentable_sizes distinct_map lessThan_atLeast0)
  ultimately show False using distinct_card [of "tp_split_message data"] by simp
qed

text \<open>The datagrams among some events, and events that are no more than five seconds from \<open>t0\<close>.\<close>

fun datagrams :: "'a tp_event list \<Rightarrow> bytes list" where
  "datagrams [] = []"
| "datagrams (Datagram now data address port # es) = data # datagrams es"
| "datagrams (e # es) = datagrams es"

fun in_time :: "int \<Rightarrow> 'a tp_event \<Rightarrow> bool" where
  "in_time t0 (Datagram now data address port) \<longleftrightarrow> t0 \<le> now"
| "in_time t0 (Timer now error) \<longleftrightarrow> milliseconds (now - t0) \<le> 5000"
| "in_time t0 Stop \<longleftrightarrow> True"

lemma datagrams_append [simp]: "datagrams (xs @ ys) = datagrams xs @ datagrams ys"
  by (induction xs rule: datagrams.induct) simp_all

lemma add_segment_creation: "tpm_creation (snd (add_segment d m)) = tpm_creation m"
  by (auto simp: add_segment_def finish_segment_def Let_def split: result.splits prod.splits)

lemma add_segments_creation: "tpm_creation (snd (add_segments ds m)) = tpm_creation m"
proof (induction ds arbitrary: m)
  case (Cons d ds)
  show ?case using add_segment_creation [of d m] Cons.IH
    by (auto simp: tpm_get_message_def split: prod.splits result.splits bool.splits)
qed simp

lemma new_tp_message_creation [simp]: "tpm_creation (new_tp_message now d n) = now"
  by (simp add: new_tp_message_def Let_def)

lemma not_expired: "t0 \<le> t1 \<Longrightarrow> milliseconds (now - t0) \<le> 5000 \<Longrightarrow> tpm_creation m = t1 \<Longrightarrow> \<not> tp_expired now m"
  using zdiv_mono1 [of "now - t1" "now - t0" 1000000] by (simp add: tp_expired_def milliseconds_def)

text \<open>
  The entry while segments of \<open>data\<close> arrive: as long as none has arrived there is no entry of its
  session, then the entry is the message built from the segments so far.
\<close>

definition collecting :: "bytes \<Rightarrow> u32 \<Rightarrow> int \<Rightarrow> bytes list \<Rightarrow> (u16 \<times> tp_message) option \<Rightarrow> bool" where
  "collecting data n t0 ds e \<longleftrightarrow>
     (if ds = [] then \<forall>m. e \<noteq> Some (its_session data, m)
      else \<exists>t1. t0 \<le> t1 \<and> e = Some (its_session data, snd (add_segments (tl ds) (new_tp_message t1 (hd ds) n))))"

lemma collecting_add:
  assumes "segmentable data" "length data \<le> unat n"
    and "length_field_of data = of_nat (length data - VSOMEIP_SOMEIP_HEADER_SIZE)"
    and "collecting data n t0 ds e" "set ds \<subset> set (tp_split_message data)" "d \<in> set (tp_split_message data)"
    and "ds = [] \<Longrightarrow> {d} \<noteq> set (tp_split_message data) \<and> t0 \<le> t"
  shows "if insert d (set ds) = set (tp_split_message data)
    then tp_slot n (Datagram t d a p) e = (Ok (True, data), None)
    else \<exists>e'. tp_slot n (Datagram t d a p) e = (Ok (False, []), e') \<and> collecting data n t0 (ds @ [d]) e'"
proof (cases ds)
  case Nil
  then show ?thesis using assms(4,7) split_identity [OF assms(1,6)]
    by (auto simp: collecting_def split: option.splits)
next
  case (Cons d0 ds0)
  then obtain t1 where t1: "t0 \<le> t1" "e = Some (its_session data, snd (add_segments ds0 (new_tp_message t1 d0 n)))"
    using assms(4) by (auto simp: collecting_def)
  let ?m = "new_tp_message t1 d0 n"
  have sub: "ds \<noteq> []" "set ds \<subseteq> set (tp_split_message data)" "set ds \<noteq> set (tp_split_message data)"
    "set (ds @ [d]) \<subseteq> set (tp_split_message data)" using assms(5,6) Cons by auto
  have r: "receive t1 n ds = Ok None"
    "receive t1 n (ds @ [d]) = Ok (if insert d (set ds) = set (tp_split_message data) then Some data else None)"
    using receive_segments [OF assms(1-3) sub(1,2), of t1] receive_segments [OF assms(1-3) _ sub(4), of t1] sub(3) by simp_all
  have "add_segments (ds0 @ [d]) ?m = add_segments [d] (snd (add_segments ds0 ?m))"
    using r(1) Cons by (intro add_segments_None_append) simp
  then have add: "fst (add_segments [d] (snd (add_segments ds0 ?m)))
      = Ok (if insert d (set ds) = set (tp_split_message data) then Some data else None)"
    "snd (add_segments (ds0 @ [d]) ?m) = snd (add_segments [d] (snd (add_segments ds0 ?m)))"
    using r(2) Cons by simp_all
  obtain b m' where b: "add_segment d (snd (add_segments ds0 ?m)) = (b, m')" by fastforce
  show ?thesis using add b t1 split_identity [OF assms(1,6)] Cons
    by (auto simp: collecting_def tpm_get_message_def split: result.splits bool.splits if_splits)
qed

lemma slot_run_collecting:
  assumes "segmentable data" "length data \<le> unat n"
    and "length_field_of data = of_nat (length data - VSOMEIP_SOMEIP_HEADER_SIZE)"
    and "\<forall>e \<in> set es. in_time t0 e" "collecting data n t0 [] e0" "set (datagrams es) \<subset> set (tp_split_message data)"
  shows "fst (run_events (tp_slot n) es e0) = replicate (length es) (Ok (False, []))
    \<and> collecting data n t0 (datagrams es) (snd (run_events (tp_slot n) es e0))"
  using assms(4,6)
proof (induction es rule: rev_induct)
  case Nil
  then show ?case using assms(5) by simp
next
  case (snoc e es)
  let ?st = "snd (run_events (tp_slot n) es e0)"
  have es: "set (datagrams es) \<subset> set (tp_split_message data)" using snoc.prems(2) by (cases e) auto
  then have IH: "fst (run_events (tp_slot n) es e0) = replicate (length es) (Ok (False, []))"
    "collecting data n t0 (datagrams es) ?st" using snoc by simp_all
  have "\<exists>e'. tp_slot n e ?st = (Ok (False, []), e') \<and> collecting data n t0 (datagrams (es @ [e])) e'"
  proof (cases e)
    case (Datagram t d a p)
    then show ?thesis
      using collecting_add [OF assms(1-3) IH(2) es, of d t a p] snoc.prems two_segments [OF assms(1), of d]
      by (auto split: if_splits)
  next
    case (Timer now error)
    have "\<not> tp_expired now m" if m: "?st = Some (its_session data, m)" for m
    proof -
      obtain t1 where "t0 \<le> t1" "m = snd (add_segments (tl (datagrams es)) (new_tp_message t1 (hd (datagrams es)) n))"
        using IH(2) m by (auto simp: collecting_def split: if_splits)
      then show ?thesis using not_expired [of t0 t1 now m] snoc.prems(1) Timer by (simp add: add_segments_creation)
    qed
    then show ?thesis using IH(2) Timer by (auto simp: collecting_def split: option.splits if_splits)
  qed (use IH(2) in simp)
  then show ?case using IH(1) by (auto simp: run_events_append replicate_append_same)
qed

text \<open>
  [C3] Reassembly among other traffic. The reassembler is in any well-formed state in which no message of
  the same sender, identifier and session is under reassembly. Whatever datagrams of other senders and
  other messages arrive in between, in whatever order and how often the segments of a message arrive, the
  one that is the last to be missing makes the reassembler deliver exactly the original message, no
  earlier one delivers anything, and no entry is left. The datagrams with the key of the message are all
  its segments (a datagram of another session would make the reassembler drop it), and the timer does
  not call back later than five seconds after the time \<open>t0\<close> before which no segment has arrived.
\<close>

theorem interleaved_reassembly:
  assumes "segmentable data" "length data \<le> unat n"
    and "length_field_of data = of_nat (length data - VSOMEIP_SOMEIP_HEADER_SIZE)"
    and "wf_tpr s" "tpr_max_message_size s = n" "k = (a, p, its_tp_message_id data)"
    and "\<forall>m. tp_entry s k \<noteq> Some (its_session data, m)"
    and "filter (\<lambda>e. tp_concerns e k) es = arrivals @ [Datagram t d a p]"
    and "\<forall>e \<in> set arrivals. in_time t0 e"
    and "d \<notin> set (datagrams arrivals)" "insert d (set (datagrams arrivals)) = set (tp_split_message data)"
  shows "results_of tp_concerns k es (fst (run_events tp_event_step es s))
      = replicate (length arrivals) (Ok (False, [])) @ [Ok (True, data)]
    \<and> tp_entry (snd (run_events tp_event_step es s)) k = None"
proof -
  let ?st = "run_events (tp_slot n) arrivals (tp_entry s k)"
  have sub: "set (datagrams arrivals) \<subset> set (tp_split_message data)" using assms(10,11) by blast
  have "collecting data n t0 [] (tp_entry s k)" using assms(7) by (simp add: collecting_def)
  then have st: "fst ?st = replicate (length arrivals) (Ok (False, []))" "collecting data n t0 (datagrams arrivals) (snd ?st)"
    using slot_run_collecting [OF assms(1-3,9) _ sub] by simp_all
  have "datagrams arrivals \<noteq> []" using two_segments [OF assms(1), of d] assms(11) by auto
  then have "tp_slot n (Datagram t d a p) (snd ?st) = (Ok (True, data), None)"
    using collecting_add [OF assms(1-3) st(2) sub _ FalseE, of d t a p] assms(11) by (metis insertI1)
  then show ?thesis
    using tpr.run_project [where s = s and max_size = n and k = k and es = es] assms(4,5,8) st(1)
    by (simp add: run_events_append)
qed

lemma sample_split: "tp_split_message sample_data = [seg_at sample_data 0, seg_at sample_data 1]"
proof -
  have "seg_count sample_data = 2" by (simp add: seg_count_def sample_data_def)
  then show ?thesis by (simp add: tp_split_segs segmentable_sizes sample_segmentable upt_conv_Cons)
qed

text \<open>
  The two segments of a message in the wrong order, the first of them twice, with a datagram of another
  sender, a callback of the timer and an older message of another session under reassembly.
\<close>

definition sample_traffic :: "nat tp_event list" where
  "sample_traffic = [Datagram 1 (seg_at sample_data 1) 1 30490, Datagram 5 (sample_segment 0x1 32) 2 30490,
     Timer 6 False, Datagram 6 (seg_at sample_data 1) 1 30490, Datagram 7 (seg_at sample_data 0) 1 30490]"

definition sample_state :: "nat tp_reassembler" where
  "sample_state = snd (process_tp_message 0 ((sample_segment 0x1 32)[11 := 9]) 1 30490 (new_tp_reassembler 0x20000))"

lemma sample_state_entry:
  "wf_tpr sample_state" "tpr_max_message_size sample_state = 0x20000"
  "\<exists>m. tp_entry sample_state (1, 30490, its_tp_message_id sample_data) = Some (9, m)"
proof -
  let ?d = "(sample_segment 0x1 32)[11 := 9]"
  have k: "its_tp_message_id ?d = its_tp_message_id sample_data"
    by (simp add: its_tp_message_id_def sample_segment_def sample_data_def be32_def tp_flag_unset_def TP_FLAG_def
        VSOMEIP_MESSAGE_TYPE_POS_def)
  have l: "\<not> length ?d < 16" "its_session ?d = 9"
    by (simp_all add: sample_segment_def its_session_def BYTES_TO_WORD_def be32_def)
  note step = datagram_entry [OF new_tp_reassembler_wf(1), of 0 ?d "1 :: nat" 30490 "0x20000" "(1, 30490, its_tp_message_id ?d)"]
  show "wf_tpr sample_state" "tpr_max_message_size sample_state = 0x20000"
    "\<exists>m. tp_entry sample_state (1, 30490, its_tp_message_id sample_data) = Some (9, m)"
    using step l unfolding sample_state_def k by (simp_all del: One_nat_def)
qed

theorem interleaved_reassembly_witness:
  "tp_entry sample_state (1, 30490, its_tp_message_id sample_data) \<noteq> None
   \<and> results_of tp_concerns (1, 30490, its_tp_message_id sample_data) sample_traffic
     (fst (run_events tp_event_step sample_traffic sample_state))
   = [Ok (False, []), Ok (False, []), Ok (False, []), Ok (True, sample_data)]"
proof -
  let ?k = "(1 :: nat, 30490 :: u16, its_tp_message_id sample_data)"
  let ?seg = "\<lambda>t i. Datagram t (seg_at sample_data i) (1 :: nat) 30490"
  have c: "seg_count sample_data = 2" by (simp add: seg_count_def sample_data_def)
  have l: "length sample_data \<le> unat (0x20000 :: u32)" by (simp add: sample_data_def)
  have mid: "its_tp_message_id (seg_at sample_data 0) = its_tp_message_id sample_data"
    "its_tp_message_id (seg_at sample_data 1) = its_tp_message_id sample_data"
    using segment_identity [OF sample_segmentable, of 0] segment_identity [OF sample_segmentable, of 1] c by simp_all
  have f: "filter (\<lambda>e. tp_concerns e ?k) sample_traffic = [?seg 1 1, Timer 6 False, ?seg 6 1] @ [?seg 7 0]"
    using mid by (simp add: sample_traffic_def)
  have "seg_at sample_data 0 \<noteq> seg_at sample_data 1"
    using inj_onD [OF seg_at_inj [OF sample_segmentable], of 0 1] c by auto
  moreover obtain m where m: "tp_entry sample_state ?k = Some (9, m)" using sample_state_entry(3) by blast
  moreover have "its_session sample_data = 2" by (simp add: its_session_def sample_data_def BYTES_TO_WORD_def)
  ultimately show ?thesis
    using interleaved_reassembly [OF sample_segmentable l _ sample_state_entry(1,2) refl _ f, of 0] sample_length_field
    by (simp add: sample_split header_sizes milliseconds_def)
qed

section \<open>The cleanup\<close>

text \<open>
  [C25] \<open>cleanup_unfinished_messages\<close> removes exactly the entries older than five seconds, keeps every
  other one as it is, leaves no empty map behind, and reports whether an entry is left.
\<close>

theorem cleanup_exact:
  assumes "wf_tpr s"
  shows "wf_tpr (snd (cleanup_unfinished_messages now s))
    \<and> tp_entry (snd (cleanup_unfinished_messages now s)) k
        = (case tp_entry s k of None \<Rightarrow> None
           | Some (session, m) \<Rightarrow> if milliseconds (now - tpm_creation m) > 5000 then None else Some (session, m))
    \<and> (fst (cleanup_unfinished_messages now s)
        \<longleftrightarrow> (\<exists>k. tp_entry (snd (cleanup_unfinished_messages now s)) k \<noteq> None))"
  using wf_cleanup [OF assms, of now] entry_cleanup [OF assms, of now k] entry_exists [OF wf_cleanup [OF assms, of now]]
  by (simp add: tp_expired_def cleanup_unfinished_messages_def Let_def split: option.splits)

theorem cleanup_exact_witness:
  "tp_entry (snd (cleanup_unfinished_messages 5001000000
      (snd (process_tp_message 0 (sample_segment 0x1 32) (1 :: nat) 30490 (new_tp_reassembler 0x20000)))))
      (1, 30490, its_tp_message_id (sample_segment 0x1 32)) = None"
proof -
  let ?e = "Datagram 0 (sample_segment 0x1 32) (1 :: nat) 30490" and ?k = "(1 :: nat, 30490 :: u16, its_tp_message_id (sample_segment 0x1 32))"
  let ?s = "snd (tp_event_step ?e (new_tp_reassembler 0x20000))"
  have wf: "wf_tpr ?s" using tpr.inv_step [where s = "new_tp_reassembler 0x20000" and max_size = "0x20000" and e = ?e] by simp
  have "\<exists>m. tp_entry ?s ?k = Some (its_session (sample_segment 0x1 32), m) \<and> tpm_creation m = 0"
    using tpr.step_entry [where s = "new_tp_reassembler 0x20000" and max_size = "0x20000" and e = ?e and k = ?k]
    by (simp add: sample_segment_def)
  then show ?thesis
    using cleanup_exact [OF wf, of 5001000000 ?k] by (auto simp: milliseconds_def)
qed

section \<open>The timer\<close>

text \<open>
  \<open>process_tp_message\<close> takes two locks one after the other: \<open>cleanup_timer_mutex_\<close> to start the timer,
  \<open>mutex_\<close> for the table; the callback of the timer can run in between. \<open>tp_reach\<close> has the calls one
  after the other, \<open>tp_sys_step\<close> the interleaving, with the calls that are between their two locks. A wait
  that is cancelled by \<open>stop\<close> calls back with an error; the flag of \<open>tp_reach\<close> says whether \<open>stop\<close> has
  cancelled a wait.
\<close>

inductive tp_reach :: "u32 \<Rightarrow> bool \<Rightarrow> 'a tp_reassembler \<Rightarrow> bool" for n where
  start: "tp_reach n False (new_tp_reassembler n)"
| process: "tp_reach n c s \<Longrightarrow> process_tp_message now data a p s = (Ok r, s') \<Longrightarrow> tp_reach n c s'"
| fire: "tp_reach n c s \<Longrightarrow> tpr_cleanup_timer s = Some t \<Longrightarrow> t \<le> now \<Longrightarrow>
    tp_reach n c (cleanup_timer_cbk now False (s\<lparr>tpr_cleanup_timer := None\<rparr>))"
| stop: "tp_reach n c s \<Longrightarrow> tp_reach n (c \<or> tpr_cleanup_timer s \<noteq> None) (stop s)"
| aborted: "tp_reach n c s \<Longrightarrow> tp_reach n c (cleanup_timer_cbk now True s)"

inductive tp_sys_step ::
  "'a tp_reassembler \<times> (bytes \<times> 'a \<times> u16) list \<Rightarrow> 'a tp_reassembler \<times> (bytes \<times> 'a \<times> u16) list \<Rightarrow> bool" where
  enter: "VSOMEIP_FULL_HEADER_SIZE \<le> length data \<Longrightarrow>
    tp_sys_step (s, ws) (cleanup_timer_start now False s, (data, a, p) # ws)"
| body: "(data, a, p) \<in> set ws \<Longrightarrow> process_locked now data a p s = (Ok r, s') \<Longrightarrow>
    tp_sys_step (s, ws) (s', remove1 (data, a, p) ws)"
| fire: "tpr_cleanup_timer s = Some t \<Longrightarrow> t \<le> now \<Longrightarrow>
    tp_sys_step (s, ws) (cleanup_timer_cbk now False (s\<lparr>tpr_cleanup_timer := None\<rparr>), ws)"

lemma process_locked_timer:
  "tpr_cleanup_timer (snd (process_locked now data a p s)) = tpr_cleanup_timer s"
  "tpr_cleanup_timer_running (snd (process_locked now data a p s)) = tpr_cleanup_timer_running s"
  by (auto simp: process_locked_def Let_def split: option.splits prod.splits result.splits bool.splits)

lemma timer_cbk_timer:
  fixes s :: "'a tp_reassembler" and now :: int
  defines "t \<equiv> cleanup_timer_cbk now False (s\<lparr>tpr_cleanup_timer := None\<rparr>)"
  shows "tpr_cleanup_timer_running t \<longleftrightarrow> tpr_cleanup_timer t \<noteq> None"
    "tpr_tp_messages t \<noteq> [] \<Longrightarrow> tpr_cleanup_timer t \<noteq> None"
  by (auto simp: t_def cleanup_timer_cbk_def cleanup_unfinished_messages_def cleanup_timer_start_def Let_def)

text \<open>
  [C23] When calls of \<open>process_tp_message\<close> do not overlap the callback of the timer, the table stays
  well-formed, and until \<open>stop\<close> cancels a wait the flag \<open>cleanup_timer_running_\<close> says whether a wait is
  pending and one is pending whenever a message is under reassembly: no unfinished message is forgotten.
  Once \<open>stop\<close> has cancelled a wait the flag stays set, no wait is ever pending again, and messages that
  are not completed stay in the table.
\<close>

theorem timer_never_forgets:
  assumes "tp_reach n cancelled s"
  shows "wf_tpr s
    \<and> (\<not> cancelled \<longrightarrow> (tpr_cleanup_timer_running s \<longleftrightarrow> tpr_cleanup_timer s \<noteq> None)
        \<and> (tpr_tp_messages s \<noteq> [] \<longrightarrow> tpr_cleanup_timer s \<noteq> None))
    \<and> (cancelled \<longrightarrow> tpr_cleanup_timer_running s \<and> tpr_cleanup_timer s = None)"
  using assms
proof (induction rule: tp_reach.induct)
  case (process c s now data a p r s')
  show ?case
  proof (cases "length data < 16")
    case True
    then show ?thesis using process by (simp add: process_tp_message_def header_sizes)
  next
    case False
    then have s': "s' = snd (process_locked now data a p (cleanup_timer_start now False s))"
      using process.hyps(2) by (simp add: process_tp_message_def header_sizes)
    have "wf_tpr s'" using process_locked_slot [of "cleanup_timer_start now False s" data now a p] process.IH False
      by (simp add: s')
    then show ?thesis
      using process.IH by (auto simp: s' process_locked_timer cleanup_timer_start_def)
  qed
next
  case (fire c s t now)
  have "wf_tpr (cleanup_timer_cbk now False (s\<lparr>tpr_cleanup_timer := None\<rparr>))"
    using timer_cbk_entry(1) [of "s\<lparr>tpr_cleanup_timer := None\<rparr>" now False] fire.IH by (simp add: wf_tpr_def)
  then show ?case using timer_cbk_timer(1,2) [of now s] fire.IH fire.hyps by auto
next
  case (stop c s)
  then show ?case by (auto simp: stop_def wf_tpr_def)
next
  case (aborted c s now)
  then show ?case by (simp add: cleanup_timer_cbk_def)
qed (simp_all add: new_tp_reassembler_def wf_tpr_def)

theorem timer_never_forgets_witness:
  "tpr_cleanup_timer (snd (process_tp_message 0 (sample_segment 0x1 32) (1 :: nat) 30490 (new_tp_reassembler 0x20000)))
     \<noteq> None"
proof -
  let ?s = "snd (process_tp_message 0 (sample_segment 0x1 32) (1 :: nat) 30490 (new_tp_reassembler 0x20000))"
  have "process_tp_message 0 (sample_segment 0x1 32) (1 :: nat) 30490 (new_tp_reassembler 0x20000) = (Ok (False, []), ?s)"
    "tpr_tp_messages ?s \<noteq> []"
    by (simp_all add: process_tp_message_def process_locked_def new_tp_reassembler_def cleanup_timer_start_def
        sample_segment_def header_sizes Let_def)
  with tp_reach.process [OF tp_reach.start this(1)] show ?thesis using timer_never_forgets [of "0x20000" False ?s] by blast
qed

text \<open>
  [C37] With the interleaving the guarantee is lost: a call can find the timer running, the timer can
  expire and find the table empty, and only then does the call insert its message. The state reached
  has a message under reassembly, no pending wait and no call in progress.
\<close>

theorem timer_race:
  "\<exists>s :: nat tp_reassembler. tp_sys_step\<^sup>*\<^sup>* (new_tp_reassembler 0x20000, []) (s, [])
     \<and> tpr_tp_messages s \<noteq> [] \<and> tpr_cleanup_timer s = None \<and> \<not> tpr_cleanup_timer_running s"
proof -
  let ?d = "sample_segment 0x1 32"
  let ?s0 = "new_tp_reassembler 0x20000 :: nat tp_reassembler"
  let ?s1 = "cleanup_timer_start 0 False ?s0"
  let ?s2 = "cleanup_timer_cbk 5000000000 False (?s1\<lparr>tpr_cleanup_timer := None\<rparr>)"
  let ?s3 = "snd (process_locked 5000000001 ?d 1 30490 ?s2)"
  have "tp_sys_step (?s0, []) (?s1, [(?d, 1, 30490)])"
    by (rule tp_sys_step.enter) (simp add: sample_segment_def header_sizes)
  moreover have "tp_sys_step (?s1, [(?d, 1, 30490)]) (?s2, [(?d, 1, 30490)])"
    by (rule tp_sys_step.fire [of _ 5000000000]) (simp_all add: cleanup_timer_start_def new_tp_reassembler_def)
  moreover have "process_locked 5000000001 ?d 1 30490 ?s2 = (Ok (False, []), ?s3)" and ne: "tpr_tp_messages ?s3 \<noteq> []"
    by (simp_all add: process_locked_def cleanup_timer_start_def new_tp_reassembler_def cleanup_timer_cbk_def
        cleanup_unfinished_messages_def Let_def)
  then have "tp_sys_step (?s2, [(?d, 1, 30490)]) (?s3, remove1 (?d, 1, 30490) [(?d, 1, 30490)])"
    by (intro tp_sys_step.body [of ?d 1 30490]) simp_all
  then have "tp_sys_step (?s2, [(?d, 1, 30490)]) (?s3, [])" by simp
  ultimately have "tp_sys_step\<^sup>*\<^sup>* (?s0, []) (?s3, [])" by (meson converse_rtranclp_into_rtranclp rtranclp.rtrancl_refl)
  moreover have "tpr_cleanup_timer ?s3 = None" "\<not> tpr_cleanup_timer_running ?s3"
    unfolding process_locked_timer
    by (simp_all add: cleanup_timer_start_def new_tp_reassembler_def cleanup_timer_cbk_def
        cleanup_unfinished_messages_def Let_def)
  ultimately show ?thesis using ne by blast
qed

end
