(* ===== verification/Sd_Entry.thy ===== *)
theory Sd_Entry
  imports Message
begin

text \<open>
  The entries of a service discovery message (\<open>implementation/service_discovery/src/entry_impl.cpp\<close>,
  \<open>serviceentry_impl.cpp\<close>, \<open>eventgroupentry_impl.cpp\<close>): the classes are records, with the two derived
  classes as record extensions, and an object of the entries array is one of the two. An entry refers
  to its options by two runs of consecutive indices; on the wire a run is its first index and a
  four-bit count.
\<close>

section \<open>The classes\<close>

record entry =
  e_type :: byte
  e_major_version :: byte
  e_service :: u16
  e_instance :: u16
  e_ttl :: u32
  e_options1 :: bytes      \<comment> \<open>\<open>options_[0]\<close>\<close>
  e_options2 :: bytes      \<comment> \<open>\<open>options_[1]\<close>\<close>
  e_num_options1 :: byte
  e_num_options2 :: byte
  e_index1 :: byte
  e_index2 :: byte

record serviceentry = entry +
  se_minor_version :: u32

record eventgroupentry = entry +
  ee_eventgroup :: u16
  ee_reserved :: u16
  ee_counter :: byte

definition FIND_SERVICE :: byte where "FIND_SERVICE = 0x00"
definition OFFER_SERVICE :: byte where "OFFER_SERVICE = 0x01"
definition REQUEST_SERVICE :: byte where "REQUEST_SERVICE = 0x02"
definition FIND_EVENT_GROUP :: byte where "FIND_EVENT_GROUP = 0x04"
definition PUBLISH_EVENTGROUP :: byte where "PUBLISH_EVENTGROUP = 0x05"
definition SUBSCRIBE_EVENTGROUP :: byte where "SUBSCRIBE_EVENTGROUP = 0x06"
definition SUBSCRIBE_EVENTGROUP_ACK :: byte where "SUBSCRIBE_EVENTGROUP_ACK = 0x07"
definition ENTRY_UNKNOWN :: byte where "ENTRY_UNKNOWN = 0xFF"

lemmas entry_types = FIND_SERVICE_def OFFER_SERVICE_def REQUEST_SERVICE_def FIND_EVENT_GROUP_def
  PUBLISH_EVENTGROUP_def SUBSCRIBE_EVENTGROUP_def SUBSCRIBE_EVENTGROUP_ACK_def ENTRY_UNKNOWN_def

definition new_entry :: entry where
  "new_entry =
     \<lparr>e_type = ENTRY_UNKNOWN, e_major_version = 0, e_service = 0, e_instance = 0, e_ttl = 0,
      e_options1 = [], e_options2 = [], e_num_options1 = 0, e_num_options2 = 0, e_index1 = 0, e_index2 = 0\<rparr>"

definition new_serviceentry :: serviceentry where
  "new_serviceentry = entry.extend new_entry (serviceentry.fields 0)"

definition new_eventgroupentry :: eventgroupentry where
  "new_eventgroupentry = entry.extend new_entry (eventgroupentry.fields 0xFFFF 0 0)"

definition is_service_entry :: "'a entry_scheme \<Rightarrow> bool" where
  "is_service_entry e \<longleftrightarrow> e_type e \<le> REQUEST_SERVICE"

definition is_eventgroup_entry :: "'a entry_scheme \<Rightarrow> bool" where
  "is_eventgroup_entry e \<longleftrightarrow> e_type e \<ge> FIND_EVENT_GROUP \<and> e_type e \<le> SUBSCRIBE_EVENTGROUP_ACK"

definition VSOMEIP_MAX_OPTION_RUN :: byte where "VSOMEIP_MAX_OPTION_RUN = 2"

definition get_options :: "byte \<Rightarrow> 'a entry_scheme \<Rightarrow> bytes" where
  "get_options run e =
     (if run > 0 \<and> run \<le> VSOMEIP_MAX_OPTION_RUN
      then (if run = 1 then e_options1 e else e_options2 e) else [])"

definition get_num_options :: "byte \<Rightarrow> 'a entry_scheme \<Rightarrow> byte" where
  "get_num_options run e =
     (if run < 1 \<or> run > VSOMEIP_MAX_OPTION_RUN then 0
      else if run = 1 then e_num_options1 e else e_num_options2 e)"

section \<open>Writing and reading\<close>

definition first_index :: "bytes \<Rightarrow> byte" where
  "first_index run = (if length run > 0 then run ! 0 else 0)"

definition number_of_options :: "'a entry_scheme \<Rightarrow> byte" where
  "number_of_options e =
     push_bit 4 (of_nat (length (e_options1 e))) OR (of_nat (length (e_options2 e)) AND 0x0F)"

definition entry_serialize :: "'a entry_scheme \<Rightarrow> serializer \<Rightarrow> bool \<times> serializer" where
  "entry_serialize e =
     and_s (serialize_u8 (e_type e))
    (and_s (serialize_u8 (first_index (e_options1 e)))
    (and_s (serialize_u8 (first_index (e_options2 e)))
    (and_s (serialize_u8 (number_of_options e))
    (and_s (serialize_u16 (e_service e))
           (serialize_u16 (e_instance e))))))"

definition serviceentry_serialize :: "serviceentry \<Rightarrow> serializer \<Rightarrow> bool \<times> serializer" where
  "serviceentry_serialize e =
     and_s (entry_serialize e)
    (and_s (serialize_u8 (e_major_version e))
    (and_s (serialize_u32 (e_ttl e) True)
           (serialize_u32 (se_minor_version e) False)))"

definition eventgroupentry_serialize :: "eventgroupentry \<Rightarrow> serializer \<Rightarrow> bool \<times> serializer" where
  "eventgroupentry_serialize e =
     and_s (entry_serialize e)
    (and_s (serialize_u8 (e_major_version e))
    (and_s (serialize_u32 (e_ttl e) True)
    (and_s (serialize_u16 0)
           (serialize_u16 (ee_eventgroup e)))))"

text \<open>The indices pushed by \<open>for (uint16_t i = index; i < index + num; ++i)\<close>, cut to eight bits.\<close>

definition option_run :: "byte \<Rightarrow> byte \<Rightarrow> bytes" where
  "option_run index num = map (\<lambda>i. of_nat i) [unat index ..< unat index + unat num]"

definition entry_deserialize :: "'a entry_scheme \<Rightarrow> (deserializer, 'a entry_scheme) action" where
  "entry_deserialize e0 =
     bind_a deserialize_u8 (\<lambda>its_type.
     bind_a deserialize_u8 (\<lambda>index1.
     bind_a deserialize_u8 (\<lambda>index2.
     bind_a deserialize_u8 (\<lambda>its_numbers.
     bind_a deserialize_u16 (\<lambda>service.
     bind_a deserialize_u16 (\<lambda>inst.
     let num1 = drop_bit 4 its_numbers; num2 = its_numbers AND 0xF in
     return_a (e0\<lparr>e_type := its_type, e_index1 := index1, e_index2 := index2,
       e_num_options1 := num1, e_num_options2 := num2,
       e_options1 := e_options1 e0 @ option_run index1 num1,
       e_options2 := e_options2 e0 @ option_run index2 num2,
       e_service := service, e_instance := inst\<rparr>)))))))"

definition serviceentry_deserialize :: "serviceentry \<Rightarrow> (deserializer, serviceentry) action" where
  "serviceentry_deserialize e0 =
     bind_a (entry_deserialize e0) (\<lambda>e.
     bind_a deserialize_u8 (\<lambda>major.
     bind_a (deserialize_u32 True) (\<lambda>ttl.
     bind_a (deserialize_u32 False) (\<lambda>minor.
     return_a (e\<lparr>e_major_version := major, e_ttl := ttl, se_minor_version := minor\<rparr>)))))"

definition eventgroupentry_deserialize :: "eventgroupentry \<Rightarrow> (deserializer, eventgroupentry) action" where
  "eventgroupentry_deserialize e0 =
     bind_a (entry_deserialize e0) (\<lambda>e.
     bind_a deserialize_u8 (\<lambda>major.
     bind_a (deserialize_u32 True) (\<lambda>ttl.
     bind_a deserialize_u16 (\<lambda>reserved.
     bind_a deserialize_u16 (\<lambda>eventgroup.
     return_a (e\<lparr>e_major_version := major, e_ttl := ttl, ee_reserved := reserved, ee_eventgroup := eventgroup\<rparr>))))))"

text \<open>The array of a message holds objects of the two derived classes.\<close>

datatype sd_entry = Service_entry serviceentry | Eventgroup_entry eventgroupentry

fun serialize_entry :: "sd_entry \<Rightarrow> serializer \<Rightarrow> bool \<times> serializer" where
  "serialize_entry (Service_entry e) = serviceentry_serialize e"
| "serialize_entry (Eventgroup_entry e) = eventgroupentry_serialize e"

definition deserialize_entry :: "(deserializer, sd_entry) action" where
  "deserialize_entry d =
     (case look_ahead_u8 0 d of
        Ok t \<Rightarrow>
          (if t = FIND_SERVICE \<or> t = OFFER_SERVICE \<or> t = REQUEST_SERVICE
           then map_a Service_entry (serviceentry_deserialize new_serviceentry) d
           else if t = FIND_EVENT_GROUP \<or> t = PUBLISH_EVENTGROUP \<or> t = SUBSCRIBE_EVENTGROUP
                  \<or> t = SUBSCRIBE_EVENTGROUP_ACK
           then map_a Eventgroup_entry (eventgroupentry_deserialize new_eventgroupentry) d
           else (Refused, d))
      | Refused \<Rightarrow> (Refused, d)
      | Undefined \<Rightarrow> (Undefined, d))"

section \<open>The wire format\<close>

definition wire_entry_base :: "'a entry_scheme \<Rightarrow> bytes" where
  "wire_entry_base e =
     [e_type e] @ [first_index (e_options1 e)] @ [first_index (e_options2 e)] @ [number_of_options e]
       @ be16 (e_service e) @ be16 (e_instance e)"

definition wire_serviceentry :: "serviceentry \<Rightarrow> bytes" where
  "wire_serviceentry e =
     wire_entry_base e @ [e_major_version e] @ be24 (e_ttl e) @ be32 (se_minor_version e)"

definition wire_eventgroupentry :: "eventgroupentry \<Rightarrow> bytes" where
  "wire_eventgroupentry e =
     wire_entry_base e @ [e_major_version e] @ be24 (e_ttl e) @ be16 0 @ be16 (ee_eventgroup e)"

fun wire_entry :: "sd_entry \<Rightarrow> bytes" where
  "wire_entry (Service_entry e) = wire_serviceentry e"
| "wire_entry (Eventgroup_entry e) = wire_eventgroupentry e"

lemma length_wire_entry_base [simp]: "length (wire_entry_base e) = 8"
  by (simp add: wire_entry_base_def)

lemma length_wire_entry [simp]: "length (wire_entry e) = 16"
  by (cases e) (simp_all add: wire_serviceentry_def wire_eventgroupentry_def)

lemma appends_entry_base [wire_simps]: "appends (entry_serialize e) (wire_entry_base e)"
  unfolding entry_serialize_def wire_entry_base_def by (intro wire_simps)

lemma appends_serviceentry [wire_simps]: "appends (serviceentry_serialize e) (wire_serviceentry e)"
  unfolding serviceentry_serialize_def wire_serviceentry_def by (intro wire_simps)

lemma appends_eventgroupentry [wire_simps]: "appends (eventgroupentry_serialize e) (wire_eventgroupentry e)"
  unfolding eventgroupentry_serialize_def wire_eventgroupentry_def by (intro wire_simps)

lemma appends_entry [wire_simps]: "appends (serialize_entry e) (wire_entry e)"
  by (cases e) (simp_all add: wire_simps)

lemma safe_entry_base [safe_intros]: "safe_action wf_des (entry_deserialize e0)"
  unfolding entry_deserialize_def Let_def by (intro safe_intros)

lemma safe_serviceentry [safe_intros]: "safe_action wf_des (serviceentry_deserialize e0)"
  unfolding serviceentry_deserialize_def by (intro safe_intros)

lemma safe_eventgroupentry [safe_intros]: "safe_action wf_des (eventgroupentry_deserialize e0)"
  unfolding eventgroupentry_deserialize_def by (intro safe_intros)

lemma consumes_entry_base [consumes_intros]: "consumes 8 (entry_deserialize e0)"
proof -
  have "consumes (1 + (1 + (1 + (1 + (2 + (2 + 0)))))) (entry_deserialize e0)"
    unfolding entry_deserialize_def Let_def by (intro consumes_intros)
  then show ?thesis by simp
qed

lemma consumes_serviceentry [consumes_intros]: "consumes 16 (serviceentry_deserialize e0)"
proof -
  have "consumes (8 + (1 + (3 + (4 + 0)))) (serviceentry_deserialize e0)"
    unfolding serviceentry_deserialize_def by (intro consumes_intros)
  then show ?thesis by simp
qed

lemma consumes_eventgroupentry [consumes_intros]: "consumes 16 (eventgroupentry_deserialize e0)"
proof -
  have "consumes (8 + (1 + (3 + (2 + (2 + 0))))) (eventgroupentry_deserialize e0)"
    unfolding eventgroupentry_deserialize_def by (intro consumes_intros)
  then show ?thesis by simp
qed

section \<open>What is read back\<close>

text \<open>
  The entry a reader gets: the runs are rebuilt from their first index and the low four bits of their
  length, the TTL has 24 bits, and the counter of an eventgroup entry is not transmitted.
\<close>

definition reread :: "'a entry_scheme \<Rightarrow> 'a entry_scheme" where
  "reread e =
     (let n1 = of_nat (length (e_options1 e) mod 16); n2 = of_nat (length (e_options2 e) mod 16) in
      e\<lparr>e_index1 := first_index (e_options1 e), e_index2 := first_index (e_options2 e),
        e_num_options1 := n1, e_num_options2 := n2,
        e_options1 := option_run (first_index (e_options1 e)) n1,
        e_options2 := option_run (first_index (e_options2 e)) n2,
        e_ttl := take_bit 24 (e_ttl e)\<rparr>)"

definition reread_eventgroup :: "eventgroupentry \<Rightarrow> eventgroupentry" where
  "reread_eventgroup e = (reread e)\<lparr>ee_reserved := 0, ee_counter := 0\<rparr>"

lemma nibbles:
  fixes n m :: nat
  defines "b \<equiv> push_bit 4 (of_nat n) OR (of_nat m AND 0x0F) :: byte"
  shows "drop_bit 4 b = of_nat (n mod 16)" "b AND 0xF = of_nat (m mod 16)"
proof -
  have mask: "(0x0F :: byte) = mask 4" by (simp add: mask_eq_exp_minus_1)
  have tb: "of_nat (k mod 16) = (take_bit 4 (of_nat k) :: byte)" for k
    using of_nat_take_bit [of 4 k, where 'a = byte] by (simp add: take_bit_eq_mod)
  show "drop_bit 4 b = of_nat (n mod 16)" unfolding b_def tb mask
    by (rule bit_word_eqI) (auto simp: bit_simps)
  show "b AND 0xF = of_nat (m mod 16)" unfolding b_def tb mask
    by (rule bit_word_eqI) (auto simp: bit_simps)
qed

lemma number_nibbles:
  "drop_bit 4 (number_of_options e) = of_nat (length (e_options1 e) mod 16)"
  "number_of_options e AND 0xF = of_nat (length (e_options2 e) mod 16)"
  unfolding number_of_options_def by (rule nibbles)+

lemma be24_take_bit [simp]: "be24 (take_bit 24 v) = be24 v"
  unfolding be24_def list.inject
  by (intro conjI bit_word_eqI; auto simp: byteorder_defs word_bits dest: bit_imp_le_length)

text \<open>The fields the base class reads, put into an object \<open>e0\<close>.\<close>

definition entry_read :: "'a entry_scheme \<Rightarrow> 'b entry_scheme \<Rightarrow> 'b entry_scheme" where
  "entry_read e e0 =
     (let n1 = of_nat (length (e_options1 e) mod 16); n2 = of_nat (length (e_options2 e) mod 16) in
      e0\<lparr>e_type := e_type e, e_index1 := first_index (e_options1 e), e_index2 := first_index (e_options2 e),
        e_num_options1 := n1, e_num_options2 := n2,
        e_options1 := e_options1 e0 @ option_run (first_index (e_options1 e)) n1,
        e_options2 := e_options2 e0 @ option_run (first_index (e_options2 e)) n2,
        e_service := e_service e, e_instance := e_instance e\<rparr>)"

lemma entry_bind_wire:
  assumes "wf_des d" "unread d = wire_entry_base e @ rest"
  shows "bind_a (entry_deserialize e0) f d = f (entry_read e e0) (skip_des 8 d)"
    "wf_des (skip_des 8 d)" "unread (skip_des 8 d) = rest"
proof -
  note w = assms(2) [unfolded wire_entry_base_def append_assoc]
  note s1 = c8.bind_wire [OF assms(1) TrueI w]
  note s2 = c8.bind_wire [OF s1(2) TrueI s1(3)]
  note s3 = c8.bind_wire [OF s2(2) TrueI s2(3)]
  note s4 = c8.bind_wire [OF s3(2) TrueI s3(3)]
  note s5 = c16.bind_wire [OF s4(2) TrueI s4(3)]
  note s6 = c16.bind_wire [OF s5(2) TrueI s5(3)]
  have "entry_deserialize e0 d = (Ok (entry_read e e0), skip_des 8 d)"
    unfolding entry_deserialize_def
    by (simp only: s1(1) s2(1) s3(1) s4(1) s5(1) s6(1))
      (simp add: Let_def entry_read_def number_nibbles, simp add: eval_nat_numeral)
  then show "bind_a (entry_deserialize e0) f d = f (entry_read e e0) (skip_des 8 d)" by (rule bind_a_Ok)
  show "wf_des (skip_des 8 d)" "unread (skip_des 8 d) = rest" using unread_append [OF assms] by simp_all
qed

lemma serviceentry_deserialize_wire:
  assumes "wf_des d" "unread d = wire_serviceentry e @ rest"
  shows "serviceentry_deserialize new_serviceentry d = (Ok (reread e), skip_des 16 d)"
proof -
  have w: "unread d = wire_entry_base e @ ([e_major_version e] @ be24 (take_bit 24 (e_ttl e)) @ be32 (se_minor_version e) @ rest)"
    using assms(2) by (simp add: wire_serviceentry_def)
  have g: "take_bit 24 (take_bit 24 (e_ttl e)) = take_bit 24 (e_ttl e)" by simp
  note s0 = entry_bind_wire [OF assms(1) w]
  note s1 = c8.bind_wire [OF s0(2) TrueI s0(3)]
  note s2 = c24.bind_wire [OF s1(2) g s1(3)]
  note s3 = c32.bind_wire [OF s2(2) TrueI s2(3)]
  show ?thesis
    unfolding serviceentry_deserialize_def
    by (simp only: s0(1) s1(1) s2(1) s3(1))
      (simp add: reread_def entry_read_def new_serviceentry_def new_entry_def entry.defs serviceentry.defs Let_def)
qed

lemma eventgroupentry_deserialize_wire:
  assumes "wf_des d" "unread d = wire_eventgroupentry e @ rest"
  shows "eventgroupentry_deserialize new_eventgroupentry d = (Ok (reread_eventgroup e), skip_des 16 d)"
proof -
  have w: "unread d = wire_entry_base e
      @ ([e_major_version e] @ be24 (take_bit 24 (e_ttl e)) @ be16 0 @ be16 (ee_eventgroup e) @ rest)"
    using assms(2) by (simp add: wire_eventgroupentry_def)
  have g: "take_bit 24 (take_bit 24 (e_ttl e)) = take_bit 24 (e_ttl e)" by simp
  note s0 = entry_bind_wire [OF assms(1) w]
  note s1 = c8.bind_wire [OF s0(2) TrueI s0(3)]
  note s2 = c24.bind_wire [OF s1(2) g s1(3)]
  note s3 = c16.bind_wire [OF s2(2) TrueI s2(3)]
  note s4 = c16.bind_wire [OF s3(2) TrueI s3(3)]
  show ?thesis
    unfolding eventgroupentry_deserialize_def
    by (simp only: s0(1) s1(1) s2(1) s3(1) s4(1))
      (simp add: reread_eventgroup_def reread_def entry_read_def new_eventgroupentry_def new_entry_def
        entry.defs eventgroupentry.defs Let_def)
qed

fun reread_entry :: "sd_entry \<Rightarrow> sd_entry" where
  "reread_entry (Service_entry e) = Service_entry (reread e)"
| "reread_entry (Eventgroup_entry e) = Eventgroup_entry (reread_eventgroup e)"

fun entry_type_ok :: "sd_entry \<Rightarrow> bool" where
  "entry_type_ok (Service_entry e) \<longleftrightarrow> e_type e \<in> {FIND_SERVICE, OFFER_SERVICE, REQUEST_SERVICE}"
| "entry_type_ok (Eventgroup_entry e) \<longleftrightarrow>
     e_type e \<in> {FIND_EVENT_GROUP, PUBLISH_EVENTGROUP, SUBSCRIBE_EVENTGROUP, SUBSCRIBE_EVENTGROUP_ACK}"

lemma look_ahead_unread:
  assumes "wf_des d" "i < des_remaining d"
  shows "look_ahead_u8 i d = Ok (unread d ! i)"
  using assms by (simp add: look_ahead_u8_def wf_des_def unread_def)

lemma deserialize_entry_wire:
  assumes "wf_des d" "unread d = wire_entry e @ rest" "entry_type_ok e"
  shows "deserialize_entry d = (Ok (reread_entry e), skip_des 16 d)"
proof -
  have "16 \<le> des_remaining d" using unread_append(1) [OF assms(1,2)] by simp
  then have la: "look_ahead_u8 0 d = Ok (wire_entry e ! 0)"
    using look_ahead_unread [OF assms(1), of 0] assms(2) by (simp add: nth_append)
  show ?thesis
  proof (cases e)
    case (Service_entry s)
    then have "map_a Service_entry (serviceentry_deserialize new_serviceentry) d
        = (Ok (Service_entry (reread s)), skip_des 16 d)"
      using serviceentry_deserialize_wire [of d s rest] assms by (simp add: map_a_def)
    then show ?thesis using la assms(3) Service_entry
      by (simp add: deserialize_entry_def wire_serviceentry_def wire_entry_base_def)
  next
    case (Eventgroup_entry g)
    then have "map_a Eventgroup_entry (eventgroupentry_deserialize new_eventgroupentry) d
        = (Ok (Eventgroup_entry (reread_eventgroup g)), skip_des 16 d)"
      using eventgroupentry_deserialize_wire [of d g rest] assms by (simp add: map_a_def)
    then show ?thesis using la assms(3) Eventgroup_entry
      by (auto simp: deserialize_entry_def wire_eventgroupentry_def wire_entry_base_def entry_types)
  qed
qed

lemma safe_entry_nonempty:
  assumes "wf_des d" "0 < des_remaining d"
  shows "fst (deserialize_entry d) \<noteq> Undefined" "wf_des (snd (deserialize_entry d))"
proof -
  note s = safe_actionD [OF safe_map [OF safe_serviceentry] assms(1), of Service_entry new_serviceentry]
    safe_actionD [OF safe_map [OF safe_eventgroupentry] assms(1), of Eventgroup_entry new_eventgroupentry]
  show "fst (deserialize_entry d) \<noteq> Undefined"
    using s(1,3) by (simp add: deserialize_entry_def look_ahead_unread [OF assms])
  show "wf_des (snd (deserialize_entry d))"
    using s(2,4) assms(1) by (simp add: deserialize_entry_def look_ahead_unread [OF assms])
qed

lemma deserialize_entry_consumes:
  assumes "wf_des d" "deserialize_entry d = (Ok e, d')"
  shows "16 \<le> des_remaining d" "d' = skip_des 16 d"
proof -
  have "map_a Service_entry (serviceentry_deserialize new_serviceentry) d = (Ok e, d')
      \<or> map_a Eventgroup_entry (eventgroupentry_deserialize new_eventgroupentry) d = (Ok e, d')"
    using assms(2) by (auto simp: deserialize_entry_def split: result.splits if_splits)
  then have "16 \<le> des_remaining d \<and> d' = skip_des 16 d"
    by (elim disjE) (erule consumesD [OF consumes_map [OF consumes_serviceentry] assms(1)],
        erule consumesD [OF consumes_map [OF consumes_eventgroupentry] assms(1)])
  then show "16 \<le> des_remaining d" "d' = skip_des 16 d" by blast+
qed

section \<open>Runs of options\<close>

text \<open>A run in the sense of the protocol: consecutive indices.\<close>

definition is_run :: "bytes \<Rightarrow> bool" where
  "is_run xs \<longleftrightarrow> xs = map (\<lambda>i. of_nat i) [unat (first_index xs) ..< unat (first_index xs) + length xs]"

lemma length_option_run [simp]: "length (option_run i n) = unat n"
  by (simp add: option_run_def)

lemma unat_count: "unat (of_nat (n mod 16) :: byte) = n mod 16"
proof -
  have "n mod 16 < 2 ^ LENGTH(8)" using mod_less_divisor [of 16 n] by simp
  then show ?thesis by (simp add: unat_of_nat take_bit_eq_mod)
qed

lemma option_run_is_run:
  assumes "is_run xs" "length xs < 16"
  shows "option_run (first_index xs) (of_nat (length xs)) = xs"
  unfolding option_run_def unat_count [of "length xs", unfolded mod_less [OF assms(2)]] by (rule assms(1) [unfolded is_run_def, symmetric])

fun entry_runs :: "sd_entry \<Rightarrow> bytes \<times> bytes" where
  "entry_runs (Service_entry e) = (e_options1 e, e_options2 e)"
| "entry_runs (Eventgroup_entry e) = (e_options1 e, e_options2 e)"

lemma reread_runs:
  "entry_runs (reread_entry e) =
     (option_run (first_index (fst (entry_runs e))) (of_nat (length (fst (entry_runs e)) mod 16)),
      option_run (first_index (snd (entry_runs e))) (of_nat (length (snd (entry_runs e)) mod 16)))"
  by (cases e) (simp_all add: reread_eventgroup_def reread_def Let_def)

text \<open>
  The entries the wire format can express, and such an entry with the fields for indices and numbers
  that a reader sets from the runs.
\<close>

definition runs_representable :: "'a entry_scheme \<Rightarrow> bool" where
  "runs_representable e \<longleftrightarrow> is_run (e_options1 e) \<and> length (e_options1 e) < 16
     \<and> is_run (e_options2 e) \<and> length (e_options2 e) < 16"

fun representable :: "sd_entry \<Rightarrow> bool" where
  "representable (Service_entry e) \<longleftrightarrow> runs_representable e \<and> e_ttl e < 2 ^ 24"
| "representable (Eventgroup_entry e) \<longleftrightarrow> runs_representable e \<and> e_ttl e < 2 ^ 24 \<and> ee_reserved e = 0 \<and> ee_counter e = 0"

definition indexed :: "'a entry_scheme \<Rightarrow> 'a entry_scheme" where
  "indexed e = e\<lparr>e_index1 := first_index (e_options1 e), e_index2 := first_index (e_options2 e),
     e_num_options1 := of_nat (length (e_options1 e)), e_num_options2 := of_nat (length (e_options2 e))\<rparr>"

fun indexed_entry :: "sd_entry \<Rightarrow> sd_entry" where
  "indexed_entry (Service_entry e) = Service_entry (indexed e)"
| "indexed_entry (Eventgroup_entry e) = Eventgroup_entry (indexed e)"

lemma ttl_24: "(v :: u32) < 2 ^ 24 \<Longrightarrow> take_bit 24 v = v"
  by (simp add: word_unat_eq_iff unsigned_take_bit_eq take_bit_nat_eq_self word_less_nat_alt)

lemma reread_indexed:
  assumes "runs_representable e" "e_ttl e < 2 ^ 24"
  shows "reread e = indexed e"
proof -
  have "option_run (first_index (e_options1 e)) (of_nat (length (e_options1 e))) = e_options1 e"
    "option_run (first_index (e_options2 e)) (of_nat (length (e_options2 e))) = e_options2 e"
    using assms(1) by (auto simp: runs_representable_def intro: option_run_is_run)
  then show ?thesis using assms by (simp add: reread_def indexed_def Let_def runs_representable_def ttl_24)
qed

lemma reread_representable: "representable e \<Longrightarrow> reread_entry e = indexed_entry e"
  by (cases e) (simp_all add: reread_eventgroup_def reread_indexed, simp add: indexed_def)

text \<open>
  [C19] An entry of a known type is written as 16 bytes, and reading them, whatever follows, gives an entry
  with the same type, service, instance, versions and eventgroup. The TTL is cut to 24 bits, the reserved
  field and the counter of an eventgroup entry are not transmitted and read as zero, and of a run of
  options the reader gets the first index and the number of options modulo 16 (\<open>reread_entry\<close>). An entry
  the format can express, with a TTL below \<open>2 ^ 24\<close>, runs of at most 15 consecutive indices and neither
  counter nor reserved field, is read back the same.
\<close>

theorem entry_round_trip:
  assumes "entry_type_ok e"
  shows "\<exists>s. serialize_entry e (new_serializer t) = (True, s) \<and> length (ser_data s) = 16
    \<and> fst (deserialize_entry (new_deserializer (ser_data s @ rest) t')) = Ok (reread_entry e)
    \<and> (representable e \<longrightarrow> fst (deserialize_entry (new_deserializer (ser_data s @ rest) t')) = Ok (indexed_entry e))
    \<and> length (fst (entry_runs (reread_entry e))) = length (fst (entry_runs e)) mod 16
    \<and> length (snd (entry_runs (reread_entry e))) = length (snd (entry_runs e)) mod 16"
proof -
  have "serialize_entry e (new_serializer t) = (True, (new_serializer t)\<lparr>ser_data := wire_entry e\<rparr>)"
    using appendsD [OF appends_entry] by (simp add: new_serializer_def)
  moreover have "fst (deserialize_entry (new_deserializer (wire_entry e @ rest) t')) = Ok (reread_entry e)"
    using deserialize_entry_wire [of "new_deserializer (wire_entry e @ rest) t'" e rest] assms by simp
  ultimately show ?thesis using reread_representable [of e] by (simp add: reread_runs unat_count)
qed

text \<open>An offer with two options in its first run.\<close>

definition sample_offer :: serviceentry where
  "sample_offer = new_serviceentry\<lparr>e_type := OFFER_SERVICE, e_service := 0x1234, e_instance := 1, e_ttl := 3,
     e_major_version := 1, e_options1 := [2, 3]\<rparr>"

theorem entry_round_trip_witness:
  "\<exists>s. serialize_entry (Service_entry sample_offer) (new_serializer 0) = (True, s)
    \<and> fst (deserialize_entry (new_deserializer (ser_data s @ [7]) 0))
     = Ok (Service_entry (sample_offer\<lparr>e_index1 := 2, e_num_options1 := 2\<rparr>))"
proof -
  have "entry_type_ok (Service_entry sample_offer)" by (simp add: sample_offer_def)
  moreover have "representable (Service_entry sample_offer)" "indexed sample_offer = sample_offer\<lparr>e_index1 := 2, e_num_options1 := 2\<rparr>"
    by (simp_all add: runs_representable_def is_run_def indexed_def sample_offer_def first_index_def new_serviceentry_def new_entry_def
        entry.defs serviceentry.defs upt_conv_Cons)
  ultimately show ?thesis using entry_round_trip [of "Service_entry sample_offer" 0 "[7]" 0] by auto
qed

end
