(* ===== verification/Sd_Option.thy ===== *)
theory Sd_Option
  imports Sd_Entry Keyed "HOL-Library.List_Lexorder"
begin

text \<open>
  The options of a service discovery message (\<open>implementation/service_discovery/src/*_option_impl.cpp\<close>).
  The base class is a record, an object is a constructor for its class. A \<open>std::map\<close> of strings is an
  association list in the order of its keys, a \<open>std::set\<close> of clients a sorted list. \<open>std::string\<close> and
  the bytes of a buffer are both lists of bytes, compared as unsigned values.
\<close>

section \<open>The classes\<close>

record option_impl =
  o_length :: u16
  o_type :: byte

definition CONFIGURATION :: byte where "CONFIGURATION = 0x01"
definition LOAD_BALANCING :: byte where "LOAD_BALANCING = 0x02"
definition PROTECTION :: byte where "PROTECTION = 0x03"
definition IP4_ENDPOINT :: byte where "IP4_ENDPOINT = 0x04"
definition IP6_ENDPOINT :: byte where "IP6_ENDPOINT = 0x06"
definition IP4_MULTICAST :: byte where "IP4_MULTICAST = 0x14"
definition IP6_MULTICAST :: byte where "IP6_MULTICAST = 0x16"
definition SELECTIVE :: byte where "SELECTIVE = 0x20"
definition OPTION_UNKNOWN :: byte where "OPTION_UNKNOWN = 0xFF"
definition LAYER_FOUR_TCP :: byte where "LAYER_FOUR_TCP = 0x06"
definition LAYER_FOUR_UDP :: byte where "LAYER_FOUR_UDP = 0x11"
definition LAYER_FOUR_UNKNOWN :: byte where "LAYER_FOUR_UNKNOWN = 0xFF"
definition VSOMEIP_SD_IPV4_OPTION_LENGTH :: u16 where "VSOMEIP_SD_IPV4_OPTION_LENGTH = 0x0009"
definition VSOMEIP_SD_IPV6_OPTION_LENGTH :: u16 where "VSOMEIP_SD_IPV6_OPTION_LENGTH = 0x0015"

lemmas option_types = CONFIGURATION_def LOAD_BALANCING_def PROTECTION_def IP4_ENDPOINT_def IP6_ENDPOINT_def
  IP4_MULTICAST_def IP6_MULTICAST_def SELECTIVE_def OPTION_UNKNOWN_def

type_synonym configuration = "(bytes \<times> bytes) list"

datatype sd_option =
    Plain_option option_impl
  | Configuration_option option_impl configuration
  | Load_balancing_option option_impl u16 u16           \<comment> \<open>\<open>priority_\<close>, \<open>weight_\<close>\<close>
  | Protection_option option_impl u32 u32               \<comment> \<open>\<open>counter_\<close>, \<open>crc_\<close>\<close>
  | Ipv4_option option_impl byte u16 bytes              \<comment> \<open>\<open>protocol_\<close>, \<open>port_\<close>, \<open>address_\<close>\<close>
  | Ipv6_option option_impl byte u16 bytes
  | Selective_option option_impl "u16 list"             \<comment> \<open>\<open>clients_\<close>\<close>

fun option_base :: "sd_option \<Rightarrow> option_impl" where
  "option_base (Plain_option b) = b"
| "option_base (Configuration_option b c) = b"
| "option_base (Load_balancing_option b p w) = b"
| "option_base (Protection_option b c r) = b"
| "option_base (Ipv4_option b p q a) = b"
| "option_base (Ipv6_option b p q a) = b"
| "option_base (Selective_option b c) = b"

definition option_get_length :: "sd_option \<Rightarrow> u16" where
  "option_get_length o1 = o_length (option_base o1)"

definition option_get_type :: "sd_option \<Rightarrow> byte" where
  "option_get_type o1 = o_type (option_base o1)"

definition option_get_size :: "sd_option \<Rightarrow> u32" where
  "option_get_size o1 = ucast (option_get_length o1) + 3"

definition new_option :: option_impl where
  "new_option = \<lparr>o_length = 0, o_type = OPTION_UNKNOWN\<rparr>"

definition new_configuration_option :: sd_option where
  "new_configuration_option = Configuration_option (new_option\<lparr>o_length := 2, o_type := CONFIGURATION\<rparr>) []"

definition new_load_balancing_option :: sd_option where
  "new_load_balancing_option =
     Load_balancing_option (new_option\<lparr>o_length := 1 + 2 + 2, o_type := LOAD_BALANCING\<rparr>) 0 0"

definition new_protection_option :: sd_option where
  "new_protection_option = Protection_option (new_option\<lparr>o_length := 1 + 4 + 4, o_type := PROTECTION\<rparr>) 0 0"

definition new_selective_option :: sd_option where
  "new_selective_option = Selective_option (new_option\<lparr>o_length := 1, o_type := SELECTIVE\<rparr>) []"

definition ip_protocol :: "bool \<Rightarrow> byte" where
  "ip_protocol is_reliable = (if is_reliable then LAYER_FOUR_TCP else LAYER_FOUR_UDP)"

text \<open>\<open>is_multicast\<close> is what the address class of the I/O library says of the address.\<close>

definition new_ipv4_option :: "bool \<Rightarrow> bytes \<Rightarrow> u16 \<Rightarrow> bool \<Rightarrow> sd_option" where
  "new_ipv4_option is_multicast address port is_reliable =
     Ipv4_option \<lparr>o_length = 1 + 4 + 1 + 1 + 2, o_type = (if is_multicast then IP4_MULTICAST else IP4_ENDPOINT)\<rparr>
       (ip_protocol is_reliable) port address"

definition new_ipv6_option :: "bool \<Rightarrow> bytes \<Rightarrow> u16 \<Rightarrow> bool \<Rightarrow> sd_option" where
  "new_ipv6_option is_multicast address port is_reliable =
     Ipv6_option \<lparr>o_length = 1 + 16 + 1 + 1 + 2, o_type = (if is_multicast then IP6_MULTICAST else IP6_ENDPOINT)\<rparr>
       (ip_protocol is_reliable) port address"

text \<open>\<open>set_address\<close> gives the option the type that belongs to the new address.\<close>

definition ipv4_set_address :: "(bytes \<Rightarrow> bool) \<Rightarrow> bytes \<Rightarrow> option_impl \<times> byte \<times> u16 \<times> bytes \<Rightarrow> sd_option" where
  "ipv4_set_address is_multicast address = (\<lambda>(b, protocol, port, _).
     Ipv4_option (b\<lparr>o_type := if is_multicast address then IP4_MULTICAST else IP4_ENDPOINT\<rparr>) protocol port address)"

definition ipv6_set_address :: "(bytes \<Rightarrow> bool) \<Rightarrow> bytes \<Rightarrow> option_impl \<times> byte \<times> u16 \<times> bytes \<Rightarrow> sd_option" where
  "ipv6_set_address is_multicast address = (\<lambda>(b, protocol, port, _).
     Ipv6_option (b\<lparr>o_type := if is_multicast address then IP6_MULTICAST else IP6_ENDPOINT\<rparr>) protocol port address)"

section \<open>Comparison\<close>

text \<open>
  \<open>operator==\<close> is virtual; it compares type and length and then casts the other object to the own class.
  The cast of an object of another class throws: \<open>None\<close>.
\<close>

definition option_eq :: "option_impl \<Rightarrow> option_impl \<Rightarrow> bool" where
  "option_eq a b \<longleftrightarrow> o_type a = o_type b \<and> o_length a = o_length b"

definition ip_option_eq :: "option_impl \<Rightarrow> byte \<Rightarrow> u16 \<Rightarrow> sd_option \<Rightarrow> bool option" where
  "ip_option_eq b protocol port other =
     (if option_eq b (option_base other)
      then (case other of
              Ipv4_option _ protocol' port' _ \<Rightarrow> Some (protocol = protocol' \<and> port = port')
            | Ipv6_option _ protocol' port' _ \<Rightarrow> Some (protocol = protocol' \<and> port = port')
            | _ \<Rightarrow> None)
      else Some False)"

definition ipv4_option_eq :: "option_impl \<Rightarrow> byte \<Rightarrow> u16 \<Rightarrow> bytes \<Rightarrow> sd_option \<Rightarrow> bool option" where
  "ipv4_option_eq b protocol port address other =
     (case ip_option_eq b protocol port other of
        None \<Rightarrow> None
      | Some False \<Rightarrow> Some False
      | Some True \<Rightarrow> (case other of Ipv4_option _ _ _ address' \<Rightarrow> Some (address = address') | _ \<Rightarrow> None))"

definition ipv6_option_eq :: "option_impl \<Rightarrow> byte \<Rightarrow> u16 \<Rightarrow> bytes \<Rightarrow> sd_option \<Rightarrow> bool option" where
  "ipv6_option_eq b protocol port address other =
     (case ip_option_eq b protocol port other of
        None \<Rightarrow> None
      | Some False \<Rightarrow> Some False
      | Some True \<Rightarrow> (case other of Ipv6_option _ _ _ address' \<Rightarrow> Some (address = address') | _ \<Rightarrow> None))"

definition configuration_option_eq :: "option_impl \<Rightarrow> configuration \<Rightarrow> sd_option \<Rightarrow> bool option" where
  "configuration_option_eq b configuration other =
     (if option_eq b (option_base other)
      then (case other of Configuration_option _ configuration' \<Rightarrow> Some (configuration = configuration') | _ \<Rightarrow> None)
      else Some False)"

definition load_balancing_option_eq :: "option_impl \<Rightarrow> u16 \<Rightarrow> u16 \<Rightarrow> sd_option \<Rightarrow> bool option" where
  "load_balancing_option_eq b priority weight other =
     (if option_eq b (option_base other)
      then (case other of Load_balancing_option _ priority' weight' \<Rightarrow> Some (priority = priority' \<and> priority = weight')
            | _ \<Rightarrow> None)
      else Some False)"

definition protection_option_eq :: "option_impl \<Rightarrow> u32 \<Rightarrow> u32 \<Rightarrow> sd_option \<Rightarrow> bool option" where
  "protection_option_eq b counter crc other =
     (if option_eq b (option_base other)
      then (case other of Protection_option _ counter' crc' \<Rightarrow> Some (counter = counter' \<and> crc = crc') | _ \<Rightarrow> None)
      else Some False)"

definition selective_option_eq :: "option_impl \<Rightarrow> u16 list \<Rightarrow> sd_option \<Rightarrow> bool option" where
  "selective_option_eq b clients other =
     (if option_eq b (option_base other)
      then (case other of Selective_option _ clients' \<Rightarrow> Some (clients = clients') | _ \<Rightarrow> None)
      else Some False)"

fun option_equals :: "sd_option \<Rightarrow> sd_option \<Rightarrow> bool option" where
  "option_equals (Plain_option b) y = Some (option_eq b (option_base y))"
| "option_equals (Configuration_option b c) y = configuration_option_eq b c y"
| "option_equals (Load_balancing_option b p w) y = load_balancing_option_eq b p w y"
| "option_equals (Protection_option b c r) y = protection_option_eq b c r y"
| "option_equals (Ipv4_option b p q a) y = ipv4_option_eq b p q a y"
| "option_equals (Ipv6_option b p q a) y = ipv6_option_eq b p q a y"
| "option_equals (Selective_option b c) y = selective_option_eq b c y"

lemmas option_eq_defs = option_eq_def ip_option_eq_def ipv4_option_eq_def ipv6_option_eq_def
  configuration_option_eq_def load_balancing_option_eq_def protection_option_eq_def selective_option_eq_def

section \<open>Configuration items and selected clients\<close>

fun map_put :: "bytes \<Rightarrow> bytes \<Rightarrow> configuration \<Rightarrow> configuration" where
  "map_put k v [] = [(k, v)]"
| "map_put k v ((k', v') # m) =
     (if k < k' then (k, v) # (k', v') # m
      else if k = k' then (k, v) # m
      else (k', v') # map_put k v m)"

definition item_size :: "bytes \<Rightarrow> bytes \<Rightarrow> nat" where
  "item_size k v = length k + length v + 2"

definition add_item :: "bytes \<Rightarrow> bytes \<Rightarrow> option_impl \<times> configuration \<Rightarrow> option_impl \<times> configuration" where
  "add_item key val = (\<lambda>(b, c).
     (b\<lparr>o_length := o_length b + of_nat (item_size key val)\<rparr>, map_put key val c))"

definition remove_item :: "bytes \<Rightarrow> option_impl \<times> configuration \<Rightarrow> option_impl \<times> configuration" where
  "remove_item key = (\<lambda>(b, c).
     case map_of c key of
       Some val \<Rightarrow> (b\<lparr>o_length := o_length b - of_nat (item_size key val)\<rparr>, AList.delete key c)
     | None \<Rightarrow> (b, c))"

definition get_keys :: "configuration \<Rightarrow> bytes list" where
  "get_keys c = map fst c"

definition get_values :: "configuration \<Rightarrow> bytes list" where
  "get_values c = map snd c"

definition get_value :: "bytes \<Rightarrow> configuration \<Rightarrow> bytes" where
  "get_value key c = (case map_of c key of Some val \<Rightarrow> val | None \<Rightarrow> [])"

definition selective_length :: "u16 list \<Rightarrow> u16" where
  "selective_length clients = of_nat (1 + length clients * 2)"

definition add_client :: "u16 \<Rightarrow> option_impl \<times> u16 list \<Rightarrow> bool \<times> option_impl \<times> u16 list" where
  "add_client client = (\<lambda>(b, clients).
     let clients' = insort_insert client clients
     in (client \<notin> set clients, b\<lparr>o_length := selective_length clients'\<rparr>, clients'))"

definition remove_client :: "u16 \<Rightarrow> option_impl \<times> u16 list \<Rightarrow> bool \<times> option_impl \<times> u16 list" where
  "remove_client client = (\<lambda>(b, clients).
     let clients' = remove1 client clients
     in (length clients' < length clients, b\<lparr>o_length := selective_length clients'\<rparr>, clients'))"

definition has_client :: "u16 \<Rightarrow> u16 list \<Rightarrow> bool" where
  "has_client client clients \<longleftrightarrow> client \<in> set clients"

end
