(* ===== verification/Sd_Option_Wire.thy ===== *)
theory Sd_Option_Wire
  imports Sd_Option
begin

text \<open>
  Writing and reading of service discovery options. Some \<open>serialize\<close> and \<open>deserialize\<close> methods ignore
  the outcome of the calls they make; \<open>seq_s\<close> and \<open>attempt\<close> stand for such calls. The loop of the
  selective option inserts a client it has not read when the input ends early, which reads an
  indeterminate value: \<open>Undefined\<close>.
\<close>

section \<open>Writing\<close>

definition seq_s ::
  "(serializer \<Rightarrow> bool \<times> serializer) \<Rightarrow> (serializer \<Rightarrow> bool \<times> serializer) \<Rightarrow> serializer \<Rightarrow> bool \<times> serializer" where
  "seq_s f g s = (case f s of (b, s') \<Rightarrow> (b, snd (g s')))"

lemma appends_seq [wire_simps]: "appends f bs \<Longrightarrow> appends g cs \<Longrightarrow> appends (seq_s f g) (bs @ cs)"
  by (simp add: appends_def seq_s_def)

definition option_serialize :: "option_impl \<Rightarrow> serializer \<Rightarrow> bool \<times> serializer" where
  "option_serialize b =
     and_s (serialize_u16 (o_length b))
    (and_s (serialize_u8 (o_type b))
           (serialize_u8 0))"

definition ipv4_option_serialize :: "option_impl \<Rightarrow> byte \<Rightarrow> u16 \<Rightarrow> bytes \<Rightarrow> serializer \<Rightarrow> bool \<times> serializer" where
  "ipv4_option_serialize b protocol port address =
     seq_s (option_serialize b)
    (seq_s (serialize_range address)
    (seq_s (serialize_u8 0)
    (seq_s (serialize_u8 protocol)
           (serialize_u16 port))))"

definition ipv6_option_serialize :: "option_impl \<Rightarrow> byte \<Rightarrow> u16 \<Rightarrow> bytes \<Rightarrow> serializer \<Rightarrow> bool \<times> serializer" where
  "ipv6_option_serialize b protocol port address =
     seq_s (option_serialize b)
    (seq_s (serialize_range address)
    (seq_s (serialize_u8 0)
    (seq_s (serialize_u8 protocol)
           (serialize_u16 port))))"

definition load_balancing_option_serialize :: "option_impl \<Rightarrow> u16 \<Rightarrow> u16 \<Rightarrow> serializer \<Rightarrow> bool \<times> serializer" where
  "load_balancing_option_serialize b priority weight =
     and_s (option_serialize b) (and_s (serialize_u16 priority) (serialize_u16 weight))"

definition protection_option_serialize :: "option_impl \<Rightarrow> u32 \<Rightarrow> u32 \<Rightarrow> serializer \<Rightarrow> bool \<times> serializer" where
  "protection_option_serialize b counter crc =
     and_s (option_serialize b) (and_s (serialize_u32 counter False) (serialize_u32 crc False))"

definition EQUALS_SIGN :: byte where "EQUALS_SIGN = 0x3D"

fun configuration_string :: "configuration \<Rightarrow> bytes" where
  "configuration_string [] = [0]"
| "configuration_string ((k, v) # rest) =
     of_nat (1 + length k + length v) # k @ EQUALS_SIGN # v @ configuration_string rest"

fun serialize_clients :: "u16 list \<Rightarrow> serializer \<Rightarrow> bool \<times> serializer" where
  "serialize_clients [] s = (True, s)"
| "serialize_clients (c # cs) s = serialize_clients cs (snd (serialize_u16 c s))"

definition selective_option_serialize :: "option_impl \<Rightarrow> u16 list \<Rightarrow> serializer \<Rightarrow> bool \<times> serializer" where
  "selective_option_serialize b clients = and_s (option_serialize b) (serialize_clients clients)"

definition configuration_option_serialize ::
  "option_impl \<Rightarrow> configuration \<Rightarrow> serializer \<Rightarrow> bool \<times> serializer" where
  "configuration_option_serialize b configuration =
     and_s (option_serialize b) (serialize_range (configuration_string configuration))"

fun serialize_option :: "sd_option \<Rightarrow> serializer \<Rightarrow> bool \<times> serializer" where
  "serialize_option (Plain_option b) = option_serialize b"
| "serialize_option (Configuration_option b c) = configuration_option_serialize b c"
| "serialize_option (Load_balancing_option b priority weight) = load_balancing_option_serialize b priority weight"
| "serialize_option (Protection_option b counter crc) = protection_option_serialize b counter crc"
| "serialize_option (Ipv4_option b protocol port address) = ipv4_option_serialize b protocol port address"
| "serialize_option (Ipv6_option b protocol port address) = ipv6_option_serialize b protocol port address"
| "serialize_option (Selective_option b clients) = selective_option_serialize b clients"

lemmas option_class_serialize = configuration_option_serialize_def load_balancing_option_serialize_def
  protection_option_serialize_def ipv4_option_serialize_def ipv6_option_serialize_def selective_option_serialize_def

section \<open>Reading\<close>

definition attempt :: "('s, 'a) action \<Rightarrow> 'a \<Rightarrow> ('s, 'a) action" where
  "attempt p old = (\<lambda>s. case p s of
       (Ok a, s') \<Rightarrow> (Ok a, s') | (Refused, s') \<Rightarrow> (Ok old, s') | (Undefined, s') \<Rightarrow> (Undefined, s'))"

definition known_option_type :: "byte \<Rightarrow> bool" where
  "known_option_type t \<longleftrightarrow>
     t \<in> {CONFIGURATION, LOAD_BALANCING, PROTECTION, IP4_ENDPOINT, IP6_ENDPOINT, IP4_MULTICAST, IP6_MULTICAST,
          SELECTIVE}"

definition option_deserialize :: "option_impl \<Rightarrow> (deserializer, option_impl) action" where
  "option_deserialize b0 =
     bind_a deserialize_u16 (\<lambda>len.
     bind_a deserialize_u8 (\<lambda>its_type.
     bind_a deserialize_u8 (\<lambda>reserved.
     (\<lambda>d. if known_option_type its_type
          then (Ok (b0\<lparr>o_length := len, o_type := its_type\<rparr>), d)
          else (Ok (b0\<lparr>o_length := len, o_type := OPTION_UNKNOWN\<rparr>), set_remaining 0 d)))))"

definition read_protocol :: "byte \<Rightarrow> byte" where
  "read_protocol p = (if p = LAYER_FOUR_TCP \<or> p = LAYER_FOUR_UDP then p else LAYER_FOUR_UNKNOWN)"

text \<open>
  \<open>ipv4_option_impl::deserialize\<close> and \<open>ipv6_option_impl::deserialize\<close>, with the address size, the length
  the option must have and the constructor as parameters. The address, protocol and port are read
  whatever the header said, and keep their initial value when they cannot be read.
\<close>

definition ip_option_rest ::
  "nat \<Rightarrow> u16 \<Rightarrow> (option_impl \<Rightarrow> byte \<Rightarrow> u16 \<Rightarrow> bytes \<Rightarrow> sd_option) \<Rightarrow> option_impl option
     \<Rightarrow> (deserializer, sd_option) action" where
  "ip_option_rest addr_size option_length mk base =
     bind_a (attempt (deserialize_range addr_size) (replicate addr_size 0)) (\<lambda>address.
     bind_a (attempt deserialize_u8 LAYER_FOUR_UNKNOWN) (\<lambda>its_reserved.
     bind_a (attempt deserialize_u8 its_reserved) (\<lambda>its_protocol.
     bind_a (attempt deserialize_u16 0) (\<lambda>port.
       case base of
         Some b \<Rightarrow> (if o_length b = option_length then return_a (mk b (read_protocol its_protocol) port address)
                    else refuse_a)
       | None \<Rightarrow> refuse_a))))"

definition ip_option_deserialize ::
  "nat \<Rightarrow> u16 \<Rightarrow> (option_impl \<Rightarrow> byte \<Rightarrow> u16 \<Rightarrow> bytes \<Rightarrow> sd_option) \<Rightarrow> (deserializer, sd_option) action" where
  "ip_option_deserialize addr_size option_length mk =
     bind_a (attempt (map_a Some (option_deserialize new_option)) None) (ip_option_rest addr_size option_length mk)"

definition ipv4_option_deserialize :: "(deserializer, sd_option) action" where
  "ipv4_option_deserialize = ip_option_deserialize 4 VSOMEIP_SD_IPV4_OPTION_LENGTH Ipv4_option"

definition ipv6_option_deserialize :: "(deserializer, sd_option) action" where
  "ipv6_option_deserialize = ip_option_deserialize 16 VSOMEIP_SD_IPV6_OPTION_LENGTH Ipv6_option"

declare ipv4_option_deserialize_def [simp] ipv6_option_deserialize_def [simp]

definition load_balancing_option_deserialize :: "(deserializer, sd_option) action" where
  "load_balancing_option_deserialize =
     bind_a (option_deserialize new_option) (\<lambda>b.
     bind_a deserialize_u16 (\<lambda>priority.
     bind_a deserialize_u16 (\<lambda>weight.
     return_a (Load_balancing_option b priority weight))))"

definition protection_option_deserialize :: "(deserializer, sd_option) action" where
  "protection_option_deserialize =
     bind_a (option_deserialize new_option) (\<lambda>b.
     bind_a (deserialize_u32 False) (\<lambda>counter.
     bind_a (deserialize_u32 False) (\<lambda>crc.
     return_a (Protection_option b counter crc))))"

text \<open>The loops below read until a count or a terminator in the input; every pass that continues has
  consumed input.\<close>

lemma deserialize_u8_shrinks: "deserialize_u8 d = (Ok v, d') \<Longrightarrow> des_remaining d' < des_remaining d"
  by (auto simp: deserialize_u8_def map_a_def fetch_def bind_a_def split: if_splits)

lemma deserialize_u16_shrinks: "deserialize_u16 d = (Ok v, d') \<Longrightarrow> des_remaining d' < des_remaining d"
  by (auto simp: deserialize_u16_def map_a_def fetch_def bind_a_def split: if_splits)

lemma deserialize_string_shrinks: "deserialize_string c n d = (Ok v, d') \<Longrightarrow> des_remaining d' \<le> des_remaining d"
  by (auto simp: deserialize_string_def fetch_def split: if_splits)

function selective_loop :: "u16 \<Rightarrow> u16 \<Rightarrow> u16 list \<Rightarrow> (deserializer, u16 list) action" where
  "selective_loop i len clients d =
     (if i < len
      then (case deserialize_u16 d of
              (Ok client, d') \<Rightarrow> selective_loop (i + 2) len (insort_insert client clients) d'
            | (_, d') \<Rightarrow> (Undefined, d'))
      else (Ok clients, d))"
  by pat_completeness auto
termination
  by (relation "measure (\<lambda>(i, len, clients, d). des_remaining d)") (auto intro: deserialize_u16_shrinks [OF sym])

declare selective_loop.simps [simp del]

definition selective_option_deserialize :: "(deserializer, sd_option) action" where
  "selective_option_deserialize =
     bind_a (option_deserialize new_option) (\<lambda>b.
     map_a (Selective_option b) (selective_loop 1 (o_length b) []))"

definition split_item :: "bytes \<Rightarrow> bytes \<times> bytes" where
  "split_item item =
     (takeWhile (\<lambda>c. c \<noteq> EQUALS_SIGN) item, drop 1 (dropWhile (\<lambda>c. c \<noteq> EQUALS_SIGN) item))"

function configuration_loop :: "configuration \<Rightarrow> (deserializer, configuration) action" where
  "configuration_loop c d =
     (case deserialize_u8 d of
        (Ok item_length, d1) \<Rightarrow>
          (if item_length > 0
           then (case deserialize_string 256 (unat item_length) d1 of
                   (Ok item, d2) \<Rightarrow>
                     (case split_item item of (key, val) \<Rightarrow>
                        if map_of c key = None
                        then (if get_remaining d2 > 0 then configuration_loop (map_put key val c) d2
                              else (Ok (map_put key val c), d2))
                        else (Refused, d2))
                 | (Refused, d2) \<Rightarrow> (Refused, d2)
                 | (Undefined, d2) \<Rightarrow> (Undefined, d2))
           else (Ok c, d1))
      | (Refused, d1) \<Rightarrow> (Refused, d1)
      | (Undefined, d1) \<Rightarrow> (Undefined, d1))"
  by pat_completeness auto
termination
proof (relation "measure (\<lambda>(c, d). des_remaining d)", goal_cases)
  case (2 c d r d1 n r2 d2 item key val)
  then have "deserialize_u8 d = (Ok n, d1)" "deserialize_string 256 (unat n) d1 = (Ok item, d2)" by simp_all
  then have "des_remaining d2 < des_remaining d"
    using deserialize_u8_shrinks deserialize_string_shrinks by (meson le_less_trans)
  then show ?case by simp
qed simp

declare configuration_loop.simps [simp del]

definition configuration_option_deserialize :: "(deserializer, sd_option) action" where
  "configuration_option_deserialize =
     bind_a (option_deserialize new_option) (\<lambda>b.
     map_a (Configuration_option b) (configuration_loop []))"

text \<open>\<open>message_impl::deserialize_option\<close> chooses the class by the type byte it looks ahead to.\<close>

definition deserialize_option :: "(deserializer, sd_option) action" where
  "deserialize_option d =
     (case look_ahead_u8 2 d of
        Ok t \<Rightarrow>
          (if t = CONFIGURATION then configuration_option_deserialize d
           else if t = LOAD_BALANCING then load_balancing_option_deserialize d
           else if t = PROTECTION then protection_option_deserialize d
           else if t = IP4_ENDPOINT \<or> t = IP4_MULTICAST
           then ipv4_option_deserialize d
           else if t = IP6_ENDPOINT \<or> t = IP6_MULTICAST
           then ipv6_option_deserialize d
           else if t = SELECTIVE then selective_option_deserialize d
           else map_a Plain_option (option_deserialize new_option) d)
      | Refused \<Rightarrow> (Refused, d)
      | Undefined \<Rightarrow> (Undefined, d))"

section \<open>The wire format\<close>

definition wire_option_base :: "option_impl \<Rightarrow> bytes" where
  "wire_option_base b = be16 (o_length b) @ [o_type b] @ [0]"

fun wire_option_body :: "sd_option \<Rightarrow> bytes" where
  "wire_option_body (Plain_option b) = []"
| "wire_option_body (Configuration_option b c) = configuration_string c"
| "wire_option_body (Load_balancing_option b priority weight) = be16 priority @ be16 weight"
| "wire_option_body (Protection_option b counter crc) = be32 counter @ be32 crc"
| "wire_option_body (Ipv4_option b protocol port address) = address @ [0] @ [protocol] @ be16 port"
| "wire_option_body (Ipv6_option b protocol port address) = address @ [0] @ [protocol] @ be16 port"
| "wire_option_body (Selective_option b clients) = concat (map be16 clients)"

definition wire_option :: "sd_option \<Rightarrow> bytes" where
  "wire_option o1 = wire_option_base (option_base o1) @ wire_option_body o1"

lemma length_wire_option_base [simp]: "length (wire_option_base b) = 4"
  by (simp add: wire_option_base_def)

lemma appends_option_base [wire_simps]: "appends (option_serialize b) (wire_option_base b)"
  unfolding option_serialize_def wire_option_base_def by (intro wire_simps)

lemma appends_clients [wire_simps]: "appends (serialize_clients cs) (concat (map be16 cs))"
proof -
  have "serialize_clients cs s = (True, s\<lparr>ser_data := ser_data s @ concat (map be16 cs)\<rparr>)" for s
    by (induction cs arbitrary: s) (simp_all add: appendsD [OF appends_u16])
  then show ?thesis by (simp add: appends_def)
qed

lemma appends_option [wire_simps]: "appends (serialize_option o1) (wire_option o1)"
  unfolding wire_option_def by (cases o1; simp only: serialize_option.simps option_base.simps wire_option_body.simps option_class_serialize)
    (simp_all only: append_Nil2, (intro wire_simps)+)

text \<open>The options a reader understands as they were written.\<close>

fun good_option :: "sd_option \<Rightarrow> bool" where
  "good_option (Plain_option b) \<longleftrightarrow> False"
| "good_option (Configuration_option b c) \<longleftrightarrow>
     o_type b = CONFIGURATION \<and> sorted_wrt (<) (map fst c)
     \<and> list_all (\<lambda>(k, v). EQUALS_SIGN \<notin> set k \<and> length k + length v < 255) c"
| "good_option (Load_balancing_option b priority weight) \<longleftrightarrow> o_type b = LOAD_BALANCING"
| "good_option (Protection_option b counter crc) \<longleftrightarrow> o_type b = PROTECTION"
| "good_option (Ipv4_option b protocol port address) \<longleftrightarrow>
     (o_type b = IP4_ENDPOINT \<or> o_type b = IP4_MULTICAST) \<and> o_length b = VSOMEIP_SD_IPV4_OPTION_LENGTH
     \<and> length address = 4 \<and> read_protocol protocol = protocol"
| "good_option (Ipv6_option b protocol port address) \<longleftrightarrow>
     (o_type b = IP6_ENDPOINT \<or> o_type b = IP6_MULTICAST) \<and> o_length b = VSOMEIP_SD_IPV6_OPTION_LENGTH
     \<and> length address = 16 \<and> read_protocol protocol = protocol"
| "good_option (Selective_option b clients) \<longleftrightarrow>
     o_type b = SELECTIVE \<and> o_length b = selective_length clients \<and> length clients < 2 ^ 15
     \<and> sorted_wrt (<) clients"

section \<open>Reading back\<close>

lemma attempt_Ok: "p d = (Ok a, d') \<Longrightarrow> attempt p old d = (Ok a, d')"
  by (simp add: attempt_def)

lemma safe_attempt [safe_intros]: "safe_action I p \<Longrightarrow> safe_action I (attempt p old)"
  unfolding safe_action_def attempt_def
  by (auto split: prod.splits result.splits)

context codec
begin

lemma attempt_wire:
  assumes "wf_des d" "good a" "unread d = wire a @ rest"
  shows "bind_a (attempt des old) f d = f a (skip_des (length (wire a)) d)"
    and "wf_des (skip_des (length (wire a)) d)"
    and "unread (skip_des (length (wire a)) d) = rest"
  using des_wire [OF assms] unread_append [OF assms(1,3)] by (simp_all add: attempt_def bind_a_def)

end

lemma option_deserialize_wire:
  assumes "wf_des d" "unread d = wire_option_base b @ rest" "known_option_type (o_type b)"
  shows "option_deserialize b0 d = (Ok b, skip_des 4 d)"
proof -
  note w = assms(2) [unfolded wire_option_base_def append_assoc]
  note s1 = c16.bind_wire [OF assms(1) TrueI w]
  note s2 = c8.bind_wire [OF s1(2) TrueI s1(3)]
  note s3 = c8.bind_wire [OF s2(2) TrueI s2(3)]
  show ?thesis
    unfolding option_deserialize_def
    by (simp only: s1(1) s2(1) s3(1)) (simp add: assms(3) eval_nat_numeral)
qed

lemma option_bind_wire:
  assumes "wf_des d" "unread d = wire_option_base b @ rest" "known_option_type (o_type b)"
  shows "bind_a (option_deserialize b0) f d = f b (skip_des 4 d)"
    "wf_des (skip_des 4 d)" "unread (skip_des 4 d) = rest"
  using bind_a_Ok [of "option_deserialize b0", OF option_deserialize_wire [OF assms]] unread_append [OF assms(1,2)]
  by simp_all

lemma safe_option_base [safe_intros]: "safe_action wf_des (option_deserialize b0)"
proof -
  have "safe_action wf_des (\<lambda>d. if known_option_type t then (Ok b1, d) else (Ok b2, set_remaining 0 d))"
    for t and b1 b2 :: option_impl
    by (rule safe_actionI) (simp add: set_remaining_def wf_des_def)
  then show ?thesis unfolding option_deserialize_def by (intro safe_intros)
qed

text \<open>The clients of a selective option arrive in ascending order and are appended.\<close>

lemma insort_insert_last:
  fixes c :: "'a :: linorder"
  assumes "\<forall>x \<in> set acc. x < c"
  shows "insort_insert c acc = acc @ [c]"
proof -
  have "c \<notin> set acc" using assms by auto
  moreover have "insort c acc = acc @ [c]" using assms by (induction acc) auto
  ultimately show ?thesis by (simp add: insort_insert_key_def)
qed

lemma selective_loop_wire:
  assumes "wf_des d" "unread d = concat (map be16 cs) @ rest" "unat i + 2 * length cs = unat len"
    and "sorted_wrt (<) (acc @ cs)"
  shows "selective_loop i len acc d = (Ok (acc @ cs), skip_des (2 * length cs) d)"
  using assms
proof (induction cs arbitrary: i acc d)
  case Nil
  then have "\<not> i < len" by (simp add: word_less_nat_alt)
  then show ?case by (simp add: selective_loop.simps)
next
  case (Cons c cs)
  have w: "unread d = be16 c @ (concat (map be16 cs) @ rest)" using Cons.prems(2) by simp
  have i: "i < len" using Cons.prems(3) by (simp add: word_less_nat_alt)
  have "unat i + 2 < 2 ^ LENGTH(16)" using Cons.prems(3) unat_u16_less [of len] by simp
  then have i2: "unat (i + 2) = unat i + 2" by (simp add: unat_word_ariths)
  have "insort_insert c acc = acc @ [c]"
    using Cons.prems(4) by (intro insort_insert_last) (auto simp: sorted_wrt_append)
  then have "selective_loop i len acc d = selective_loop (i + 2) len (acc @ [c]) (skip_des 2 d)"
    using c16.des_wire [OF Cons.prems(1) TrueI w] i by (subst selective_loop.simps) simp
  also have "\<dots> = (Ok ((acc @ [c]) @ cs), skip_des (2 * length cs) (skip_des 2 d))"
    by (rule Cons.IH) (use c16.bind_wire(2,3) [OF Cons.prems(1) TrueI w] Cons.prems(3,4) i2 in simp_all)
  finally show ?case by (simp add: add.commute)
qed

text \<open>The items of a configuration option arrive in ascending order of their keys.\<close>

lemma split_item_wire: "EQUALS_SIGN \<notin> set k \<Longrightarrow> split_item (k @ EQUALS_SIGN # v) = (k, v)"
  by (auto simp: split_item_def takeWhile_append dropWhile_append)

lemma map_put_last: "\<forall>x \<in> set (map fst acc). x < k \<Longrightarrow> map_put k v acc = acc @ [(k, v)]"
  by (induction acc) auto

lemma configuration_string_nonempty [simp]: "configuration_string c \<noteq> []"
  by (cases c) auto

lemma deserialize_string_wire:
  assumes "wf_des d" "unread d = bs @ rest" "length bs \<le> cap"
  shows "deserialize_string cap (length bs) d = (Ok bs, skip_des (length bs) d)"
  using unread_append(1) [OF assms(1,2)] assms by (simp add: deserialize_string_def fetch_wf)

lemma configuration_loop_wire:
  assumes "wf_des d" "unread d = configuration_string c @ rest"
    and "sorted_wrt (<) (map fst (acc @ c))"
    and "list_all (\<lambda>(k, v). EQUALS_SIGN \<notin> set k \<and> length k + length v < 255) c"
  shows "configuration_loop acc d = (Ok (acc @ c), skip_des (length (configuration_string c)) d)"
  using assms
proof (induction c arbitrary: acc d)
  case Nil
  then have "unread d = [0] @ rest" by simp
  from c8.des_wire [OF Nil.prems(1) TrueI this] show ?case by (simp add: configuration_loop.simps)
next
  case (Cons kv c)
  obtain k v where kv: "kv = (k, v)" by (cases kv)
  let ?item = "k @ EQUALS_SIGN # v" and ?n = "of_nat (1 + length k + length v) :: byte"
  have kv_ok: "EQUALS_SIGN \<notin> set k" "length k + length v < 255" using Cons.prems(4) by (simp_all add: kv)
  have "unat ?n = 1 + length k + length v" by (rule unat_byte) (use kv_ok(2) in simp)
  then have n: "unat ?n = length ?item" by simp
  then have pos: "0 < ?n" by (metis length_greater_0_conv list.distinct(1) append_is_Nil_conv word_gt_0 unat_0 not_less_zero)
  have w1: "unread d = [?n] @ (?item @ configuration_string c @ rest)" using Cons.prems(2) by (simp add: kv)
  note s1 = c8.des_wire [OF Cons.prems(1) TrueI w1] c8.bind_wire(2,3) [OF Cons.prems(1) TrueI w1]
  have len: "length ?item \<le> 256" using kv_ok(2) by simp
  note s2 = deserialize_string_wire [OF s1(2,3) len] unread_append [OF s1(2,3)]
  let ?d2 = "skip_des (length ?item) (skip_des (length [?n]) d)"
  have keys: "\<forall>x \<in> set (map fst acc). x < k" using Cons.prems(3) by (auto simp: kv sorted_wrt_append)
  then have "map_of acc k = None" by (auto simp: map_of_eq_None_iff)
  moreover have "0 < length (unread ?d2)" using s2(4) by simp
  then have "0 < get_remaining ?d2" using length_unread [OF s2(3)] by (simp only: get_remaining_def)
  ultimately have "configuration_loop acc d = configuration_loop (acc @ [(k, v)]) ?d2"
    using s1(1) s2(1) n pos split_item_wire [OF kv_ok(1), of v] map_put_last [OF keys, of v]
    by (subst configuration_loop.simps) simp
  also have "\<dots> = (Ok ((acc @ [(k, v)]) @ c), skip_des (length (configuration_string c)) ?d2)"
    by (rule Cons.IH) (use s2(3,4) Cons.prems(3,4) kv in simp_all)
  finally show ?case by (simp add: kv add.commute add.left_commute)
qed

lemma wire_option_type: "wire_option o1 ! 2 = o_type (option_base o1)"
  by (simp add: wire_option_def wire_option_base_def be16_def)

lemma good_option_known: "good_option o1 \<Longrightarrow> known_option_type (o_type (option_base o1))"
  by (cases o1) (auto simp: known_option_type_def)

lemma load_balancing_wire:
  assumes "wf_des d" "unread d = wire_option (Load_balancing_option b p w) @ rest" "o_type b = LOAD_BALANCING"
  shows "load_balancing_option_deserialize d = (Ok (Load_balancing_option b p w), skip_des 8 d)"
proof -
  have w: "unread d = wire_option_base b @ (be16 p @ be16 w @ rest)" using assms(2) by (simp add: wire_option_def)
  have k: "known_option_type (o_type b)" by (simp add: assms(3) known_option_type_def)
  note s0 = option_bind_wire [OF assms(1) w k]
  note s1 = c16.bind_wire [OF s0(2) TrueI s0(3)]
  note s2 = c16.bind_wire [OF s1(2) TrueI s1(3)]
  show ?thesis unfolding load_balancing_option_deserialize_def by (simp only: s0(1) s1(1) s2(1)) simp
qed

lemma protection_wire:
  assumes "wf_des d" "unread d = wire_option (Protection_option b c r) @ rest" "o_type b = PROTECTION"
  shows "protection_option_deserialize d = (Ok (Protection_option b c r), skip_des 12 d)"
proof -
  have w: "unread d = wire_option_base b @ (be32 c @ be32 r @ rest)" using assms(2) by (simp add: wire_option_def)
  have k: "known_option_type (o_type b)" by (simp add: assms(3) known_option_type_def)
  note s0 = option_bind_wire [OF assms(1) w k]
  note s1 = c32.bind_wire [OF s0(2) TrueI s0(3)]
  note s2 = c32.bind_wire [OF s1(2) TrueI s1(3)]
  show ?thesis unfolding protection_option_deserialize_def by (simp only: s0(1) s1(1) s2(1)) simp
qed

lemma ip_option_wire:
  assumes "wf_des d" "unread d = wire_option_base b @ (a @ [0] @ [p] @ be16 q @ rest)"
    and "known_option_type (o_type b)" "length a = n" "o_length b = l" "read_protocol p = p"
  shows "ip_option_deserialize n l mk d = (Ok (mk b p q a), skip_des (n + 8) d)"
proof -
  note s0 = option_bind_wire [OF assms(1-3)]
  have base: "attempt (map_a Some (option_deserialize new_option)) None d = (Ok (Some b), skip_des 4 d)"
    using option_deserialize_wire [OF assms(1-3), of new_option] by (simp add: attempt_def map_a_def)
  note s1 = crange.attempt_wire [OF s0(2) assms(4) s0(3)]
  note s2 = c8.attempt_wire [OF s1(2) TrueI s1(3)]
  note s3 = c8.attempt_wire [OF s2(2) TrueI s2(3)]
  note s4 = c16.attempt_wire [OF s3(2) TrueI s3(3)]
  have "ip_option_deserialize n l mk d = ip_option_rest n l mk (Some b) (skip_des 4 d)"
    unfolding ip_option_deserialize_def using base by (rule bind_a_Ok)
  then show ?thesis unfolding ip_option_rest_def
    by (simp only: s1(1) s2(1) s3(1) s4(1)) (simp add: assms(4-6) add.commute eval_nat_numeral)
qed

lemma selective_wire:
  assumes "wf_des d" "unread d = wire_option (Selective_option b cs) @ rest" "good_option (Selective_option b cs)"
  shows "selective_option_deserialize d = (Ok (Selective_option b cs), skip_des (4 + 2 * length cs) d)"
proof -
  have w: "unread d = wire_option_base b @ (concat (map be16 cs) @ rest)" using assms(2) by (simp add: wire_option_def)
  have k: "known_option_type (o_type b)" using good_option_known [OF assms(3)] by simp
  note s0 = option_bind_wire [OF assms(1) w k]
  have "unat (o_length b) = 1 + length cs * 2"
    using assms(3) unat_u16 [of "1 + length cs * 2"] by (simp add: selective_length_def)
  then have "selective_loop 1 (o_length b) [] (skip_des 4 d) = (Ok ([] @ cs), skip_des (2 * length cs) (skip_des 4 d))"
    by (intro selective_loop_wire [OF s0(2,3)]) (use assms(3) in simp_all)
  then show ?thesis unfolding selective_option_deserialize_def by (simp add: s0(1) map_a_def)
qed

lemma configuration_wire:
  assumes "wf_des d" "unread d = wire_option (Configuration_option b c) @ rest" "good_option (Configuration_option b c)"
  shows "configuration_option_deserialize d
    = (Ok (Configuration_option b c), skip_des (4 + length (configuration_string c)) d)"
proof -
  have w: "unread d = wire_option_base b @ (configuration_string c @ rest)" using assms(2) by (simp add: wire_option_def)
  have k: "known_option_type (o_type b)" using good_option_known [OF assms(3)] by simp
  note s0 = option_bind_wire [OF assms(1) w k]
  have "configuration_loop [] (skip_des 4 d) = (Ok ([] @ c), skip_des (length (configuration_string c)) (skip_des 4 d))"
    by (rule configuration_loop_wire [OF s0(2,3)]) (use assms(3) in simp_all)
  then show ?thesis unfolding configuration_option_deserialize_def by (simp add: s0(1) map_a_def)
qed

lemma length_concat_be16 [simp]: "length (concat (map be16 cs)) = 2 * length cs"
  by (induction cs) auto

lemma deserialize_option_wire:
  assumes "wf_des d" "unread d = wire_option o1 @ rest" "good_option o1"
  shows "deserialize_option d = (Ok o1, skip_des (length (wire_option o1)) d)"
proof -
  have "4 \<le> length (wire_option o1)" by (simp add: wire_option_def)
  then have "2 < des_remaining d" using unread_append(1) [OF assms(1,2)] by simp
  then have la: "look_ahead_u8 2 d = Ok (o_type (option_base o1))"
    using look_ahead_unread [OF assms(1), of 2] assms(2) \<open>4 \<le> length (wire_option o1)\<close> wire_option_type [of o1]
    by (simp add: nth_append)
  note k = good_option_known [OF assms(3)]
  show ?thesis
  proof (cases o1)
    case (Configuration_option b c)
    then show ?thesis using configuration_wire [of d b c rest] assms la by (simp add: deserialize_option_def wire_option_def)
  next
    case (Load_balancing_option b p w)
    then show ?thesis using load_balancing_wire [of d b p w rest] assms la
      by (simp add: deserialize_option_def wire_option_def option_types)
  next
    case (Protection_option b c r)
    then show ?thesis using protection_wire [of d b c r rest] assms la
      by (simp add: deserialize_option_def wire_option_def option_types)
  next
    case (Ipv4_option b p q a)
    then show ?thesis
      using ip_option_wire [of d b a p q rest 4 VSOMEIP_SD_IPV4_OPTION_LENGTH Ipv4_option] assms la k
      by (auto simp: deserialize_option_def wire_option_def option_types)
  next
    case (Ipv6_option b p q a)
    then show ?thesis
      using ip_option_wire [of d b a p q rest 16 VSOMEIP_SD_IPV6_OPTION_LENGTH Ipv6_option] assms la k
      by (auto simp: deserialize_option_def wire_option_def option_types)
  next
    case (Selective_option b cs)
    then show ?thesis using selective_wire [of d b cs rest] assms la
      by (simp add: deserialize_option_def wire_option_def option_types)
  qed (use assms(3) in simp)
qed

text \<open>
  [C18] Every option whose type and length fit its class, with at most 255 bytes per configuration item,
  no \<open>=\<close> in a key, and keys and clients in the order of their containers, is read back as it was
  written, whatever follows it, and exactly its bytes are consumed.
\<close>

theorem option_round_trip:
  assumes "good_option o1"
  shows "serialize_option o1 (new_serializer t) = (True, (new_serializer t)\<lparr>ser_data := wire_option o1\<rparr>)
    \<and> deserialize_option (new_deserializer (wire_option o1 @ rest) t')
      = (Ok o1, skip_des (length (wire_option o1)) (new_deserializer (wire_option o1 @ rest) t'))"
proof
  show "serialize_option o1 (new_serializer t) = (True, (new_serializer t)\<lparr>ser_data := wire_option o1\<rparr>)"
    using appendsD [OF appends_option] by (simp add: new_serializer_def)
  show "deserialize_option (new_deserializer (wire_option o1 @ rest) t')
      = (Ok o1, skip_des (length (wire_option o1)) (new_deserializer (wire_option o1 @ rest) t'))"
    by (rule deserialize_option_wire [OF _ _ assms]) simp_all
qed

text \<open>A configuration option with the items \<open>a=b\<close> and \<open>host=x\<close>.\<close>

definition sample_configuration :: sd_option where
  "sample_configuration = Configuration_option \<lparr>o_length = 13, o_type = CONFIGURATION\<rparr>
     [([0x61], [0x62]), ([0x68, 0x6F, 0x73, 0x74], [0x78])]"

lemma sample_configuration_good: "good_option sample_configuration"
  by (simp add: sample_configuration_def EQUALS_SIGN_def)

theorem option_round_trip_witness:
  "wire_option sample_configuration
     = [0, 13, 1, 0, 3, 0x61, 0x3D, 0x62, 6, 0x68, 0x6F, 0x73, 0x74, 0x3D, 0x78, 0]
   \<and> fst (deserialize_option (new_deserializer (wire_option sample_configuration @ [1, 2]) 0)) = Ok sample_configuration"
proof
  show "wire_option sample_configuration
     = [0, 13, 1, 0, 3, 0x61, 0x3D, 0x62, 6, 0x68, 0x6F, 0x73, 0x74, 0x3D, 0x78, 0]"
    by (simp add: sample_configuration_def wire_option_def wire_option_base_def be16_def byteorder_defs
        EQUALS_SIGN_def CONFIGURATION_def)
  show "fst (deserialize_option (new_deserializer (wire_option sample_configuration @ [1, 2]) 0)) = Ok sample_configuration"
    using option_round_trip [OF sample_configuration_good, of 0 "[1, 2]" 0] by simp
qed

section \<open>Length fields and comparison\<close>

lemma configuration_string_put:
  assumes "sorted_wrt (<) (map fst c)"
  shows "length (configuration_string (map_put k v c))
      + (case map_of c k of None \<Rightarrow> 0 | Some old \<Rightarrow> item_size k old)
    = length (configuration_string c) + item_size k v"
  using assms
proof (induction k v c rule: map_put.induct)
  case (2 k v k' v' m)
  have "map_of m k = None" if "k < k' \<or> k = k'"
    using that "2.prems" by (force simp: map_of_eq_None_iff)
  then show ?case using 2 by (auto simp: item_size_def split: option.splits)
qed (simp add: item_size_def)

text \<open>
  The length field of a configuration option. When it agrees with the items (it counts the bytes
  behind it, modulo \<open>2 ^ 16\<close>), \<open>add_item\<close> keeps it so for a new key; for a key that is already there
  the value is replaced but the length grows as if the item were new, so that the field is too large
  by the size of the old item.
\<close>

theorem add_item_length:
  assumes "sorted_wrt (<) (map fst c)" "o_length b = of_nat (1 + length (configuration_string c))"
  shows "o_length (fst (add_item k v (b, c)))
    = of_nat (1 + length (configuration_string (snd (add_item k v (b, c)))))
      + (case map_of c k of None \<Rightarrow> 0 | Some old \<Rightarrow> of_nat (item_size k old))"
proof -
  have "(of_nat (length (configuration_string (map_put k v c))
      + (case map_of c k of None \<Rightarrow> 0 | Some old \<Rightarrow> item_size k old)) :: u16)
    = of_nat (length (configuration_string c) + item_size k v)"
    by (simp only: configuration_string_put [OF assms(1)])
  then show ?thesis using assms(2) by (cases "map_of c k") (simp_all add: add_item_def algebra_simps)
qed

theorem add_item_length_witness:
  "o_length (fst (add_item [0x61] [0x62] (add_item [0x61] [0x62] (new_option\<lparr>o_length := 2\<rparr>, [])))) = 10
    \<and> 1 + length (configuration_string (snd (add_item [0x61] [0x62] (add_item [0x61] [0x62] (new_option\<lparr>o_length := 2\<rparr>, []))))) = 6"
  using add_item_length [of "[([0x61], [0x62])]" "new_option\<lparr>o_length := 6\<rparr>" "[0x61]" "[0x62]"]
  by (simp add: add_item_def item_size_def)

text \<open>
  \<open>operator==\<close> is reflexive for every option except a load balancing option: that one compares its
  priority with the weight of the other object, so it is equal to itself exactly when the two numbers
  coincide.
\<close>

theorem option_equals_reflexive:
  "option_equals x x = Some (case x of Load_balancing_option b priority weight \<Rightarrow> priority = weight | _ \<Rightarrow> True)"
  by (cases x) (simp_all add: option_eq_defs)

text \<open>
  What an IP option reads from the bytes behind its header: each of address, reserved byte, protocol and
  port is read when enough bytes are left for it, and otherwise skipped without consuming anything.
\<close>

lemma attempt_reads:
  assumes "wf_des d"
  shows "attempt (deserialize_range n) old d =
      (if n \<le> des_remaining d then (Ok (take n (unread d)), skip_des n d) else (Ok old, d))"
    "attempt deserialize_u8 x d =
      (if 1 \<le> des_remaining d then (Ok (unread d ! 0), skip_des 1 d) else (Ok x, d))"
    "attempt deserialize_u16 y d =
      (if 2 \<le> des_remaining d then (Ok (BYTES_TO_WORD (unread d ! 0) (unread d ! 1)), skip_des 2 d) else (Ok y, d))"
  using assms by (simp_all add: attempt_def deserialize_range_def deserialize_u8_def deserialize_u16_def fetch_wf map_fetch_wf)

definition ip_option_fields :: "nat \<Rightarrow> bytes \<Rightarrow> byte \<times> u16 \<times> bytes" where
  "ip_option_fields n rest =
     (let behind = (if n \<le> length rest then drop n rest else rest) in
      (read_protocol (if 2 \<le> length behind then behind ! 1 else if length behind = 1 then behind ! 0 else LAYER_FOUR_UNKNOWN),
       if 4 \<le> length behind then BYTES_TO_WORD (behind ! 2) (behind ! 3) else 0,
       if n \<le> length rest then take n rest else replicate n 0))"

lemma ip_option_rest_behind:
  assumes "wf_des d" "o_length b = l" "des_remaining d = length behind" "unread d = behind"
  shows "fst (bind_a (attempt deserialize_u8 LAYER_FOUR_UNKNOWN) (\<lambda>its_reserved.
     bind_a (attempt deserialize_u8 its_reserved) (\<lambda>its_protocol.
     bind_a (attempt deserialize_u16 0) (\<lambda>port.
       if o_length b = l then return_a (mk b (read_protocol its_protocol) port address) else refuse_a))) d)
    = Ok (mk b (read_protocol (if 2 \<le> length behind then behind ! 1 else if length behind = 1 then behind ! 0 else LAYER_FOUR_UNKNOWN))
        (if 4 \<le> length behind then BYTES_TO_WORD (behind ! 2) (behind ! 3) else 0) address)"
proof -
  have wf: "wf_des (skip_des k d)" if "k \<le> length behind" for k using wf_skip_des [OF assms(1)] that assms(3) by simp
  show ?thesis
  proof (cases "2 \<le> length behind")
    case True
    then obtain x y r where b: "behind = x # y # r" by (cases behind; cases "tl behind") auto
    show ?thesis using wf [of 1] wf [of 2] assms
      by (simp add: bind_a_def attempt_reads unread_skip_des b numeral_2_eq_2 numeral_3_eq_3)
  next
    case False
    then have "behind = [] \<or> (\<exists>x. behind = [x])" by (cases behind; cases "tl behind") auto
    then show ?thesis using wf [of 1] assms by (auto simp: bind_a_def attempt_reads)
  qed
qed

lemma ip_option_any:
  assumes "wf_des d" "unread d = wire_option_base b @ rest" "known_option_type (o_type b)" "o_length b = l"
  shows "fst (ip_option_deserialize n l mk d) = Ok (case ip_option_fields n rest of (protocol, port, address) \<Rightarrow> mk b protocol port address)"
proof -
  note s0 = option_bind_wire [OF assms(1-3)]
  have rem: "des_remaining (skip_des 4 d) = length rest" using length_unread [OF s0(2)] s0(3) by simp
  have base: "attempt (map_a Some (option_deserialize new_option)) None d = (Ok (Some b), skip_des 4 d)"
    using option_deserialize_wire [OF assms(1-3), of new_option] by (simp add: attempt_def map_a_def)
  have eq: "ip_option_deserialize n l mk d = ip_option_rest n l mk (Some b) (skip_des 4 d)"
    unfolding ip_option_deserialize_def using base by (rule bind_a_Ok)
  show ?thesis
  proof (cases "n \<le> length rest")
    case True
    have wf: "wf_des (skip_des n (skip_des 4 d))" using wf_skip_des [OF s0(2)] True rem by simp
    have "des_remaining (skip_des n (skip_des 4 d)) = length (drop n rest)" "unread (skip_des n (skip_des 4 d)) = drop n rest"
      using rem unread_skip_des [of n "skip_des 4 d"] s0(3) by simp_all
    from ip_option_rest_behind [OF wf assms(4) this, of mk "take n rest"] show ?thesis using True rem s0(3)
      by (simp add: eq ip_option_rest_def bind_a_def [of "attempt (deserialize_range n) _"] attempt_reads(1) [OF s0(2)]
          ip_option_fields_def Let_def del: skip_des_skip length_drop)
  next
    case False
    then show ?thesis
      using ip_option_rest_behind [OF s0(2) assms(4) rem s0(3), of mk "replicate n 0"] rem
      by (simp add: eq ip_option_rest_def bind_a_def [of "attempt (deserialize_range n) _"] attempt_reads(1) [OF s0(2)]
          ip_option_fields_def Let_def)
  qed
qed

text \<open>
  [C39] An IPv4 or IPv6 option is accepted whenever its header is there and announces the length of the class,
  whatever follows it. When the bytes behind the header are too few for the address, the address is all
  zero and these bytes are taken for the reserved byte, the protocol and the port; a protocol that is not
  there is unknown or the reserved byte, and a port that is not there is zero.
\<close>

theorem truncated_ip_option_accepted:
  assumes "wf_des d" "unread d = wire_option_base b @ rest"
  shows "((o_type b = IP4_ENDPOINT \<or> o_type b = IP4_MULTICAST) \<and> o_length b = VSOMEIP_SD_IPV4_OPTION_LENGTH \<longrightarrow>
      fst (deserialize_option d) = Ok (case ip_option_fields 4 rest of (protocol, port, address) \<Rightarrow> Ipv4_option b protocol port address))
    \<and> ((o_type b = IP6_ENDPOINT \<or> o_type b = IP6_MULTICAST) \<and> o_length b = VSOMEIP_SD_IPV6_OPTION_LENGTH \<longrightarrow>
      fst (deserialize_option d) = Ok (case ip_option_fields 16 rest of (protocol, port, address) \<Rightarrow> Ipv6_option b protocol port address))
    \<and> (\<forall>n. length rest < n \<longrightarrow> ip_option_fields n rest =
      (read_protocol (if 2 \<le> length rest then rest ! 1 else if length rest = 1 then rest ! 0 else LAYER_FOUR_UNKNOWN),
       if 4 \<le> length rest then BYTES_TO_WORD (rest ! 2) (rest ! 3) else 0, replicate n 0))"
proof -
  have "look_ahead_u8 2 d = Ok (o_type b)"
    using look_ahead_unread [OF assms(1), of 2] assms(2) length_unread [OF assms(1)]
    by (simp add: wire_option_base_def nth_append be16_def)
  moreover have "known_option_type (o_type b)" if "o_type b \<in> {IP4_ENDPOINT, IP4_MULTICAST, IP6_ENDPOINT, IP6_MULTICAST}"
    using that by (auto simp: known_option_type_def)
  moreover have "\<forall>n. length rest < n \<longrightarrow> ip_option_fields n rest =
      (read_protocol (if 2 \<le> length rest then rest ! 1 else if length rest = 1 then rest ! 0 else LAYER_FOUR_UNKNOWN),
       if 4 \<le> length rest then BYTES_TO_WORD (rest ! 2) (rest ! 3) else 0, replicate n 0)"
    by (simp add: ip_option_fields_def Let_def)
  ultimately show ?thesis
    using ip_option_any [OF assms, of _ 4 Ipv4_option] ip_option_any [OF assms, of _ 16 Ipv6_option]
    by (auto simp: deserialize_option_def option_types)
qed

text \<open>A header of which nothing follows, and an IPv6 option that ends within its address.\<close>

theorem truncated_ip_option_accepted_witness:
  "fst (deserialize_option (new_deserializer [0, 9, 4, 0] 0)) = Ok (Ipv4_option \<lparr>o_length = 9, o_type = 4\<rparr> LAYER_FOUR_UNKNOWN 0 (replicate 4 0))
   \<and> fst (deserialize_option (new_deserializer [0, 21, 6, 0, 0xFE, 17, 0x12, 0x34, 0x56] 0))
      = Ok (Ipv6_option \<lparr>o_length = 21, o_type = 6\<rparr> 17 0x1234 (replicate 16 0))"
proof
  have "unread (new_deserializer [0, 9, 4, 0] 0) = wire_option_base \<lparr>o_length = 9, o_type = 4\<rparr> @ []"
    by (simp add: wire_option_base_def be16_def byteorder_defs)
  from truncated_ip_option_accepted [OF _ this]
  show "fst (deserialize_option (new_deserializer [0, 9, 4, 0] 0)) = Ok (Ipv4_option \<lparr>o_length = 9, o_type = 4\<rparr> LAYER_FOUR_UNKNOWN 0 (replicate 4 0))"
    by (simp add: option_types VSOMEIP_SD_IPV4_OPTION_LENGTH_def read_protocol_def LAYER_FOUR_UNKNOWN_def)
  let ?d = "new_deserializer [0, 21, 6, 0, 0xFE, 17, 0x12, 0x34, 0x56] 0"
  have "unread ?d = wire_option_base \<lparr>o_length = 21, o_type = 6\<rparr> @ [0xFE, 17, 0x12, 0x34, 0x56]"
    by (simp add: wire_option_base_def be16_def byteorder_defs)
  from truncated_ip_option_accepted [OF _ this]
  show "fst (deserialize_option ?d) = Ok (Ipv6_option \<lparr>o_length = 21, o_type = 6\<rparr> 17 0x1234 (replicate 16 0))"
    by (simp add: option_types VSOMEIP_SD_IPV6_OPTION_LENGTH_def read_protocol_def LAYER_FOUR_UDP_def BYTES_TO_WORD_def)
qed

end
