(* ===== verification/Sd_Message.thy ===== *)
theory Sd_Message
  imports Sd_Option_Wire
begin

text \<open>
  The service discovery message (\<open>implementation/service_discovery/src/message_impl.cpp\<close>): building it
  entry by entry, writing it, and reading it from the network. Options are shared objects that are
  compared by value (\<open>find_option\<close>) and by identity (\<open>get_option_index\<close>), so an option in the message
  carries its address. A received option gets its position in the array as its address.
\<close>

section \<open>The class\<close>

type_synonym option_ptr = "nat \<times> sd_option"

record sd_message =
  sm_header :: header
  sm_flags :: byte
  sm_options_length :: u32
  sm_current_message_size :: u32
  sm_entries :: "sd_entry list"
  sm_options :: "option_ptr list"

definition VSOMEIP_SOMEIP_SD_DATA_SIZE :: u32 where "VSOMEIP_SOMEIP_SD_DATA_SIZE = 12"
definition VSOMEIP_SOMEIP_SD_ENTRY_LENGTH_SIZE :: u32 where "VSOMEIP_SOMEIP_SD_ENTRY_LENGTH_SIZE = 4"
definition VSOMEIP_SOMEIP_SD_ENTRY_SIZE :: u32 where "VSOMEIP_SOMEIP_SD_ENTRY_SIZE = 16"
definition VSOMEIP_SOMEIP_SD_OPTION_LENGTH_SIZE :: u32 where "VSOMEIP_SOMEIP_SD_OPTION_LENGTH_SIZE = 4"
definition VSOMEIP_SOMEIP_SD_OPTION_HEADER_SIZE :: u32 where "VSOMEIP_SOMEIP_SD_OPTION_HEADER_SIZE = 3"
definition VSOMEIP_SOMEIP_SD_EMPTY_MESSAGE_SIZE :: u32 where "VSOMEIP_SOMEIP_SD_EMPTY_MESSAGE_SIZE = 28"
definition VSOMEIP_MAX_UDP_SD_PAYLOAD :: u32 where "VSOMEIP_MAX_UDP_SD_PAYLOAD = 1380"
definition VSOMEIP_REBOOT_FLAG :: byte where "VSOMEIP_REBOOT_FLAG = 0x80"
definition VSOMEIP_UNICAST_FLAG :: byte where "VSOMEIP_UNICAST_FLAG = 0x40"

lemmas sd_sizes = VSOMEIP_SOMEIP_SD_DATA_SIZE_def VSOMEIP_SOMEIP_SD_ENTRY_LENGTH_SIZE_def
  VSOMEIP_SOMEIP_SD_ENTRY_SIZE_def VSOMEIP_SOMEIP_SD_OPTION_LENGTH_SIZE_def
  VSOMEIP_SOMEIP_SD_OPTION_HEADER_SIZE_def VSOMEIP_SOMEIP_SD_EMPTY_MESSAGE_SIZE_def VSOMEIP_MAX_UDP_SD_PAYLOAD_def

definition get_reboot_flag :: "sd_message \<Rightarrow> bool" where
  "get_reboot_flag m \<longleftrightarrow> sm_flags m AND VSOMEIP_REBOOT_FLAG \<noteq> 0"

definition set_reboot_flag :: "bool \<Rightarrow> sd_message \<Rightarrow> sd_message" where
  "set_reboot_flag is_set m =
     (if is_set then m\<lparr>sm_flags := sm_flags m OR VSOMEIP_REBOOT_FLAG\<rparr>
      else m\<lparr>sm_flags := sm_flags m AND NOT VSOMEIP_REBOOT_FLAG\<rparr>)"

definition get_unicast_flag :: "sd_message \<Rightarrow> bool" where
  "get_unicast_flag m \<longleftrightarrow> sm_flags m AND VSOMEIP_UNICAST_FLAG \<noteq> 0"

definition set_unicast_flag :: "bool \<Rightarrow> sd_message \<Rightarrow> sd_message" where
  "set_unicast_flag is_set m =
     (if is_set then m\<lparr>sm_flags := sm_flags m OR VSOMEIP_UNICAST_FLAG\<rparr>
      else m\<lparr>sm_flags := sm_flags m AND NOT VSOMEIP_UNICAST_FLAG\<rparr>)"

definition new_sd_message :: sd_message where
  "new_sd_message = set_unicast_flag True
     \<lparr>sm_header = new_header\<lparr>h_service := 0xFFFF, h_instance := 0, h_method := 0x8100, h_client := 0,
        h_protocol_version := 1, h_interface_version := 1, h_type := MT_NOTIFICATION, h_code := E_OK\<rparr>,
      sm_flags = 0, sm_options_length = 0, sm_current_message_size = VSOMEIP_SOMEIP_SD_EMPTY_MESSAGE_SIZE,
      sm_entries = [], sm_options = []\<rparr>"

definition sd_get_length :: "sd_message \<Rightarrow> u32" where
  "sd_get_length m =
     VSOMEIP_SOMEIP_SD_DATA_SIZE
     + (if sm_entries m \<noteq> []
        then VSOMEIP_SOMEIP_SD_ENTRY_LENGTH_SIZE + of_nat (length (sm_entries m)) * VSOMEIP_SOMEIP_SD_ENTRY_SIZE
        else 0)
     + VSOMEIP_SOMEIP_SD_OPTION_LENGTH_SIZE
     + sum_list (map (\<lambda>(_, o1). ucast (option_get_length o1) + VSOMEIP_SOMEIP_SD_OPTION_HEADER_SIZE) (sm_options m))"

section \<open>Building a message\<close>

text \<open>\<open>find_option\<close> compares by value; a comparison that throws is \<open>None\<close>.\<close>

fun find_option :: "sd_option \<Rightarrow> option_ptr list \<Rightarrow> option_ptr option option" where
  "find_option o1 [] = Some None"
| "find_option o1 ((a, o2) # rest) =
     (case option_equals o2 o1 of
        None \<Rightarrow> None
      | Some True \<Rightarrow> Some (Some (a, o2))
      | Some False \<Rightarrow> find_option o1 rest)"

definition get_option_index :: "nat \<Rightarrow> option_ptr list \<Rightarrow> int" where
  "get_option_index a options =
     (case find (\<lambda>i. fst (options ! i) = a) [0 ..< nat (sint (of_nat (length options) :: u16))] of
        Some i \<Rightarrow> int i
      | None \<Rightarrow> - 1)"

definition get_option :: "int \<Rightarrow> option_ptr list \<Rightarrow> option_ptr option" where
  "get_option index options =
     (if index > - 1 \<and> nat index < length options then Some (options ! nat index) else None)"

text \<open>The test of \<open>assign_option\<close> whether an index extends a run, computed in \<open>int\<close>.\<close>

definition extends_run :: "byte \<Rightarrow> bytes \<Rightarrow> bool" where
  "extends_run its_index run \<longleftrightarrow>
     run = [] \<or> uint (hd run) = uint its_index + 1 \<or> uint (last run) + 1 = uint its_index"

definition assign_option :: "option_ptr list \<Rightarrow> nat \<Rightarrow> 'a entry_scheme \<Rightarrow> 'a entry_scheme" where
  "assign_option options a e =
     (let i = get_option_index a options in
      if i > - 1 \<and> i < 256
      then let its_index = of_int i in
        if extends_run its_index (e_options1 e)
        then e\<lparr>e_options1 := sort (e_options1 e @ [its_index]), e_num_options1 := e_num_options1 e + 1\<rparr>
        else if extends_run its_index (e_options2 e)
        then e\<lparr>e_options2 := sort (e_options2 e @ [its_index]), e_num_options2 := e_num_options2 e + 1\<rparr>
        else e
      else e)"

fun assign_entry :: "option_ptr list \<Rightarrow> nat \<Rightarrow> sd_entry \<Rightarrow> sd_entry" where
  "assign_entry options a (Service_entry e) = Service_entry (assign_option options a e)"
| "assign_entry options a (Eventgroup_entry e) = Eventgroup_entry (assign_option options a e)"

text \<open>
  The map \<open>its_options\<close> from the option to be used to whether it is new, in the order of the addresses,
  and the size the new options need.
\<close>

fun ptr_put :: "option_ptr \<Rightarrow> bool \<Rightarrow> (option_ptr \<times> bool) list \<Rightarrow> (option_ptr \<times> bool) list" where
  "ptr_put p b [] = [(p, b)]"
| "ptr_put p b ((q, c) # rest) =
     (if fst p < fst q then (p, b) # (q, c) # rest
      else if fst p = fst q then (q, b) # rest
      else (q, c) # ptr_put p b rest)"

fun collect_options ::
  "option_ptr list \<Rightarrow> option_ptr list \<Rightarrow> u32 \<Rightarrow> (option_ptr \<times> bool) list \<Rightarrow> (u32 \<times> (option_ptr \<times> bool) list) option" where
  "collect_options existing [] size_so_far its_options = Some (size_so_far, its_options)"
| "collect_options existing (p # ps) size_so_far its_options =
     (case find_option (snd p) existing of
        None \<Rightarrow> None
      | Some None \<Rightarrow> collect_options existing ps (size_so_far + option_get_size (snd p)) (ptr_put p True its_options)
      | Some (Some q) \<Rightarrow> collect_options existing ps size_so_far (ptr_put q False its_options))"

fun place_options :: "(option_ptr \<times> bool) list \<Rightarrow> option_ptr list \<Rightarrow> sd_entry \<Rightarrow> option_ptr list \<times> sd_entry" where
  "place_options [] options e = (options, e)"
| "place_options ((p, is_new) # rest) options e =
     (let options' = (if is_new then options @ [p] else options)
      in place_options rest options' (assign_entry options' (fst p) e))"

text \<open>
  \<open>add_entry_data\<close>: \<open>None\<close> when a comparison throws; otherwise whether the entry was added, and the
  message. \<open>other\<close> is the optional second entry that refers to the same options.
\<close>

definition add_entry_data ::
  "sd_entry \<Rightarrow> option_ptr list \<Rightarrow> sd_entry option \<Rightarrow> sd_message \<Rightarrow> (bool \<times> sd_message) option" where
  "add_entry_data e opts other m =
     (let base_size = (case other of
            Some _ \<Rightarrow> VSOMEIP_SOMEIP_SD_ENTRY_SIZE + VSOMEIP_SOMEIP_SD_ENTRY_SIZE
          | None \<Rightarrow> VSOMEIP_SOMEIP_SD_ENTRY_SIZE)
      in case collect_options (sm_options m) opts base_size [] of
           None \<Rightarrow> None
         | Some (its_entry_size, its_options) \<Rightarrow>
             if sm_current_message_size m + its_entry_size > VSOMEIP_MAX_UDP_SD_PAYLOAD then Some (False, m)
             else (case place_options its_options (sm_options m) e of
               (options', e') \<Rightarrow>
                 let others = (case other of
                       Some e2 \<Rightarrow> [foldl (\<lambda>x p. assign_entry options' (fst (fst p)) x) e2 its_options]
                     | None \<Rightarrow> [])
                 in Some (True, m\<lparr>sm_entries := sm_entries m @ e' # others, sm_options := options',
                      sm_current_message_size := sm_current_message_size m + its_entry_size\<rparr>)))"

section \<open>Writing\<close>

fun serialize_all :: "('a \<Rightarrow> serializer \<Rightarrow> bool \<times> serializer) \<Rightarrow> 'a list \<Rightarrow> serializer \<Rightarrow> bool \<times> serializer" where
  "serialize_all f [] = (\<lambda>s. (True, s))"
| "serialize_all f (x # xs) = and_s (f x) (serialize_all f xs)"

definition options_size :: "option_ptr list \<Rightarrow> u32" where
  "options_size options =
     sum_list (map (\<lambda>(_, o1). ucast (option_get_length o1) + VSOMEIP_SOMEIP_SD_OPTION_HEADER_SIZE) options)"

definition sd_message_serialize :: "sd_message \<Rightarrow> serializer \<Rightarrow> bool \<times> serializer" where
  "sd_message_serialize m =
     and_s (serialize_header (sd_get_length m) (sm_header m))
    (and_s (serialize_u8 (sm_flags m))
    (and_s (serialize_u32 0 True)
    (and_s (serialize_u32 (of_nat (length (sm_entries m)) * VSOMEIP_SOMEIP_SD_ENTRY_SIZE) False)
    (and_s (serialize_all serialize_entry (sm_entries m))
    (and_s (serialize_u32 (options_size (sm_options m)) False)
           (serialize_all (\<lambda>p. serialize_option (snd p)) (sm_options m)))))))"

section \<open>Reading\<close>

text \<open>
  The two loops of \<open>deserialize\<close> run while bytes remain; they terminate because every entry and every
  option that is read consumes input, on any state of the deserializer. An action is \<open>steady\<close> when it
  never increases the number of remaining bytes, and makes \<open>progress\<close> when success consumes some.
\<close>

named_theorems steady_intros \<open>actions that do not give back input\<close>

definition steady :: "(deserializer, 'a) action \<Rightarrow> bool" where
  "steady p \<longleftrightarrow> (\<forall>d. des_remaining (snd (p d)) \<le> des_remaining d)"

definition progress :: "(deserializer, 'a) action \<Rightarrow> bool" where
  "progress p \<longleftrightarrow> (\<forall>d a d'. p d = (Ok a, d') \<longrightarrow> des_remaining d' < des_remaining d)"

lemma progressD: "progress p \<Longrightarrow> p d = (Ok a, d') \<Longrightarrow> des_remaining d' < des_remaining d"
  by (simp add: progress_def)

lemma steady_return [steady_intros]: "steady (return_a a)" "steady refuse_a"
  by (simp_all add: steady_def)

lemma steady_bind [steady_intros]:
  assumes "steady p" "\<And>a. steady (f a)"
  shows "steady (bind_a p f)"
  unfolding steady_def
proof
  fix d
  obtain r d' where p: "p d = (r, d')" by fastforce
  have d': "des_remaining d' \<le> des_remaining d" using assms(1) p by (metis snd_conv steady_def)
  show "des_remaining (snd (bind_a p f d)) \<le> des_remaining d"
  proof (cases r)
    case (Ok a)
    have "des_remaining (snd (f a d')) \<le> des_remaining d'" using assms(2) by (simp add: steady_def)
    then show ?thesis using p Ok d' by simp
  qed (use p d' in simp_all)
qed

lemma steady_map [steady_intros]: "steady p \<Longrightarrow> steady (map_a f p)"
  unfolding map_a_def by (intro steady_intros)

lemma steady_attempt [steady_intros]: "steady p \<Longrightarrow> steady (attempt p old)"
  unfolding steady_def attempt_def by (auto split: prod.splits result.splits) (metis snd_conv)+

lemma steady_deserialize [steady_intros]:
  "steady deserialize_u8" "steady deserialize_u16" "steady (deserialize_u32 b)" "steady (deserialize_range n)"
  by (auto simp: steady_def des_op_defs map_a_def bind_a_def fetch_def)

lemma progress_bind: "progress p \<Longrightarrow> (\<And>a. steady (f a)) \<Longrightarrow> progress (bind_a p f)"
  unfolding progress_def steady_def by (metis bind_a_OkE le_less_trans snd_conv)

lemma progress_map: "progress p \<Longrightarrow> progress (map_a f p)"
  unfolding map_a_def by (rule progress_bind) (simp_all add: steady_return)

lemma progress_deserialize: "progress deserialize_u8" "progress deserialize_u16"
  unfolding progress_def using deserialize_u8_shrinks deserialize_u16_shrinks by blast+

lemma progress_entry_base: "progress (entry_deserialize e0)"
  unfolding entry_deserialize_def Let_def by (intro progress_bind progress_deserialize steady_intros)

lemma progress_entry: "progress deserialize_entry"
proof -
  have "progress (serviceentry_deserialize e0)" "progress (eventgroupentry_deserialize e1)" for e0 e1
    unfolding serviceentry_deserialize_def eventgroupentry_deserialize_def
    by (intro progress_bind progress_entry_base steady_intros)+
  then have "progress (map_a Service_entry (serviceentry_deserialize e0))"
    "progress (map_a Eventgroup_entry (eventgroupentry_deserialize e1))" for e0 e1
    by (simp_all add: progress_map)
  then show ?thesis unfolding progress_def
    by (auto simp: deserialize_entry_def split: result.splits if_splits)
qed

lemma progress_option_base: "progress (option_deserialize b0)"
proof -
  have "steady (\<lambda>d. if known_option_type t then (Ok b1, d) else (Ok b2, set_remaining 0 d))"
    for t and b1 b2 :: option_impl
    by (simp add: steady_def set_remaining_def)
  then show ?thesis unfolding option_deserialize_def by (intro progress_bind progress_deserialize steady_intros)
qed

lemma steady_selective_loop [steady_intros]: "steady (selective_loop i len cs)"
proof -
  have "des_remaining (snd (selective_loop i len cs d)) \<le> des_remaining d" for d
  proof (induction i len cs d rule: selective_loop.induct)
    case (1 i len cs d)
    obtain r d' where u: "deserialize_u16 d = (r, d')" by fastforce
    then have "des_remaining d' \<le> des_remaining d" using steady_deserialize(2) by (metis snd_conv steady_def)
    then show ?case using 1 u by (subst selective_loop.simps) (fastforce split: result.splits)
  qed
  then show ?thesis by (simp add: steady_def)
qed

lemma steady_configuration_loop [steady_intros]: "steady (configuration_loop c)"
proof -
  have "des_remaining (snd (configuration_loop c d)) \<le> des_remaining d" for d
  proof (induction c d rule: configuration_loop.induct)
    case (1 c d)
    obtain r d1 where u: "deserialize_u8 d = (r, d1)" by fastforce
    have d1: "des_remaining d1 \<le> des_remaining d" using u steady_deserialize(1) by (metis snd_conv steady_def)
    show ?case
    proof (cases r)
      case (Ok n)
      obtain r2 d2 where v: "deserialize_string 256 (unat n) d1 = (r2, d2)" by fastforce
      have "des_remaining d2 \<le> des_remaining d1"
        using v by (auto simp: deserialize_string_def fetch_def split: if_splits)
      then show ?thesis using 1 u v Ok d1
        by (subst configuration_loop.simps) (fastforce split: result.splits prod.splits)
    qed (use u d1 in \<open>simp_all add: configuration_loop.simps\<close>)
  qed
  then show ?thesis by (simp add: steady_def)
qed

lemma steady_ip_option_rest: "steady (ip_option_rest n l mk base)"
  unfolding ip_option_rest_def by (cases base) (simp_all add: steady_intros)

lemma ip_option_rest_None: "fst (ip_option_rest n l mk None d) \<noteq> Ok a"
proof
  assume "fst (ip_option_rest n l mk None d) = Ok a"
  then have "ip_option_rest n l mk None d = (Ok a, snd (ip_option_rest n l mk None d))" by (metis prod.collapse)
  then show False unfolding ip_option_rest_def option.case
    by (elim bind_a_OkE) simp
qed

lemma progress_ip_option: "progress (ip_option_deserialize n l mk)"
  unfolding progress_def
proof (intro allI impI)
  fix d a d' assume ip: "ip_option_deserialize n l mk d = (Ok a, d')"
  then obtain base d1 where 1: "attempt (map_a Some (option_deserialize new_option)) None d = (Ok base, d1)"
    and 2: "ip_option_rest n l mk base d1 = (Ok a, d')"
    unfolding ip_option_deserialize_def by (rule bind_a_OkE)
  have "des_remaining d' \<le> des_remaining d1" using 2 steady_ip_option_rest by (metis snd_conv steady_def)
  moreover have "base \<noteq> None" using 2 ip_option_rest_None by (metis fst_conv)
  then have "map_a Some (option_deserialize new_option) d = (Ok base, d1)"
    using 1 by (auto simp: attempt_def split: prod.splits result.splits)
  then have "des_remaining d1 < des_remaining d" by (rule progressD [OF progress_map [OF progress_option_base]])
  ultimately show "des_remaining d' < des_remaining d" by simp
qed

lemma progress_option: "progress deserialize_option"
proof -
  have "progress configuration_option_deserialize" "progress selective_option_deserialize"
    "progress load_balancing_option_deserialize" "progress protection_option_deserialize"
    unfolding configuration_option_deserialize_def selective_option_deserialize_def
      load_balancing_option_deserialize_def protection_option_deserialize_def
    by (intro progress_bind progress_option_base steady_intros)+
  moreover have "progress (map_a Plain_option (option_deserialize b0))" for b0
    by (rule progress_map [OF progress_option_base])
  ultimately show ?thesis using progress_ip_option unfolding progress_def
    by (auto simp: deserialize_option_def split: result.splits if_splits)
qed

function entries_loop :: "sd_entry list \<Rightarrow> (deserializer, sd_entry list) action" where
  "entries_loop entries d =
     (if get_remaining d = 0 then (Ok entries, d)
      else (case deserialize_entry d of
              (Ok e, d') \<Rightarrow> entries_loop (entries @ [e]) d'
            | (Refused, d') \<Rightarrow> (Refused, d')
            | (Undefined, d') \<Rightarrow> (Undefined, d')))"
  by pat_completeness auto
termination
  by (relation "measure (\<lambda>(entries, d). des_remaining d)") (auto intro: progressD [OF progress_entry sym])

text \<open>An option that cannot be read ends the loop; the options read before it are kept.\<close>

function options_loop :: "option_ptr list \<Rightarrow> (deserializer, option_ptr list) action" where
  "options_loop options d =
     (if get_remaining d = 0 then (Ok options, d)
      else (case deserialize_option d of
              (Ok o1, d') \<Rightarrow> options_loop (options @ [(length options, o1)]) d'
            | (Refused, d') \<Rightarrow> (Ok options, d')
            | (Undefined, d') \<Rightarrow> (Undefined, d')))"
  by pat_completeness auto
termination
  by (relation "measure (\<lambda>(options, d). des_remaining d)") (auto intro: progressD [OF progress_option sym])

declare entries_loop.simps [simp del] options_loop.simps [simp del]

text \<open>The part of \<open>deserialize\<close> behind the entries array; \<open>entries\<close> is \<open>None\<close> when an entry was refused.\<close>

definition deserialize_options :: "sd_message \<Rightarrow> sd_entry list option \<Rightarrow> (deserializer, sd_message) action" where
  "deserialize_options m entries d =
     (if get_remaining d = 0
      then (case entries of Some es \<Rightarrow> (Ok (m\<lparr>sm_entries := es\<rparr>), d) | None \<Rightarrow> (Refused, d))
      else
        let read_length = (if entries \<noteq> None then attempt (map_a Some (deserialize_u32 False)) None else return_a None)
        in bind_a read_length (\<lambda>len d1.
             let options_length = (case len of Some n \<Rightarrow> n | None \<Rightarrow> sm_options_length m);
                 d2 = (if get_remaining d1 > unat options_length then set_remaining (unat options_length) d1 else d1)
             in bind_a (options_loop []) (\<lambda>options.
                  case (entries, len) of
                    (Some es, Some _) \<Rightarrow>
                      return_a (m\<lparr>sm_entries := es, sm_options_length := options_length, sm_options := options,
                        sm_current_message_size := 0\<rparr>)
                  | _ \<Rightarrow> refuse_a) d2) d)"

definition deserialize_body :: "sd_message \<Rightarrow> u32 \<Rightarrow> (deserializer, sd_message) action" where
  "deserialize_body m entries_length d =
     (let save_remaining = of_nat (get_remaining d) :: u32 in
      if entries_length > save_remaining then (Refused, d)
      else (case entries_loop [] (set_remaining (unat entries_length) d) of
              (Ok es, d') \<Rightarrow> deserialize_options m (Some es) (set_remaining (unat (save_remaining - entries_length)) d')
            | (Refused, d') \<Rightarrow> deserialize_options m None (set_remaining (unat (save_remaining - entries_length)) d')
            | (Undefined, d') \<Rightarrow> (Undefined, d')))"

definition sd_message_deserialize :: "sd_message \<Rightarrow> (deserializer, sd_message) action" where
  "sd_message_deserialize m =
     bind_a (deserialize_header (sm_header m)) (\<lambda>h.
     bind_a deserialize_u8 (\<lambda>flags.
     bind_a (deserialize_u32 True) (\<lambda>reserved.
     bind_a (deserialize_u32 False) (\<lambda>entries_length.
       deserialize_body (m\<lparr>sm_header := h, sm_flags := flags\<rparr>) entries_length))))"

definition deserialize_sd_message :: "(deserializer, sd_message) action" where
  "deserialize_sd_message = sd_message_deserialize new_sd_message"

end
