(* ===== verification/Sd_Message_Wire.thy ===== *)
theory Sd_Message_Wire
  imports Sd_Message
begin

text \<open>
  What is written and read as a service discovery message: the wire format as a list of bytes, the
  round trip, the length field, and the inputs on which reading has undefined behaviour.
\<close>

section \<open>The wire format\<close>

definition wire_entries :: "sd_entry list \<Rightarrow> bytes" where
  "wire_entries es = concat (map wire_entry es)"

definition wire_options :: "option_ptr list \<Rightarrow> bytes" where
  "wire_options os = concat (map (\<lambda>p. wire_option (snd p)) os)"

definition wire_sd_message :: "sd_message \<Rightarrow> bytes" where
  "wire_sd_message m =
     wire_header (sd_get_length m) (sm_header m) @ [sm_flags m] @ be24 0
       @ be32 (of_nat (length (sm_entries m)) * VSOMEIP_SOMEIP_SD_ENTRY_SIZE) @ wire_entries (sm_entries m)
       @ be32 (options_size (sm_options m)) @ wire_options (sm_options m)"

lemma length_wire_entries [simp]: "length (wire_entries es) = 16 * length es"
  by (induction es) (simp_all add: wire_entries_def)

lemma appends_all [wire_simps]: "(\<And>x. appends (f x) (w x)) \<Longrightarrow> appends (serialize_all f xs) (concat (map w xs))"
proof (induction xs)
  case Nil
  show ?case by (simp add: appends_def)
next
  case (Cons x xs)
  then show ?case using appends_and [of "f x" "w x"] by simp
qed

lemma appends_sd_message [wire_simps]: "appends (sd_message_serialize m) (wire_sd_message m)"
  unfolding sd_message_serialize_def wire_sd_message_def wire_entries_def wire_options_def
  by (intro wire_simps)

text \<open>Messages that are described by their fields: known entry types, readable options with a correct
  length field, and a size that fits the length fields.\<close>

definition good_sd_message :: "sd_message \<Rightarrow> bool" where
  "good_sd_message m \<longleftrightarrow>
     list_all entry_type_ok (sm_entries m)
     \<and> list_all (\<lambda>p. good_option (snd p) \<and> unat (option_get_length (snd p)) + 3 = length (wire_option (snd p))) (sm_options m)
     \<and> 32 + 16 * length (sm_entries m) + length (wire_options (sm_options m)) < 2 ^ 32"

lemma options_size_sum:
  assumes "list_all (\<lambda>p. unat (option_get_length (snd p)) + 3 = length (wire_option (snd p))) os"
  shows "options_size os = of_nat (length (wire_options os))"
  using assms
proof (induction os)
  case (Cons p os)
  have "unat (option_get_length (snd p)) + 3 = length (wire_option (snd p))" using Cons.prems by simp
  then have "(of_nat (unat (option_get_length (snd p)) + 3) :: u32) = of_nat (length (wire_option (snd p)))"
    by (rule arg_cong)
  then have "ucast (option_get_length (snd p)) + 3 = (of_nat (length (wire_option (snd p))) :: u32)" by simp
  then show ?case
    using Cons.IH Cons.prems by (simp add: options_size_def wire_options_def sd_sizes case_prod_unfold)
qed (simp add: options_size_def wire_options_def)

lemma good_options_size:
  assumes "good_sd_message m"
  shows "options_size (sm_options m) = of_nat (length (wire_options (sm_options m)))"
  by (rule options_size_sum) (use assms in \<open>auto simp: good_sd_message_def list_all_iff\<close>)

text \<open>
  [C30] Writing a message succeeds, and its length field, the bytes four to seven of what is written,
  counts the bytes behind it when there is at least one entry. When there is none, \<open>get_length\<close> leaves
  out the entries length field that \<open>serialize\<close> writes all the same, and the field is four too small. The
  message has entries of known types and options whose own length fields are right.
\<close>

theorem sd_length_field:
  assumes "good_sd_message m"
  shows "\<exists>s. sd_message_serialize m (new_serializer t) = (True, s)
    \<and> length (ser_data s) = unat (sd_get_length m) + 8 + (if sm_entries m = [] then 4 else 0)
    \<and> take 4 (drop 4 (ser_data s)) = be32 (sd_get_length m)"
proof -
  let ?n = "16 + (if sm_entries m = [] then 0 else 4 + 16 * length (sm_entries m)) + length (wire_options (sm_options m))"
  have "sd_get_length m = of_nat ?n"
    using good_options_size [OF assms] by (simp add: sd_get_length_def options_size_def sd_sizes)
  moreover have "?n < 2 ^ 32" using assms by (simp add: good_sd_message_def)
  ultimately have "unat (sd_get_length m) = ?n" by (simp only: unat_u32)
  moreover have "sd_message_serialize m (new_serializer t) = (True, (new_serializer t)\<lparr>ser_data := wire_sd_message m\<rparr>)"
    using appendsD [OF appends_sd_message] by (simp add: new_serializer_def)
  ultimately show ?thesis by (simp add: wire_sd_message_def wire_header_def)
qed

section \<open>Reading back\<close>

lemma unread_set_remaining: "n \<le> des_remaining d \<Longrightarrow> unread (set_remaining n d) = take n (unread d)"
  by (simp add: unread_def set_remaining_def min_def)

lemma wf_set_remaining: "wf_des d \<Longrightarrow> n \<le> des_remaining d \<Longrightarrow> wf_des (set_remaining n d)"
  by (simp add: wf_des_def set_remaining_def)

lemma entries_loop_wire:
  assumes "wf_des d" "unread d = wire_entries es" "list_all entry_type_ok es"
  shows "entries_loop acc d = (Ok (acc @ map reread_entry es), skip_des (16 * length es) d)"
  using assms
proof (induction es arbitrary: acc d)
  case Nil
  then have "des_remaining d = 0" using length_unread [of d] by (simp add: wire_entries_def)
  then show ?case by (simp add: entries_loop.simps get_remaining_def)
next
  case (Cons e es)
  have w: "unread d = wire_entry e @ wire_entries es" using Cons.prems(2) by (simp add: wire_entries_def)
  have r: "get_remaining d \<noteq> 0" using unread_append(1) [OF Cons.prems(1) w] by (simp add: get_remaining_def)
  have "deserialize_entry d = (Ok (reread_entry e), skip_des 16 d)"
    using deserialize_entry_wire [OF Cons.prems(1) w] Cons.prems(3) by simp
  then have "entries_loop acc d = entries_loop (acc @ [reread_entry e]) (skip_des 16 d)"
    using r by (subst entries_loop.simps) simp
  also have "\<dots> = (Ok ((acc @ [reread_entry e]) @ map reread_entry es), skip_des (16 * length es) (skip_des 16 d))"
    by (rule Cons.IH) (use unread_append [OF Cons.prems(1) w] Cons.prems(3) in simp_all)
  finally show ?case by (simp add: add.commute)
qed

lemma options_loop_wire:
  assumes "wf_des d" "unread d = wire_options os" "list_all (\<lambda>p. good_option (snd p)) os"
  shows "fst (options_loop acc d) = Ok (acc @ enumerate (length acc) (map snd os))"
  using assms
proof (induction os arbitrary: acc d)
  case Nil
  then have "des_remaining d = 0" using length_unread [of d] by (simp add: wire_options_def)
  then show ?case by (simp add: options_loop.simps get_remaining_def)
next
  case (Cons p os)
  have w: "unread d = wire_option (snd p) @ wire_options os" using Cons.prems(2) by (simp add: wire_options_def)
  have "4 \<le> length (wire_option (snd p))" by (simp add: wire_option_def)
  then have r: "get_remaining d \<noteq> 0" using unread_append(1) [OF Cons.prems(1) w] by (simp add: get_remaining_def)
  have "deserialize_option d = (Ok (snd p), skip_des (length (wire_option (snd p))) d)"
    using deserialize_option_wire [OF Cons.prems(1) w] Cons.prems(3) by simp
  then have "options_loop acc d = options_loop (acc @ [(length acc, snd p)]) (skip_des (length (wire_option (snd p))) d)"
    using r by (subst options_loop.simps) simp
  also have "fst \<dots> = Ok ((acc @ [(length acc, snd p)])
      @ enumerate (length (acc @ [(length acc, snd p)])) (map snd os))"
    by (rule Cons.IH) (use unread_append [OF Cons.prems(1) w] Cons.prems(3) in simp_all)
  finally show ?case by simp
qed

lemma deserialize_options_wire:
  assumes "wf_des d" "unread d = be32 (of_nat (length (wire_options os))) @ wire_options os"
    and "list_all (\<lambda>p. good_option (snd p)) os" "length (wire_options os) < 2 ^ 32"
  shows "fst (deserialize_options m (Some es) d)
    = Ok (m\<lparr>sm_entries := es, sm_options_length := of_nat (length (wire_options os)),
        sm_options := enumerate 0 (map snd os), sm_current_message_size := 0\<rparr>)"
proof -
  let ?n = "of_nat (length (wire_options os)) :: u32" and ?d1 = "skip_des 4 d"
  have n: "unat ?n = length (wire_options os)" using assms(4) by (rule unat_u32)
  have r: "get_remaining d \<noteq> 0" using unread_append(1) [OF assms(1,2)] by (simp add: get_remaining_def)
  have read: "attempt (map_a Some (deserialize_u32 False)) None d = (Ok (Some ?n), ?d1)"
    using c32.des_wire [OF assms(1) TrueI assms(2)] by (simp add: attempt_def map_a_def)
  have d1: "wf_des ?d1" "unread ?d1 = wire_options os" using unread_append(2,3) [OF assms(1,2)] by simp_all
  then have "get_remaining ?d1 = length (wire_options os)" using length_unread by (metis get_remaining_def)
  then have "\<not> get_remaining ?d1 > unat ?n" using n by simp
  moreover have "fst (options_loop [] ?d1) = Ok (enumerate 0 (map snd os))"
    using options_loop_wire [OF d1 assms(3), of "[]"] by simp
  then have "options_loop [] ?d1 = (Ok (enumerate 0 (map snd os)), snd (options_loop [] ?d1))" by (metis prod.collapse)
  ultimately show ?thesis
    using r by (simp add: deserialize_options_def Let_def bind_a_def [of "attempt (map_a Some (deserialize_u32 False)) None"] read)
qed

lemma deserialize_body_wire:
  assumes "wf_des d" "good_sd_message m"
    and "unread d = wire_entries (sm_entries m) @ be32 (options_size (sm_options m)) @ wire_options (sm_options m)"
  shows "fst (deserialize_body m0 (of_nat (length (sm_entries m)) * VSOMEIP_SOMEIP_SD_ENTRY_SIZE) d)
    = Ok (m0\<lparr>sm_entries := map reread_entry (sm_entries m), sm_options_length := options_size (sm_options m),
        sm_options := enumerate 0 (map snd (sm_options m)), sm_current_message_size := 0\<rparr>)"
proof -
  let ?e = "16 * length (sm_entries m)" and ?o = "length (wire_options (sm_options m))"
  have g: "list_all entry_type_ok (sm_entries m)" "list_all (\<lambda>p. good_option (snd p)) (sm_options m)"
    "32 + ?e + ?o < 2 ^ 32"
    using assms(2) by (auto simp: good_sd_message_def list_all_iff)
  have el: "of_nat (length (sm_entries m)) * VSOMEIP_SOMEIP_SD_ENTRY_SIZE = (of_nat ?e :: u32)"
    by (simp add: sd_sizes)
  have ue: "unat (of_nat ?e :: u32) = ?e" by (rule unat_u32) (use g(3) in simp)
  have rem: "des_remaining d = ?e + (4 + ?o)" using length_unread [OF assms(1)] assms(3) by simp
  have us: "unat (of_nat (des_remaining d) :: u32) = des_remaining d" by (rule unat_u32) (use g(3) rem in simp)
  have le: "\<not> (of_nat ?e :: u32) > of_nat (des_remaining d)"
    unfolding word_less_nat_alt ue us using rem by simp
  let ?d1 = "set_remaining ?e d"
  have d1: "wf_des ?d1" "unread ?d1 = wire_entries (sm_entries m)"
    using wf_set_remaining [OF assms(1), of ?e] unread_set_remaining [of ?e d] rem assms(3) by simp_all
  have loop: "entries_loop [] ?d1 = (Ok (map reread_entry (sm_entries m)), skip_des ?e ?d1)"
    using entries_loop_wire [OF d1 g(1), of "[]"] by simp
  have ud: "unat (of_nat (des_remaining d) - of_nat ?e :: u32) = 4 + ?o"
    using unat_sub [of "of_nat ?e :: u32" "of_nat (des_remaining d)"] le us ue rem by (simp add: not_less)
  let ?d2 = "set_remaining (4 + ?o) (skip_des ?e ?d1)"
  have d2: "?d2 = skip_des ?e d" using rem by (simp add: set_remaining_def skip_des_def)
  have d2': "wf_des ?d2" "unread ?d2 = be32 (of_nat ?o) @ wire_options (sm_options m)"
    using unread_append(2,3) [OF assms(1,3)] good_options_size [OF assms(2)] by (simp_all add: d2)
  have "deserialize_body m0 (of_nat ?e) d = deserialize_options m0 (Some (map reread_entry (sm_entries m))) ?d2"
    by (simp only: deserialize_body_def get_remaining_def Let_def ue ud loop le if_False prod.case result.case)
  moreover have "?o < 2 ^ 32" using g(3) by simp
  note deserialize_options_wire [OF d2' g(2) this, of m0 "map reread_entry (sm_entries m)"]
  ultimately show ?thesis unfolding el good_options_size [OF assms(2)] by (simp only:)
qed

lemma sd_message_read_back:
  assumes "good_sd_message m"
  shows "fst (deserialize_sd_message (new_deserializer (wire_sd_message m) t'))
      = Ok (new_sd_message\<lparr>sm_header := (sm_header m)\<lparr>h_length := sd_get_length m, h_instance := 0\<rparr>,
          sm_flags := sm_flags m, sm_entries := map reread_entry (sm_entries m),
          sm_options_length := options_size (sm_options m),
          sm_options := enumerate 0 (map snd (sm_options m)), sm_current_message_size := 0\<rparr>)"
proof -
  let ?d = "new_deserializer (wire_sd_message m) t'"
  have w: "unread ?d = wire_sd_message m" "wf_des ?d" by simp_all
  note w0 = trans [OF w(1) wire_sd_message_def]
  note h = deserialize_header_wire [OF w(2) w0, of "sm_header new_sd_message"]
  note u = unread_append [OF w(2) w0]
  have d1: "wf_des (skip_des 16 ?d)" using u(2) by simp
  have w1: "unread (skip_des 16 ?d) = [sm_flags m] @ be24 0
       @ be32 (of_nat (length (sm_entries m)) * VSOMEIP_SOMEIP_SD_ENTRY_SIZE) @ wire_entries (sm_entries m)
       @ be32 (options_size (sm_options m)) @ wire_options (sm_options m)" using u(3) by simp
  note s1 = c8.bind_wire [OF d1 TrueI w1]
  have z: "take_bit 24 (0 :: u32) = 0" by simp
  note s2 = c24.bind_wire [OF s1(2) z s1(3)]
  note s3 = c32.bind_wire [OF s2(2) TrueI s2(3)]
  have h_inst: "h_instance (sm_header new_sd_message) = 0" by (simp add: new_sd_message_def set_unicast_flag_def)
  have "deserialize_sd_message ?d = deserialize_body
      (new_sd_message\<lparr>sm_header := (sm_header m)\<lparr>h_length := sd_get_length m, h_instance := h_instance (sm_header new_sd_message)\<rparr>,
        sm_flags := sm_flags m\<rparr>)
      (of_nat (length (sm_entries m)) * VSOMEIP_SOMEIP_SD_ENTRY_SIZE)
      (skip_des (length (be32 (of_nat (length (sm_entries m)) * VSOMEIP_SOMEIP_SD_ENTRY_SIZE)))
        (skip_des (length (be24 0)) (skip_des (length [sm_flags m]) (skip_des 16 ?d))))"
    unfolding deserialize_sd_message_def sd_message_deserialize_def bind_a_def [of "deserialize_header _"]
    by (simp only: h prod.case result.case s1(1) s2(1) s3(1))
  then show "fst (deserialize_sd_message ?d)
      = Ok (new_sd_message\<lparr>sm_header := (sm_header m)\<lparr>h_length := sd_get_length m, h_instance := 0\<rparr>,
          sm_flags := sm_flags m, sm_entries := map reread_entry (sm_entries m),
          sm_options_length := options_size (sm_options m),
          sm_options := enumerate 0 (map snd (sm_options m)), sm_current_message_size := 0\<rparr>)"
    using deserialize_body_wire [OF s3(2) assms s3(3)] h_inst by (simp only: sd_message.simps)
qed

text \<open>
  [C4] A service discovery message whose entries have known types and whose options are well-formed, with
  right length fields, is written, and reading what was written gives its header (with the length field
  that was written), its flags, every option in its order, and every entry as an entry is transmitted:
  the TTL cut to 24 bits, without the counter and reserved field of an eventgroup entry, the runs of
  options by their first index and their number modulo 16 (\<open>reread_entry\<close>). When the entries are ones the
  format can express, they are read back the same.
\<close>

theorem sd_round_trip:
  assumes "good_sd_message m"
  shows "\<exists>s m'. sd_message_serialize m (new_serializer t) = (True, s)
    \<and> fst (deserialize_sd_message (new_deserializer (ser_data s) t')) = Ok m'
    \<and> m' = new_sd_message\<lparr>sm_header := (sm_header m)\<lparr>h_length := sd_get_length m, h_instance := 0\<rparr>,
          sm_flags := sm_flags m, sm_entries := map reread_entry (sm_entries m),
          sm_options_length := options_size (sm_options m),
          sm_options := enumerate 0 (map snd (sm_options m)), sm_current_message_size := 0\<rparr>
    \<and> (list_all representable (sm_entries m) \<longrightarrow> sm_entries m' = map indexed_entry (sm_entries m))"
proof -
  have "sd_message_serialize m (new_serializer t) = (True, (new_serializer t)\<lparr>ser_data := wire_sd_message m\<rparr>)"
    using appendsD [OF appends_sd_message] by (simp add: new_serializer_def)
  moreover have "map reread_entry (sm_entries m) = map indexed_entry (sm_entries m)" if "list_all representable (sm_entries m)"
    using that by (simp add: list_all_iff reread_representable)
  ultimately show ?thesis using sd_message_read_back [OF assms, of t'] by simp
qed

definition sample_sd_message :: sd_message where
  "sample_sd_message = new_sd_message\<lparr>sm_entries := [Service_entry sample_offer],
     sm_options := [(100, new_ipv4_option False [192, 168, 0, 1] 30509 False), (101, sample_configuration)]\<rparr>"

lemma sample_sd_message_good: "good_sd_message sample_sd_message"
proof -
  have "good_option (new_ipv4_option False [192, 168, 0, 1] 30509 False)"
    by (simp add: new_ipv4_option_def ip_protocol_def read_protocol_def VSOMEIP_SD_IPV4_OPTION_LENGTH_def)
  moreover have "length (wire_option (new_ipv4_option False [192, 168, 0, 1] 30509 False)) = 12"
    "option_get_length (new_ipv4_option False [192, 168, 0, 1] 30509 False) = 9"
    by (simp_all add: new_ipv4_option_def wire_option_def option_get_length_def)
  moreover have "length (wire_option sample_configuration) = 16" "option_get_length sample_configuration = 13"
    by (simp_all add: sample_configuration_def wire_option_def option_get_length_def)
  ultimately show ?thesis
    using sample_configuration_good
    by (simp add: good_sd_message_def sample_sd_message_def sample_offer_def wire_options_def)
qed

theorem sd_length_field_witness:
  "\<exists>s s'. sd_message_serialize sample_sd_message (new_serializer 0) = (True, s)
    \<and> length (ser_data s) = unat (sd_get_length sample_sd_message) + 8
    \<and> sd_message_serialize new_sd_message (new_serializer 0) = (True, s')
    \<and> length (ser_data s') = unat (sd_get_length new_sd_message) + 12"
proof -
  have "good_sd_message new_sd_message" "sm_entries new_sd_message = []"
    by (simp_all add: good_sd_message_def new_sd_message_def set_unicast_flag_def wire_options_def)
  then show ?thesis
    using sd_length_field [OF sample_sd_message_good, of 0] sd_length_field [of new_sd_message 0]
    by (auto simp: sample_sd_message_def)
qed

theorem sd_round_trip_witness:
  "\<exists>s m'. sd_message_serialize sample_sd_message (new_serializer 0) = (True, s)
    \<and> fst (deserialize_sd_message (new_deserializer (ser_data s) 0)) = Ok m'
    \<and> sm_entries m' = [Service_entry (sample_offer\<lparr>e_index1 := 2, e_num_options1 := 2\<rparr>)]
    \<and> map snd (sm_options m') = [new_ipv4_option False [192, 168, 0, 1] 30509 False, sample_configuration]"
proof -
  have "list_all representable (sm_entries sample_sd_message)"
    "map indexed_entry (sm_entries sample_sd_message) = [Service_entry (sample_offer\<lparr>e_index1 := 2, e_num_options1 := 2\<rparr>)]"
    by (simp_all add: sample_sd_message_def runs_representable_def is_run_def indexed_def sample_offer_def first_index_def
        new_serviceentry_def new_entry_def entry.defs serviceentry.defs upt_conv_Cons)
  then show ?thesis using sd_round_trip [OF sample_sd_message_good, of 0 0] by (auto simp: sample_sd_message_def)
qed

end
