(* ===== verification/Sd_Message_Safety.thy ===== *)
theory Sd_Message_Safety
  imports Sd_Message_Wire
begin

text \<open>
  Undefined behaviour in reading service discovery messages: where it can come from, and that it comes
  from nowhere else.
\<close>

section \<open>Reading stays on the buffer\<close>

text \<open>The deserializer stays well-formed and on the same buffer.\<close>

definition des_on :: "bytes \<Rightarrow> deserializer \<Rightarrow> bool" where
  "des_on bs d \<longleftrightarrow> wf_des d \<and> des_data d = bs"

lemma safe_on [safe_intros]:
  "safe_action (des_on bs) deserialize_u8" "safe_action (des_on bs) deserialize_u16"
  "safe_action (des_on bs) (deserialize_u32 b)" "safe_action (des_on bs) (deserialize_range n)"
  "safe_action (des_on bs) (deserialize_string c n)"
  by (rule safe_actionI; simp add: des_on_def des_op_defs map_fetch_wf fetch_wf wf_skip_des)+

lemma safe_on_header [safe_intros]: "safe_action (des_on bs) (deserialize_header h0)"
  unfolding deserialize_header_def by (intro safe_intros)

lemma safe_on_option_base [safe_intros]: "safe_action (des_on bs) (option_deserialize b0)"
proof -
  have "safe_action (des_on bs) (\<lambda>d. if known_option_type t then (Ok b1, d) else (Ok b2, set_remaining 0 d))"
    for t and b1 b2 :: option_impl
    by (rule safe_actionI) (auto simp: set_remaining_def des_on_def wf_des_def)
  then show ?thesis unfolding option_deserialize_def by (intro safe_intros)
qed

lemma safe_on_configuration_loop [safe_intros]: "safe_action (des_on bs) (configuration_loop c)"
proof (rule safe_actionI)
  fix d assume "des_on bs d"
  then show "fst (configuration_loop c d) \<noteq> Undefined \<and> des_on bs (snd (configuration_loop c d))"
  proof (induction c d rule: configuration_loop.induct)
    case (1 c d)
    obtain r d1 where u: "deserialize_u8 d = (r, d1)" by fastforce
    have d1: "r \<noteq> Undefined" "des_on bs d1" using safe_actionD [OF safe_on(1) 1(2)] u by simp_all
    show ?case
    proof (cases r)
      case (Ok n)
      obtain r2 d2 where v: "deserialize_string 256 (unat n) d1 = (r2, d2)" by fastforce
      have "r2 \<noteq> Undefined" "des_on bs d2" using safe_actionD [OF safe_on(5) d1(2)] v by (metis fst_conv snd_conv)+
      then show ?thesis using 1(1) u v Ok d1
        by (subst (1 2) configuration_loop.simps) (auto split: result.splits prod.splits)
    qed (use u d1 in \<open>simp_all add: configuration_loop.simps\<close>)
  qed
qed

lemma safe_on_ip_option [safe_intros]: "safe_action (des_on bs) (ip_option_deserialize n l mk)"
proof -
  have "safe_action (des_on bs) (ip_option_rest n l mk base)" for base
    unfolding ip_option_rest_def by (cases base) (simp_all add: safe_intros)
  then show ?thesis unfolding ip_option_deserialize_def by (intro safe_intros)
qed

lemma safe_on_other_options [safe_intros]:
  "safe_action (des_on bs) load_balancing_option_deserialize"
  "safe_action (des_on bs) protection_option_deserialize"
  "safe_action (des_on bs) configuration_option_deserialize"
  unfolding load_balancing_option_deserialize_def protection_option_deserialize_def configuration_option_deserialize_def
  by (intro safe_intros)+

lemma selective_loop_on: "des_on bs d \<Longrightarrow> des_on bs (snd (selective_loop i len cs d))"
proof (induction i len cs d rule: selective_loop.induct)
  case (1 i len cs d)
  obtain r d' where u: "deserialize_u16 d = (r, d')" by fastforce
  have "des_on bs d'" using safe_actionD [OF safe_on(2) 1(2)] u by simp
  then show ?case using 1 u by (subst selective_loop.simps) (auto split: result.splits)
qed

lemma selective_option_on:
  assumes "des_on bs d"
  shows "des_on bs (snd (selective_option_deserialize d))"
  unfolding selective_option_deserialize_def map_a_def bind_a_def
  using safe_actionD(2) [OF safe_on_option_base assms(1), of new_option] selective_loop_on
  by (auto split: prod.splits result.splits) (metis snd_conv)+

lemma deserialize_option_on:
  assumes "des_on bs d"
  shows "des_on bs (snd (deserialize_option d))"
    "fst (deserialize_option d) = Undefined \<Longrightarrow>
       length bs \<le> des_position d + 2
       \<or> bs ! (des_position d + 2) = SELECTIVE \<and> fst (selective_option_deserialize d) = Undefined"
proof -
  note safe = safe_actionD [OF safe_on_other_options(1) assms(1)] safe_actionD [OF safe_on_other_options(2) assms(1)]
    safe_actionD [OF safe_on_other_options(3) assms(1)] safe_actionD [OF safe_on_ip_option assms(1)]
    safe_actionD [OF safe_map [OF safe_on_option_base] assms(1), of Plain_option new_option]
  show "des_on bs (snd (deserialize_option d))"
    using assms(1) safe selective_option_on [OF assms] by (simp add: deserialize_option_def split: result.splits)
  show "length bs \<le> des_position d + 2
      \<or> bs ! (des_position d + 2) = SELECTIVE \<and> fst (selective_option_deserialize d) = Undefined"
    if "fst (deserialize_option d) = Undefined"
  proof (cases "length bs \<le> des_position d + 2")
    case False
    then have "look_ahead_u8 2 d = Ok (bs ! (des_position d + 2))"
      using assms by (simp add: look_ahead_u8_def des_on_def)
    then show ?thesis using that safe by (simp add: deserialize_option_def split: if_splits)
  qed simp
qed

text \<open>The client loop counts in steps of two from one, so it does not wrap around.\<close>

lemma selective_loop_undefined:
  "wf_des d \<Longrightarrow> odd (unat i) \<Longrightarrow> fst (selective_loop i len cs d) = Undefined \<Longrightarrow>
     unat i < unat len \<and> des_remaining d \<le> unat len - unat i"
proof (induction i len cs d rule: selective_loop.induct)
  case (1 i len cs d)
  have lt: "i < len" using 1(4) by (cases "i < len") (simp_all add: selective_loop.simps [of i len])
  then have n: "unat i < unat len" by (simp add: word_less_nat_alt)
  show ?case
  proof (cases "2 \<le> des_remaining d")
    case False
    then show ?thesis using n by simp
  next
    case True
    then have u: "deserialize_u16 d = (Ok (BYTES_TO_WORD (take 2 (unread d) ! 0) (take 2 (unread d) ! 1)), skip_des 2 d)"
      using 1(2) by (simp add: des_op_defs map_fetch_wf)
    have wf: "wf_des (skip_des 2 d)" using 1(2) True by (simp add: wf_skip_des)
    have "unat i + 2 < 2 ^ 16"
      using n unat_u16_less [of len, simplified] 1(3) by simp presburger
    then have "unat (i + 2) = unat i + 2" by (simp add: unat_word_ariths)
    moreover have "fst (selective_loop (i + 2) len
        (insort_insert (BYTES_TO_WORD (take 2 (unread d) ! 0) (take 2 (unread d) ! 1)) cs) (skip_des 2 d)) = Undefined"
      using 1(4) lt u by (simp add: selective_loop.simps [of i len])
    ultimately show ?thesis using 1(1) [OF lt u [symmetric] refl wf] 1(3) n by auto
  qed
qed

text \<open>\<open>word_at\<close> and \<open>long_at\<close> are the big-endian numbers at a position of the buffer.\<close>

definition word_at :: "bytes \<Rightarrow> nat \<Rightarrow> nat" where
  "word_at bs i = unat (BYTES_TO_WORD (bs ! i) (bs ! (i + 1)))"

definition long_at :: "bytes \<Rightarrow> nat \<Rightarrow> nat" where
  "long_at bs i = unat (BYTES_TO_LONG (bs ! i) (bs ! (i + 1)) (bs ! (i + 2)) (bs ! (i + 3)))"

lemma deserialize_u32_at:
  assumes "wf_des d" "deserialize_u32 False d = (Ok v, d')"
  shows "unat v = long_at (des_data d) (des_position d)" "d' = skip_des 4 d" "4 \<le> des_remaining d"
  using assms by (auto simp: des_op_defs map_fetch_wf long_at_def unread_def wf_des_def split: if_splits)

lemma deserialize_u8_at:
  assumes "wf_des d" "deserialize_u8 d = (Ok v, d')"
  shows "v = des_data d ! des_position d" "d' = skip_des 1 d" "1 \<le> des_remaining d"
  using assms by (auto simp: des_op_defs map_fetch_wf unread_def wf_des_def split: if_splits)

lemma deserialize_u16_at:
  assumes "wf_des d" "deserialize_u16 d = (Ok v, d')"
  shows "unat v = word_at (des_data d) (des_position d)" "d' = skip_des 2 d" "2 \<le> des_remaining d"
  using assms by (auto simp: des_op_defs map_fetch_wf word_at_def unread_def wf_des_def split: if_splits)

text \<open>A selective option that reads a client that is not there announces more bytes than are left.\<close>

lemma selective_option_undefined:
  assumes "wf_des d" "des_data d ! (des_position d + 2) = SELECTIVE"
    and "fst (selective_option_deserialize d) = Undefined"
  shows "des_remaining d \<le> 3 + word_at (des_data d) (des_position d)"
proof -
  have safe: "safe_action wf_des (option_deserialize new_option)" by (rule safe_option_base)
  obtain b d1 where b: "option_deserialize new_option d = (Ok b, d1)"
    and u: "fst (selective_loop 1 (o_length b) [] d1) = Undefined"
  proof (cases "option_deserialize new_option d")
    case (Pair r d1)
    moreover have "r \<noteq> Undefined" using safe_actionD(1) [OF safe assms(1)] Pair by simp
    ultimately show thesis using assms(3) that
      by (cases r) (auto simp: selective_option_deserialize_def map_a_def bind_a_def split: prod.splits result.splits)
  qed
  have wf: "wf_des d1" using safe_actionD(2) [OF safe assms(1)] b by simp
  obtain len ty res d2 d3 d4 where l: "deserialize_u16 d = (Ok len, d2)" "deserialize_u8 d2 = (Ok ty, d3)"
    "deserialize_u8 d3 = (Ok res, d4)" "o_length b = len" "known_option_type ty \<longrightarrow> d1 = d4"
    using b unfolding option_deserialize_def by (elim bind_a_OkE) (auto split: if_splits)
  note len = deserialize_u16_at [OF assms(1) l(1)]
  have d2: "wf_des d2" using len assms(1) by (simp add: wf_skip_des)
  note ty = deserialize_u8_at [OF d2 l(2)]
  have "wf_des d3" using ty d2 by (simp add: wf_skip_des)
  note d4 = deserialize_u8_at [OF this l(3)]
  have "ty = SELECTIVE" using ty(1) len(2) assms(2) by (simp add: add.commute)
  then have "d1 = skip_des 4 d" using l(5) d4 ty len by (simp add: known_option_type_def)
  moreover from selective_loop_undefined [OF wf _ u] l(4) len(1)
  have "1 < word_at (des_data d) (des_position d)"
    "des_remaining d1 \<le> word_at (des_data d) (des_position d) - 1" by simp_all
  ultimately show ?thesis by simp
qed

section \<open>Where the options array starts\<close>

text \<open>Reading entries also keeps the end of the array in place.\<close>

definition des_within :: "bytes \<Rightarrow> nat \<Rightarrow> deserializer \<Rightarrow> bool" where
  "des_within bs c d \<longleftrightarrow> wf_des d \<and> des_data d = bs \<and> des_position d + des_remaining d = c"

lemma safe_within [safe_intros]:
  "safe_action (des_within bs c) deserialize_u8" "safe_action (des_within bs c) deserialize_u16"
  "safe_action (des_within bs c) (deserialize_u32 b)"
  by (rule safe_actionI; auto simp: des_within_def des_op_defs map_fetch_wf fetch_wf wf_skip_des)+

lemma safe_within_entry_base [safe_intros]: "safe_action (des_within bs c) (entry_deserialize e0)"
  unfolding entry_deserialize_def Let_def by (intro safe_intros)

lemma safe_within_entries [safe_intros]:
  "safe_action (des_within bs c) (serviceentry_deserialize e0)"
  "safe_action (des_within bs c) (eventgroupentry_deserialize e1)"
  unfolding serviceentry_deserialize_def eventgroupentry_deserialize_def by (intro safe_intros)+

lemma deserialize_entry_within:
  assumes "des_within bs c d" "0 < des_remaining d"
  shows "fst (deserialize_entry d) \<noteq> Undefined" "des_within bs c (snd (deserialize_entry d))"
proof -
  have la: "look_ahead_u8 0 d = Ok (unread d ! 0)" using assms by (intro look_ahead_unread) (simp_all add: des_within_def)
  note s = safe_actionD [OF safe_map [OF safe_within_entries(1)] assms(1), of Service_entry new_serviceentry]
    safe_actionD [OF safe_map [OF safe_within_entries(2)] assms(1), of Eventgroup_entry new_eventgroupentry]
  show "fst (deserialize_entry d) \<noteq> Undefined" using s(1,3) by (simp add: deserialize_entry_def la)
  show "des_within bs c (snd (deserialize_entry d))" using s(2,4) assms(1) by (simp add: deserialize_entry_def la)
qed

lemma entries_loop_within:
  "des_within bs c d \<Longrightarrow> fst (entries_loop acc d) \<noteq> Undefined \<and> des_within bs c (snd (entries_loop acc d))"
proof (induction acc d rule: entries_loop.induct)
  case (1 acc d)
  show ?case
  proof (cases "des_remaining d = 0")
    case True
    then show ?thesis using 1(2) by (simp add: entries_loop.simps [of acc d] get_remaining_def)
  next
    case False
    obtain r d' where e: "deserialize_entry d = (r, d')" by fastforce
    have "r \<noteq> Undefined" "des_within bs c d'" using deserialize_entry_within [OF 1(2)] False e by simp_all
    then show ?thesis using 1(1) [of r d'] False e
      by (cases r) (simp_all add: entries_loop.simps [of acc d] get_remaining_def)
  qed
qed

lemma entries_loop_done: "entries_loop acc d = (Ok es, d') \<Longrightarrow> des_remaining d' = 0"
proof (induction acc d rule: entries_loop.induct)
  case (1 acc d)
  show ?case
  proof (cases "des_remaining d = 0")
    case True
    then show ?thesis using 1(2) by (simp add: entries_loop.simps [of acc d] get_remaining_def)
  next
    case False
    obtain r d1 where e: "deserialize_entry d = (r, d1)" by fastforce
    then show ?thesis using 1 False
      by (cases r) (simp_all add: entries_loop.simps [of acc d] get_remaining_def)
  qed
qed

lemma options_loop_empty: "des_remaining d = 0 \<Longrightarrow> options_loop acc d = (Ok acc, d)"
  by (simp add: options_loop.simps get_remaining_def)

lemma deserialize_options_refused_entries:
  "sm_options_length m = 0 \<Longrightarrow> fst (deserialize_options m None d) \<noteq> Undefined"
  by (cases "get_remaining d = 0")
    (simp_all add: deserialize_options_def Let_def return_a_def refuse_a_def bind_a_def
      options_loop_empty set_remaining_def get_remaining_def split del: if_split)

lemma deserialize_options_undefined:
  assumes "wf_des d" "sm_options_length m = 0" "fst (deserialize_options m es d) = Undefined"
  obtains d0 where "fst (options_loop [] d0) = Undefined" "des_data d0 = des_data d"
    "des_position d0 = des_position d + 4" "4 \<le> des_remaining d"
    "des_remaining d0 = min (long_at (des_data d) (des_position d)) (des_remaining d - 4)"
proof -
  have r0: "get_remaining d \<noteq> 0" using assms(3)
    by (cases "get_remaining d = 0") (auto simp: deserialize_options_def split: option.splits)
  have no: "bind_a (options_loop []) f (if 0 < get_remaining d then set_remaining 0 d else d)
      = f [] (set_remaining 0 d)" for f :: "option_ptr list \<Rightarrow> (deserializer, sd_message) action"
    using r0 by (simp add: options_loop_empty set_remaining_def get_remaining_def)
  show thesis
  proof (cases "es = None \<or> des_remaining d < 4")
    case True
    then have "fst (deserialize_options m es d) = Refused" using r0 assms(1,2) no
      by (cases es) (simp_all add: deserialize_options_def Let_def attempt_def map_a_def bind_a_def
          deserialize_u32_def refuse_a_def return_a_def)
    then show thesis using assms(3) by simp
  next
    case False
    then obtain v where v: "deserialize_u32 False d = (Ok v, skip_des 4 d)"
      using assms(1) by (simp add: des_op_defs map_fetch_wf)
    define d0 where "d0 = (if get_remaining (skip_des 4 d) > unat v then set_remaining (unat v) (skip_des 4 d)
      else skip_des 4 d)"
    have "attempt (map_a Some (deserialize_u32 False)) None d = (Ok (Some v), skip_des 4 d)"
      by (simp add: attempt_def map_a_def v)
    then have "fst (bind_a (options_loop []) (\<lambda>options. return_a (m\<lparr>sm_entries := the es,
        sm_options_length := v, sm_options := options, sm_current_message_size := 0\<rparr>)) d0) = Undefined"
      using assms(3) False r0 unfolding deserialize_options_def d0_def Let_def by auto
    then have "fst (options_loop [] d0) = Undefined"
      by (cases "options_loop [] d0"; cases "fst (options_loop [] d0)") simp_all
    then show thesis using that deserialize_u32_at [OF assms(1) v]
      by (auto simp: d0_def set_remaining_def get_remaining_def min_def)
  qed
qed

lemma deserialize_body_undefined:
  assumes "wf_des d" "sm_options_length m = 0" "des_remaining d < 2 ^ 32" "fst (deserialize_body m n d) = Undefined"
  obtains d0 where "fst (options_loop [] d0) = Undefined" "des_data d0 = des_data d"
    "des_position d0 = des_position d + unat n + 4" "unat n + 4 \<le> des_remaining d"
    "des_remaining d0 = min (long_at (des_data d) (des_position d + unat n)) (des_remaining d - unat n - 4)"
proof -
  let ?save = "of_nat (get_remaining d) :: u32"
  let ?d1 = "set_remaining (unat n) d"
  have le: "n \<le> ?save" using assms(4) by (cases "n \<le> ?save") (simp_all add: deserialize_body_def Let_def not_le)
  have save: "unat ?save = des_remaining d" using assms(3) by (simp add: unat_of_nat take_bit_eq_mod get_remaining_def)
  have n: "unat n \<le> des_remaining d" using le save by (simp add: word_le_nat_alt)
  have sub: "unat (?save - n) = des_remaining d - unat n" using le save by (simp add: unat_sub)
  have "des_within (des_data d) (des_position d + unat n) ?d1"
    using assms(1) n by (simp add: des_within_def wf_des_def set_remaining_def)
  note within = entries_loop_within [OF this, of "[]"]
  obtain r d' where loop: "entries_loop [] ?d1 = (r, d')" by fastforce
  let ?d2 = "set_remaining (des_remaining d - unat n) d'"
  have d': "des_data d' = des_data d" "des_position d' + des_remaining d' = des_position d + unat n"
    using within loop by (simp_all add: des_within_def)
  have wf: "wf_des ?d2" using assms(1) n d' by (simp add: wf_des_def set_remaining_def)
  have body: "fst (deserialize_options m (case r of Ok es \<Rightarrow> Some es | _ \<Rightarrow> None) ?d2) = Undefined"
    using assms(4) within loop le sub by (cases r) (simp_all add: deserialize_body_def Let_def leD)
  have "r \<noteq> Refused"
  proof
    assume "r = Refused"
    with body have "fst (deserialize_options m None ?d2) = Undefined" by simp
    then show False using deserialize_options_refused_entries assms(2) by simp
  qed
  then have "des_remaining d' = 0" using entries_loop_done loop within by (cases r) auto
  then have pos: "des_position ?d2 = des_position d + unat n" "des_data ?d2 = des_data d"
    "des_remaining ?d2 = des_remaining d - unat n" using d' by (simp_all add: set_remaining_def)
  show thesis
    by (rule deserialize_options_undefined [OF wf assms(2) body, unfolded pos]) (rule that; use n in simp)
qed

section \<open>The cause of undefined behaviour\<close>

text \<open>The positions at which the loop over the options array starts to read an option.\<close>

inductive option_start :: "deserializer \<Rightarrow> deserializer \<Rightarrow> bool" for d0 where
  first: "0 < des_remaining d0 \<Longrightarrow> option_start d0 d0"
| following: "option_start d0 d \<Longrightarrow> deserialize_option d = (Ok o1, d') \<Longrightarrow> 0 < des_remaining d' \<Longrightarrow> option_start d0 d'"

lemma option_start_step:
  assumes "option_start d' d2" "0 < des_remaining d" "deserialize_option d = (Ok o1, d')"
  shows "option_start d d2"
  using assms(1)
proof induction
  case first
  then show ?case using assms option_start.intros by blast
next
  case (following d2 o2 d3)
  then show ?case using option_start.following by blast
qed

lemma options_loop_undefined:
  "des_on bs d \<Longrightarrow> fst (options_loop acc d) = Undefined \<Longrightarrow>
     \<exists>d'. option_start d d' \<and> des_on bs d' \<and> fst (deserialize_option d') = Undefined"
proof (induction acc d rule: options_loop.induct)
  case (1 acc d)
  have r: "0 < des_remaining d" using 1(3)
    by (cases "des_remaining d = 0") (simp_all add: options_loop.simps [of acc d] get_remaining_def)
  obtain res d' where o1: "deserialize_option d = (res, d')" by fastforce
  have on: "des_on bs d'" using deserialize_option_on(1) [OF 1(2)] o1 by simp
  show ?case
  proof (cases res)
    case (Ok o1')
    then have "fst (options_loop (acc @ [(length acc, o1')]) d') = Undefined"
      using 1(3) r o1 by (simp add: options_loop.simps [of acc d] get_remaining_def)
    then obtain d2 where "option_start d' d2" "des_on bs d2" "fst (deserialize_option d2) = Undefined"
      using 1(1) [of res d' o1'] r on o1 Ok by (auto simp: get_remaining_def)
    then show ?thesis using option_start_step r o1 Ok by blast
  next
    case Refused
    then show ?thesis using 1(3) r o1 by (simp add: options_loop.simps [of acc d] get_remaining_def)
  next
    case Undefined
    then show ?thesis using o1 1(2) option_start.first [OF r] by (intro exI [of _ d]) simp
  qed
qed

lemma bind_undefined:
  assumes "safe_action wf_des p" "consumes n p" "wf_des d" "fst (bind_a p f d) = Undefined"
  obtains a where "p d = (Ok a, skip_des n d)" "n \<le> des_remaining d" "wf_des (skip_des n d)"
    "fst (f a (skip_des n d)) = Undefined"
proof (cases "p d")
  case (Pair r d')
  have "r \<noteq> Undefined" using safe_actionD(1) [OF assms(1,3)] Pair by simp
  then show thesis using assms(4) Pair that consumesD [OF assms(2,3)] wf_skip_des [OF assms(3)]
    by (cases r) auto
qed

lemma sd_undefined_body:
  assumes "fst (deserialize_sd_message (new_deserializer bs t)) = Undefined"
  obtains m n where "sm_options_length m = 0" "unat n = long_at bs 20" "wf_des (skip_des 24 (new_deserializer bs t))"
    "fst (deserialize_body m n (skip_des 24 (new_deserializer bs t))) = Undefined"
proof -
  let ?d = "new_deserializer bs t"
  have wf: "wf_des ?d" by (simp add: new_deserializer_def wf_des_def)
  note u = assms [unfolded deserialize_sd_message_def sd_message_deserialize_def]
  from bind_undefined [OF safe_header consumes_header wf u] obtain h where
    1: "wf_des (skip_des 16 ?d)" "fst (bind_a deserialize_u8 (\<lambda>flags. bind_a (deserialize_u32 True) (\<lambda>reserved.
     bind_a (deserialize_u32 False) (\<lambda>entries_length.
       deserialize_body (new_sd_message\<lparr>sm_header := h, sm_flags := flags\<rparr>) entries_length))) (skip_des 16 ?d)) = Undefined"
    by blast
  from bind_undefined [OF safe_deserialize(1) consumes_deserialize(1) 1] obtain fl where 2: "wf_des (skip_des 17 ?d)"
    "fst (bind_a (deserialize_u32 True) (\<lambda>reserved. bind_a (deserialize_u32 False) (\<lambda>entries_length.
       deserialize_body (new_sd_message\<lparr>sm_header := h, sm_flags := fl\<rparr>) entries_length)) (skip_des 17 ?d)) = Undefined"
    by (metis skip_des_skip numeral_plus_one semiring_norm(5,3))
  from bind_undefined [OF safe_deserialize(3) consumes_deserialize(4) 2] have 3: "wf_des (skip_des 20 ?d)"
    "fst (bind_a (deserialize_u32 False) (\<lambda>entries_length.
       deserialize_body (new_sd_message\<lparr>sm_header := h, sm_flags := fl\<rparr>) entries_length) (skip_des 20 ?d)) = Undefined"
    by auto
  from bind_undefined [OF safe_deserialize(3) consumes_deserialize(3) 3] obtain n where
    4: "deserialize_u32 False (skip_des 20 ?d) = (Ok n, skip_des 24 ?d)" "wf_des (skip_des 24 ?d)"
    "fst (deserialize_body (new_sd_message\<lparr>sm_header := h, sm_flags := fl\<rparr>) n (skip_des 24 ?d)) = Undefined"
    by auto
  from deserialize_u32_at(1) [OF 3(1) 4(1)] have "unat n = long_at bs 20" by (simp add: new_deserializer_def)
  then show thesis using that [OF _ _ 4(2,3)] by (simp add: new_sd_message_def set_unicast_flag_def)
qed

text \<open>
  [C10] The only ways in which reading a service discovery message can run into undefined behaviour.
  Entries never cause it. It happens in the options array, which starts behind the entries array and
  its own length field, when the loop is at an option and either the buffer ends before the type byte
  of that option (\<open>look_ahead\<close> compares the index with the size of the buffer and not with what is
  left of it), or the option is a selective option that announces at least as many bytes as are left (a
  client that was not read is then inserted).
\<close>

theorem sd_undefined_cause:
  assumes "length bs < 2 ^ 32" "fst (deserialize_sd_message (new_deserializer bs t)) = Undefined"
  shows "let p = 28 + long_at bs 20 in
    p \<le> length bs \<and> (\<exists>d0 d. des_data d0 = bs \<and> des_position d0 = p
      \<and> des_remaining d0 = min (long_at bs (p - 4)) (length bs - p) \<and> option_start d0 d
      \<and> (length bs \<le> des_position d + 2
         \<or> bs ! (des_position d + 2) = SELECTIVE \<and> des_remaining d \<le> 3 + word_at bs (des_position d)))"
proof -
  let ?d = "skip_des 24 (new_deserializer bs t)"
  from sd_undefined_body [OF assms(2)] obtain m n where m: "sm_options_length m = 0" and n: "unat n = long_at bs 20"
    and wf: "wf_des ?d" and u: "fst (deserialize_body m n ?d) = Undefined" .
  have d: "des_data ?d = bs" "des_position ?d = 24" "des_remaining ?d = length bs - 24"
    by (simp_all add: new_deserializer_def)
  have small: "des_remaining ?d < 2 ^ 32" unfolding d using assms(1) by simp
  obtain d0 where d0: "fst (options_loop [] d0) = Undefined" "des_data d0 = bs"
    "des_position d0 = 24 + unat n + 4" "unat n + 4 \<le> length bs - 24"
    "des_remaining d0 = min (long_at bs (24 + unat n)) (length bs - 24 - unat n - 4)"
    by (rule deserialize_body_undefined [OF wf m small u, unfolded d])
  then have "des_on bs d0" by (simp add: des_on_def wf_des_def)
  from options_loop_undefined [OF this d0(1)] obtain e where
    e: "option_start d0 e" "des_on bs e" "fst (deserialize_option e) = Undefined" by blast
  from deserialize_option_on(2) [OF e(2,3)]
  have "length bs \<le> des_position e + 2
      \<or> bs ! (des_position e + 2) = SELECTIVE \<and> des_remaining e \<le> 3 + word_at bs (des_position e)"
    using selective_option_undefined e(2) by (auto simp: des_on_def)
  then show ?thesis using d0 e(1) n
    unfolding Let_def by (intro conjI exI [of _ d0] exI [of _ e]) (simp_all add: add.commute)
qed

text \<open>A message without entries whose options array is a single byte.\<close>

definition one_byte_options :: bytes where
  "one_byte_options = [0xFF, 0xFF, 0x81, 0, 0, 0, 0, 21, 0, 0, 0, 1, 1, 1, 2, 0, 0xC0, 0, 0, 0, 0, 0, 0, 0, 0, 0, 0, 1, 0]"

lemma one_byte_options_undefined: "fst (deserialize_sd_message (new_deserializer one_byte_options 0)) = Undefined"
  by code_simp

theorem sd_undefined_cause_witness:
  "fst (deserialize_sd_message (new_deserializer one_byte_options 0)) = Undefined
    \<and> (\<exists>d0 d. des_position d0 = 28 \<and> des_remaining d0 = 1 \<and> option_start d0 d
          \<and> (29 \<le> des_position d + 2 \<or> des_remaining d \<le> 3 + word_at one_byte_options (des_position d)))"
proof -
  have "length one_byte_options < 2 ^ 32" "long_at one_byte_options 20 = 0" "long_at one_byte_options 24 = 1"
    "length one_byte_options = 29"
    by (simp_all add: one_byte_options_def long_at_def BYTES_TO_LONG_def)
  then show ?thesis
    using sd_undefined_cause [OF _ one_byte_options_undefined] one_byte_options_undefined by (auto simp: Let_def)
qed

end
