(* ===== verification/Crc.thy ===== *)
theory Crc
  imports Prelude
begin

text \<open>
  The checksums of the end-to-end protection (\<open>e2e_protection/src/crc/crc.cpp\<close>): the lookup tables as
  they are in the source, the three table-driven calculations, the bitwise definition of the checksums
  with the parameters the source documents, their equivalence, and the errors the checksums detect.
\<close>

section \<open>The calculations of the source\<close>

definition lookup_table_profile_01 :: "byte list" where
  "lookup_table_profile_01 = [
     0x00, 0x1D, 0x3A, 0x27, 0x74, 0x69, 0x4E, 0x53, 0xE8, 0xF5, 0xD2, 0xCF, 0x9C, 0x81, 0xA6, 0xBB,
     0xCD, 0xD0, 0xF7, 0xEA, 0xB9, 0xA4, 0x83, 0x9E, 0x25, 0x38, 0x1F, 0x02, 0x51, 0x4C, 0x6B, 0x76,
     0x87, 0x9A, 0xBD, 0xA0, 0xF3, 0xEE, 0xC9, 0xD4, 0x6F, 0x72, 0x55, 0x48, 0x1B, 0x06, 0x21, 0x3C,
     0x4A, 0x57, 0x70, 0x6D, 0x3E, 0x23, 0x04, 0x19, 0xA2, 0xBF, 0x98, 0x85, 0xD6, 0xCB, 0xEC, 0xF1,
     0x13, 0x0E, 0x29, 0x34, 0x67, 0x7A, 0x5D, 0x40, 0xFB, 0xE6, 0xC1, 0xDC, 0x8F, 0x92, 0xB5, 0xA8,
     0xDE, 0xC3, 0xE4, 0xF9, 0xAA, 0xB7, 0x90, 0x8D, 0x36, 0x2B, 0x0C, 0x11, 0x42, 0x5F, 0x78, 0x65,
     0x94, 0x89, 0xAE, 0xB3, 0xE0, 0xFD, 0xDA, 0xC7, 0x7C, 0x61, 0x46, 0x5B, 0x08, 0x15, 0x32, 0x2F,
     0x59, 0x44, 0x63, 0x7E, 0x2D, 0x30, 0x17, 0x0A, 0xB1, 0xAC, 0x8B, 0x96, 0xC5, 0xD8, 0xFF, 0xE2,
     0x26, 0x3B, 0x1C, 0x01, 0x52, 0x4F, 0x68, 0x75, 0xCE, 0xD3, 0xF4, 0xE9, 0xBA, 0xA7, 0x80, 0x9D,
     0xEB, 0xF6, 0xD1, 0xCC, 0x9F, 0x82, 0xA5, 0xB8, 0x03, 0x1E, 0x39, 0x24, 0x77, 0x6A, 0x4D, 0x50,
     0xA1, 0xBC, 0x9B, 0x86, 0xD5, 0xC8, 0xEF, 0xF2, 0x49, 0x54, 0x73, 0x6E, 0x3D, 0x20, 0x07, 0x1A,
     0x6C, 0x71, 0x56, 0x4B, 0x18, 0x05, 0x22, 0x3F, 0x84, 0x99, 0xBE, 0xA3, 0xF0, 0xED, 0xCA, 0xD7,
     0x35, 0x28, 0x0F, 0x12, 0x41, 0x5C, 0x7B, 0x66, 0xDD, 0xC0, 0xE7, 0xFA, 0xA9, 0xB4, 0x93, 0x8E,
     0xF8, 0xE5, 0xC2, 0xDF, 0x8C, 0x91, 0xB6, 0xAB, 0x10, 0x0D, 0x2A, 0x37, 0x64, 0x79, 0x5E, 0x43,
     0xB2, 0xAF, 0x88, 0x95, 0xC6, 0xDB, 0xFC, 0xE1, 0x5A, 0x47, 0x60, 0x7D, 0x2E, 0x33, 0x14, 0x09,
     0x7F, 0x62, 0x45, 0x58, 0x0B, 0x16, 0x31, 0x2C, 0x97, 0x8A, 0xAD, 0xB0, 0xE3, 0xFE, 0xD9, 0xC4]"

definition lookup_table_profile_04 :: "u32 list" where
  "lookup_table_profile_04 = [
     0x00000000, 0x30850FF5, 0x610A1FEA, 0x518F101F, 0xC2143FD4, 0xF2913021, 0xA31E203E, 0x939B2FCB,
     0x159615F7, 0x25131A02, 0x749C0A1D, 0x441905E8, 0xD7822A23, 0xE70725D6, 0xB68835C9, 0x860D3A3C,
     0x2B2C2BEE, 0x1BA9241B, 0x4A263404, 0x7AA33BF1, 0xE938143A, 0xD9BD1BCF, 0x88320BD0, 0xB8B70425,
     0x3EBA3E19, 0x0E3F31EC, 0x5FB021F3, 0x6F352E06, 0xFCAE01CD, 0xCC2B0E38, 0x9DA41E27, 0xAD2111D2,
     0x565857DC, 0x66DD5829, 0x37524836, 0x07D747C3, 0x944C6808, 0xA4C967FD, 0xF54677E2, 0xC5C37817,
     0x43CE422B, 0x734B4DDE, 0x22C45DC1, 0x12415234, 0x81DA7DFF, 0xB15F720A, 0xE0D06215, 0xD0556DE0,
     0x7D747C32, 0x4DF173C7, 0x1C7E63D8, 0x2CFB6C2D, 0xBF6043E6, 0x8FE54C13, 0xDE6A5C0C, 0xEEEF53F9,
     0x68E269C5, 0x58676630, 0x09E8762F, 0x396D79DA, 0xAAF65611, 0x9A7359E4, 0xCBFC49FB, 0xFB79460E,
     0xACB0AFB8, 0x9C35A04D, 0xCDBAB052, 0xFD3FBFA7, 0x6EA4906C, 0x5E219F99, 0x0FAE8F86, 0x3F2B8073,
     0xB926BA4F, 0x89A3B5BA, 0xD82CA5A5, 0xE8A9AA50, 0x7B32859B, 0x4BB78A6E, 0x1A389A71, 0x2ABD9584,
     0x879C8456, 0xB7198BA3, 0xE6969BBC, 0xD6139449, 0x4588BB82, 0x750DB477, 0x2482A468, 0x1407AB9D,
     0x920A91A1, 0xA28F9E54, 0xF3008E4B, 0xC38581BE, 0x501EAE75, 0x609BA180, 0x3114B19F, 0x0191BE6A,
     0xFAE8F864, 0xCA6DF791, 0x9BE2E78E, 0xAB67E87B, 0x38FCC7B0, 0x0879C845, 0x59F6D85A, 0x6973D7AF,
     0xEF7EED93, 0xDFFBE266, 0x8E74F279, 0xBEF1FD8C, 0x2D6AD247, 0x1DEFDDB2, 0x4C60CDAD, 0x7CE5C258,
     0xD1C4D38A, 0xE141DC7F, 0xB0CECC60, 0x804BC395, 0x13D0EC5E, 0x2355E3AB, 0x72DAF3B4, 0x425FFC41,
     0xC452C67D, 0xF4D7C988, 0xA558D997, 0x95DDD662, 0x0646F9A9, 0x36C3F65C, 0x674CE643, 0x57C9E9B6,
     0xC8DF352F, 0xF85A3ADA, 0xA9D52AC5, 0x99502530, 0x0ACB0AFB, 0x3A4E050E, 0x6BC11511, 0x5B441AE4,
     0xDD4920D8, 0xEDCC2F2D, 0xBC433F32, 0x8CC630C7, 0x1F5D1F0C, 0x2FD810F9, 0x7E5700E6, 0x4ED20F13,
     0xE3F31EC1, 0xD3761134, 0x82F9012B, 0xB27C0EDE, 0x21E72115, 0x11622EE0, 0x40ED3EFF, 0x7068310A,
     0xF6650B36, 0xC6E004C3, 0x976F14DC, 0xA7EA1B29, 0x347134E2, 0x04F43B17, 0x557B2B08, 0x65FE24FD,
     0x9E8762F3, 0xAE026D06, 0xFF8D7D19, 0xCF0872EC, 0x5C935D27, 0x6C1652D2, 0x3D9942CD, 0x0D1C4D38,
     0x8B117704, 0xBB9478F1, 0xEA1B68EE, 0xDA9E671B, 0x490548D0, 0x79804725, 0x280F573A, 0x188A58CF,
     0xB5AB491D, 0x852E46E8, 0xD4A156F7, 0xE4245902, 0x77BF76C9, 0x473A793C, 0x16B56923, 0x263066D6,
     0xA03D5CEA, 0x90B8531F, 0xC1374300, 0xF1B24CF5, 0x6229633E, 0x52AC6CCB, 0x03237CD4, 0x33A67321,
     0x646F9A97, 0x54EA9562, 0x0565857D, 0x35E08A88, 0xA67BA543, 0x96FEAAB6, 0xC771BAA9, 0xF7F4B55C,
     0x71F98F60, 0x417C8095, 0x10F3908A, 0x20769F7F, 0xB3EDB0B4, 0x8368BF41, 0xD2E7AF5E, 0xE262A0AB,
     0x4F43B179, 0x7FC6BE8C, 0x2E49AE93, 0x1ECCA166, 0x8D578EAD, 0xBDD28158, 0xEC5D9147, 0xDCD89EB2,
     0x5AD5A48E, 0x6A50AB7B, 0x3BDFBB64, 0x0B5AB491, 0x98C19B5A, 0xA84494AF, 0xF9CB84B0, 0xC94E8B45,
     0x3237CD4B, 0x02B2C2BE, 0x533DD2A1, 0x63B8DD54, 0xF023F29F, 0xC0A6FD6A, 0x9129ED75, 0xA1ACE280,
     0x27A1D8BC, 0x1724D749, 0x46ABC756, 0x762EC8A3, 0xE5B5E768, 0xD530E89D, 0x84BFF882, 0xB43AF777,
     0x191BE6A5, 0x299EE950, 0x7811F94F, 0x4894F6BA, 0xDB0FD971, 0xEB8AD684, 0xBA05C69B, 0x8A80C96E,
     0x0C8DF352, 0x3C08FCA7, 0x6D87ECB8, 0x5D02E34D, 0xCE99CC86, 0xFE1CC373, 0xAF93D36C, 0x9F16DC99]"

definition lookup_table_profile_custom :: "u32 list" where
  "lookup_table_profile_custom = [
     0x00000000, 0x77073096, 0xEE0E612C, 0x990951BA, 0x076DC419, 0x706AF48F, 0xE963A535, 0x9E6495A3,
     0x0EDB8832, 0x79DCB8A4, 0xE0D5E91E, 0x97D2D988, 0x09B64C2B, 0x7EB17CBD, 0xE7B82D07, 0x90BF1D91,
     0x1DB71064, 0x6AB020F2, 0xF3B97148, 0x84BE41DE, 0x1ADAD47D, 0x6DDDE4EB, 0xF4D4B551, 0x83D385C7,
     0x136C9856, 0x646BA8C0, 0xFD62F97A, 0x8A65C9EC, 0x14015C4F, 0x63066CD9, 0xFA0F3D63, 0x8D080DF5,
     0x3B6E20C8, 0x4C69105E, 0xD56041E4, 0xA2677172, 0x3C03E4D1, 0x4B04D447, 0xD20D85FD, 0xA50AB56B,
     0x35B5A8FA, 0x42B2986C, 0xDBBBC9D6, 0xACBCF940, 0x32D86CE3, 0x45DF5C75, 0xDCD60DCF, 0xABD13D59,
     0x26D930AC, 0x51DE003A, 0xC8D75180, 0xBFD06116, 0x21B4F4B5, 0x56B3C423, 0xCFBA9599, 0xB8BDA50F,
     0x2802B89E, 0x5F058808, 0xC60CD9B2, 0xB10BE924, 0x2F6F7C87, 0x58684C11, 0xC1611DAB, 0xB6662D3D,
     0x76DC4190, 0x01DB7106, 0x98D220BC, 0xEFD5102A, 0x71B18589, 0x06B6B51F, 0x9FBFE4A5, 0xE8B8D433,
     0x7807C9A2, 0x0F00F934, 0x9609A88E, 0xE10E9818, 0x7F6A0DBB, 0x086D3D2D, 0x91646C97, 0xE6635C01,
     0x6B6B51F4, 0x1C6C6162, 0x856530D8, 0xF262004E, 0x6C0695ED, 0x1B01A57B, 0x8208F4C1, 0xF50FC457,
     0x65B0D9C6, 0x12B7E950, 0x8BBEB8EA, 0xFCB9887C, 0x62DD1DDF, 0x15DA2D49, 0x8CD37CF3, 0xFBD44C65,
     0x4DB26158, 0x3AB551CE, 0xA3BC0074, 0xD4BB30E2, 0x4ADFA541, 0x3DD895D7, 0xA4D1C46D, 0xD3D6F4FB,
     0x4369E96A, 0x346ED9FC, 0xAD678846, 0xDA60B8D0, 0x44042D73, 0x33031DE5, 0xAA0A4C5F, 0xDD0D7CC9,
     0x5005713C, 0x270241AA, 0xBE0B1010, 0xC90C2086, 0x5768B525, 0x206F85B3, 0xB966D409, 0xCE61E49F,
     0x5EDEF90E, 0x29D9C998, 0xB0D09822, 0xC7D7A8B4, 0x59B33D17, 0x2EB40D81, 0xB7BD5C3B, 0xC0BA6CAD,
     0xEDB88320, 0x9ABFB3B6, 0x03B6E20C, 0x74B1D29A, 0xEAD54739, 0x9DD277AF, 0x04DB2615, 0x73DC1683,
     0xE3630B12, 0x94643B84, 0x0D6D6A3E, 0x7A6A5AA8, 0xE40ECF0B, 0x9309FF9D, 0x0A00AE27, 0x7D079EB1,
     0xF00F9344, 0x8708A3D2, 0x1E01F268, 0x6906C2FE, 0xF762575D, 0x806567CB, 0x196C3671, 0x6E6B06E7,
     0xFED41B76, 0x89D32BE0, 0x10DA7A5A, 0x67DD4ACC, 0xF9B9DF6F, 0x8EBEEFF9, 0x17B7BE43, 0x60B08ED5,
     0xD6D6A3E8, 0xA1D1937E, 0x38D8C2C4, 0x4FDFF252, 0xD1BB67F1, 0xA6BC5767, 0x3FB506DD, 0x48B2364B,
     0xD80D2BDA, 0xAF0A1B4C, 0x36034AF6, 0x41047A60, 0xDF60EFC3, 0xA867DF55, 0x316E8EEF, 0x4669BE79,
     0xCB61B38C, 0xBC66831A, 0x256FD2A0, 0x5268E236, 0xCC0C7795, 0xBB0B4703, 0x220216B9, 0x5505262F,
     0xC5BA3BBE, 0xB2BD0B28, 0x2BB45A92, 0x5CB36A04, 0xC2D7FFA7, 0xB5D0CF31, 0x2CD99E8B, 0x5BDEAE1D,
     0x9B64C2B0, 0xEC63F226, 0x756AA39C, 0x026D930A, 0x9C0906A9, 0xEB0E363F, 0x72076785, 0x05005713,
     0x95BF4A82, 0xE2B87A14, 0x7BB12BAE, 0x0CB61B38, 0x92D28E9B, 0xE5D5BE0D, 0x7CDCEFB7, 0x0BDBDF21,
     0x86D3D2D4, 0xF1D4E242, 0x68DDB3F8, 0x1FDA836E, 0x81BE16CD, 0xF6B9265B, 0x6FB077E1, 0x18B74777,
     0x88085AE6, 0xFF0F6A70, 0x66063BCA, 0x11010B5C, 0x8F659EFF, 0xF862AE69, 0x616BFFD3, 0x166CCF45,
     0xA00AE278, 0xD70DD2EE, 0x4E048354, 0x3903B3C2, 0xA7672661, 0xD06016F7, 0x4969474D, 0x3E6E77DB,
     0xAED16A4A, 0xD9D65ADC, 0x40DF0B66, 0x37D83BF0, 0xA9BCAE53, 0xDEBB9EC5, 0x47B2CF7F, 0x30B5FFE9,
     0xBDBDF21C, 0xCABAC28A, 0x53B39330, 0x24B4A3A6, 0xBAD03605, 0xCDD70693, 0x54DE5729, 0x23D967BF,
     0xB3667A2E, 0xC4614AB8, 0x5D681B02, 0x2A6F2B94, 0xB40BBE37, 0xC30C8EA1, 0x5A05DF1B, 0x2D02EF8D]"

definition calculate_profile_01 :: "bytes \<Rightarrow> byte \<Rightarrow> byte" where
  "calculate_profile_01 view start =
     fold (\<lambda>b crc. lookup_table_profile_01 ! unat (b XOR crc) XOR drop_bit 8 crc) view (start XOR 0xFF) XOR 0xFF"

definition calculate_profile_04 :: "bytes \<Rightarrow> u32 \<Rightarrow> u32" where
  "calculate_profile_04 view start =
     fold (\<lambda>b crc. lookup_table_profile_04 ! unat (ucast (ucast b XOR crc) :: byte) XOR drop_bit 8 crc) view
       (start XOR 0xFFFFFFFF) XOR 0xFFFFFFFF"

definition calculate_profile_custom :: "bytes \<Rightarrow> u32" where
  "calculate_profile_custom view =
     fold (\<lambda>b crc. lookup_table_profile_custom ! unat (ucast (ucast b XOR crc) :: byte) XOR drop_bit 8 crc) view
       0xFFFFFFFF XOR 0xFFFFFFFF"

section \<open>The checksums bit by bit\<close>

text \<open>
  A checksum register that shifts towards the low end (\<open>ReflectIn\<close> and \<open>ReflectOut\<close> are true) uses the
  polynomial with its bits in reverse order.
\<close>

definition reflected :: "u32 \<Rightarrow> u32" where
  "reflected p = fold (\<lambda>i r. if bit p i then set_bit (31 - i) r else r) [0..<32] 0"

definition crc_shift :: "u32 \<Rightarrow> u32 \<Rightarrow> u32" where
  "crc_shift p x = (if bit x 0 then drop_bit 1 x XOR p else drop_bit 1 x)"

definition crc_byte :: "u32 \<Rightarrow> byte \<Rightarrow> u32 \<Rightarrow> u32" where
  "crc_byte p b crc = (crc_shift p ^^ 8) (crc XOR ucast b)"

definition crc_bitwise :: "u32 \<Rightarrow> bytes \<Rightarrow> u32 \<Rightarrow> u32" where
  "crc_bitwise p bs start = fold (crc_byte (reflected p)) bs (start XOR 0xFFFFFFFF) XOR 0xFFFFFFFF"

definition crc8_shift :: "byte \<Rightarrow> byte" where
  "crc8_shift x = (if bit x 7 then push_bit 1 x XOR 0x1D else push_bit 1 x)"

definition crc8_byte :: "byte \<Rightarrow> byte \<Rightarrow> byte" where
  "crc8_byte b crc = (crc8_shift ^^ 8) (crc XOR b)"

definition crc8_bitwise :: "bytes \<Rightarrow> byte \<Rightarrow> byte" where
  "crc8_bitwise bs start = fold crc8_byte bs (start XOR 0xFF) XOR 0xFF"

text \<open>
  The register is linear, so a table is determined by its entries at the powers of two: every other
  entry is the exclusive or of those of its bits.
\<close>

definition linear_word :: "('a::len word \<Rightarrow> 'a word) \<Rightarrow> bool" where
  "linear_word f \<longleftrightarrow> (\<forall>x y. f (x XOR y) = f x XOR f y)"

lemma linear_wordD: "linear_word f \<Longrightarrow> f (x XOR y) = f x XOR f y"
  by (simp add: linear_word_def)

lemma linear_word_0: "linear_word f \<Longrightarrow> f 0 = 0"
  using linear_wordD [of f 0 0] by simp

lemma linear_funpow: "linear_word f \<Longrightarrow> linear_word (f ^^ n)"
  by (induction n) (simp_all add: linear_word_def)

lemma linear_crc_shift: "linear_word (crc_shift p)"
  unfolding linear_word_def crc_shift_def by (auto simp: bit_simps intro!: bit_word_eqI)

lemma linear_crc8_shift: "linear_word crc8_shift"
proof -
  have "(if bit (x XOR y) 7 then push_bit 1 (x XOR y) XOR p else push_bit 1 (x XOR y))
      = (if bit x 7 then push_bit 1 x XOR p else push_bit 1 x) XOR (if bit y 7 then push_bit 1 y XOR p else push_bit 1 y)"
    for x y p :: byte
    by (auto simp: bit_simps simp del: push_bit_Suc_numeral push_bit_of_1 intro!: bit_word_eqI)
  then show ?thesis unfolding linear_word_def crc8_shift_def by blast
qed

definition xor_span :: "'a::len word list \<Rightarrow> 'a word list" where
  "xor_span vs = foldl (\<lambda>ts v. ts @ map (\<lambda>t. v XOR t) ts) [0] vs"

lemma power_plus_xor:
  assumes "i < 2 ^ n" "n < LENGTH('a::len)"
  shows "(of_nat (2 ^ n + i) :: 'a word) = 2 ^ n XOR of_nat i"
proof -
  have "bit (of_nat i :: 'a word) k \<Longrightarrow> k < n" for k
    using assms(1) by (auto simp: bit_simps) (metis bit_take_bit_iff take_bit_nat_eq_self)
  then have "(2 ^ n AND of_nat i :: 'a word) = 0"
    by (intro bit_word_eqI) (auto simp: bit_simps)
  then show ?thesis by (simp add: disjunctive_xor_eq_or disjunctive_add_eq_or)
qed

lemma xor_span_linear:
  fixes f :: "'a::len word \<Rightarrow> 'a word"
  assumes "linear_word f" "n \<le> LENGTH('a)"
  shows "xor_span (map (\<lambda>k. f (2 ^ k)) [0..<n]) = map (\<lambda>i. f (of_nat i)) [0..<2 ^ n]"
  using assms(2)
proof (induction n)
  case 0
  then show ?case using linear_word_0 [OF assms(1)] by (simp add: xor_span_def)
next
  case (Suc n)
  let ?ts = "map (\<lambda>i. f (of_nat i)) [0..<2 ^ n]"
  have "[0..<2 ^ Suc n] = [0..<2 ^ n] @ map (\<lambda>i. i + 2 ^ n) [0..<2 ^ n]"
    using upt_add_eq_append [of 0 "2 ^ n" "2 ^ n"] map_add_upt [of "2 ^ n" "2 ^ n"] by (simp add: mult_2)
  then have "map (\<lambda>i. f (of_nat i)) [0..<2 ^ Suc n] = ?ts @ map (\<lambda>i. f (of_nat (2 ^ n + i))) [0..<2 ^ n]"
    by (simp add: comp_def add.commute)
  also have "map (\<lambda>i. f (of_nat (2 ^ n + i))) [0..<2 ^ n] = map (\<lambda>t. f (2 ^ n) XOR t) ?ts"
    using Suc.prems by (simp add: power_plus_xor linear_wordD [OF assms(1)] del: of_nat_add)
  finally show ?case using Suc by (simp add: xor_span_def)
qed

lemma upt8: "[0..<8] = [0, 1, 2, 3, 4, 5, 6, 7 :: nat]"
  by (simp add: upt_rec)

lemma funpow8: "(f ^^ 8) x = f (f (f (f (f (f (f (f x)))))))"
  by (simp add: eval_nat_numeral)

lemma basis_01: "map (\<lambda>k. (crc8_shift ^^ 8) (2 ^ k)) [0..<8] = [0x1D, 0x3A, 0x74, 0xE8, 0xCD, 0x87, 0x13, 0x26]"
  unfolding upt8 funpow8 by (simp add: crc8_shift_def bit_numeral_rec)

lemma span_01: "xor_span [0x1D, 0x3A, 0x74, 0xE8, 0xCD, 0x87, 0x13, 0x26] = lookup_table_profile_01"
  by (simp add: xor_span_def lookup_table_profile_01_def)

lemma table_01: "lookup_table_profile_01 = map (\<lambda>i. (crc8_shift ^^ 8) (of_nat i)) [0..<2 ^ 8]"
  using xor_span_linear [OF linear_funpow [OF linear_crc8_shift], of 8 8] unfolding basis_01 span_01 by simp

lemma reflected_polynomials: "reflected 0xF4ACFB13 = 0xC8DF352F" "reflected 0x04C11DB7 = 0xEDB88320"
  by code_simp+

lemma basis_04: "map (\<lambda>k. (crc_shift 0xC8DF352F ^^ 8) (2 ^ k)) [0..<8] =
    [0x30850FF5, 0x610A1FEA, 0xC2143FD4, 0x159615F7, 0x2B2C2BEE, 0x565857DC, 0xACB0AFB8, 0xC8DF352F]"
  unfolding upt8 funpow8 by (simp add: crc_shift_def bit_numeral_rec)

lemma span_04: "xor_span [0x30850FF5, 0x610A1FEA, 0xC2143FD4, 0x159615F7, 0x2B2C2BEE, 0x565857DC, 0xACB0AFB8, 0xC8DF352F]
    = lookup_table_profile_04"
  by (simp add: xor_span_def lookup_table_profile_04_def)

lemma table_04: "lookup_table_profile_04 = map (\<lambda>i. (crc_shift 0xC8DF352F ^^ 8) (of_nat i)) [0..<2 ^ 8]"
  using xor_span_linear [OF linear_funpow [OF linear_crc_shift], of 8 8 "0xC8DF352F"] unfolding basis_04 span_04 by simp

lemma basis_custom: "map (\<lambda>k. (crc_shift 0xEDB88320 ^^ 8) (2 ^ k)) [0..<8] =
    [0x77073096, 0xEE0E612C, 0x076DC419, 0x0EDB8832, 0x1DB71064, 0x3B6E20C8, 0x76DC4190, 0xEDB88320]"
  unfolding upt8 funpow8 by (simp add: crc_shift_def bit_numeral_rec)

lemma span_custom: "xor_span [0x77073096, 0xEE0E612C, 0x076DC419, 0x0EDB8832, 0x1DB71064, 0x3B6E20C8, 0x76DC4190, 0xEDB88320]
    = lookup_table_profile_custom"
  by (simp add: xor_span_def lookup_table_profile_custom_def)

lemma table_custom: "lookup_table_profile_custom = map (\<lambda>i. (crc_shift 0xEDB88320 ^^ 8) (of_nat i)) [0..<2 ^ 8]"
  using xor_span_linear [OF linear_funpow [OF linear_crc_shift], of 8 8 "0xEDB88320"]
  unfolding basis_custom span_custom by simp

section \<open>Equivalence\<close>

lemma nth_table:
  fixes f :: "'a::len word \<Rightarrow> 'a word"
  shows "map (\<lambda>i. f (of_nat i)) [0..<2 ^ 8] ! unat (c :: byte) = f (ucast c)"
  using unat_byte_less [of c] by (simp add: unsigned_of_nat)

lemma crc_shift_zeros: "\<forall>i<n. \<not> bit x i \<Longrightarrow> (crc_shift p ^^ n) x = drop_bit n x"
proof (induction n arbitrary: x)
  case (Suc n)
  then have "crc_shift p x = drop_bit 1 x" by (simp add: crc_shift_def)
  moreover have "\<forall>i<n. \<not> bit (drop_bit 1 x) i" using Suc.prems by (auto simp: bit_simps)
  ultimately show ?case using Suc.IH [of "drop_bit 1 x"]
    by (simp add: funpow_Suc_right del: funpow.simps)
qed simp

lemma crc_shift8_split: "(crc_shift p ^^ 8) x = (crc_shift p ^^ 8) (ucast (ucast x :: byte)) XOR drop_bit 8 x"
proof -
  let ?high = "push_bit 8 (drop_bit 8 x)"
  have x: "x = ucast (ucast x :: byte) XOR ?high"
    by (rule bit_word_eqI) (auto simp: bit_simps)
  have high: "(crc_shift p ^^ 8) ?high = drop_bit 8 ?high"
    by (rule crc_shift_zeros) (simp add: bit_push_bit_iff)
  have "drop_bit 8 ?high = drop_bit 8 x" by (rule bit_word_eqI) (auto simp: bit_simps dest: bit_imp_le_length)
  then show ?thesis
    using linear_wordD [OF linear_funpow [OF linear_crc_shift], of 8 p "ucast (ucast x :: byte)" ?high] x high by simp
qed

lemma table_step:
  assumes "table = map (\<lambda>i. (crc_shift p ^^ 8) (of_nat i)) [0..<2 ^ 8]"
  shows "table ! unat (ucast (ucast b XOR crc) :: byte) XOR drop_bit 8 crc = crc_byte p b crc"
proof -
  have "drop_bit 8 (crc XOR ucast b) = drop_bit 8 crc"
    by (rule bit_word_eqI) (auto simp: bit_simps dest: bit_imp_le_length)
  then show ?thesis
    using crc_shift8_split [of p "crc XOR ucast b"] nth_table [of "crc_shift p ^^ 8" "ucast (ucast b XOR crc)"]
    by (simp add: assms crc_byte_def xor.commute)
qed

lemma table_step_01: "lookup_table_profile_01 ! unat (b XOR crc) XOR drop_bit 8 crc = crc8_byte b crc"
proof -
  have "drop_bit 8 crc = 0" by (rule bit_word_eqI) (auto simp: bit_simps dest: bit_imp_le_length)
  then show ?thesis using nth_table [of "crc8_shift ^^ 8" "b XOR crc"] by (simp add: table_01 crc8_byte_def xor.commute)
qed

lemma calculate_folds:
  "calculate_profile_01 bs start8 = fold crc8_byte bs (start8 XOR 0xFF) XOR 0xFF"
  "calculate_profile_04 bs start = fold (crc_byte 0xC8DF352F) bs (start XOR 0xFFFFFFFF) XOR 0xFFFFFFFF"
  "calculate_profile_custom bs = fold (crc_byte 0xEDB88320) bs 0xFFFFFFFF XOR 0xFFFFFFFF"
  by (simp_all only: calculate_profile_01_def calculate_profile_04_def calculate_profile_custom_def
      table_step_01 table_step [OF table_04] table_step [OF table_custom])

text \<open>
  [C12] The table-driven checksums are the checksums with the documented parameters, calculated bit by
  bit: CRC-8 with polynomial \<open>0x1D\<close>, the reflected CRC-32 with polynomial \<open>0xF4ACFB13\<close> and the
  reflected CRC-32 with polynomial \<open>0x04C11DB7\<close>. Every entry of the three tables is right.
\<close>

theorem calculate_bitwise:
  "calculate_profile_01 bs start8 = crc8_bitwise bs start8
   \<and> calculate_profile_04 bs start = crc_bitwise 0xF4ACFB13 bs start
   \<and> calculate_profile_custom bs = crc_bitwise 0x04C11DB7 bs 0"
  by (simp add: calculate_folds crc8_bitwise_def crc_bitwise_def reflected_polynomials)

section \<open>The errors a checksum detects\<close>

text \<open>
  A shift can be undone when the polynomial has the bit at the other end: that bit of the result tells
  whether the polynomial was added.
\<close>

lemma linear_inj:
  assumes "linear_word f" "\<And>x. f x = 0 \<Longrightarrow> x = 0"
  shows "inj f"
proof (rule injI)
  fix x y assume "f x = f y"
  then have "f (x XOR y) = 0" using linear_wordD [OF assms(1)] by simp
  then show "x = y" using assms(2) [of "x XOR y"] by (metis xor.assoc xor.right_neutral xor_self_eq)
qed

lemma inj_crc_shift:
  assumes "bit p 31"
  shows "inj (crc_shift p)"
proof (rule linear_inj [OF linear_crc_shift])
  fix x assume zero: "crc_shift p x = 0"
  have hi: "\<not> bit (drop_bit 1 x) 31" using bit_imp_le_length [of x 32] by (auto simp: bit_simps)
  have low: "\<not> bit x 0"
  proof
    assume "bit x 0"
    then have "bit (drop_bit 1 x XOR p) 31 = bit (0 :: u32) 31" using zero by (simp add: crc_shift_def)
    then show False using hi assms by (simp add: bit_xor_iff)
  qed
  then have "drop_bit 1 x = 0" using zero by (simp add: crc_shift_def)
  then have "\<not> bit x (Suc i)" for i using bit_drop_bit_eq [of 1 x] by (metis bit_0_eq bot_apply bot_bool_def o_apply plus_1_eq_Suc)
  with low show "x = 0" by (intro bit_word_eqI) (metis bit_0_eq bot_apply bot_bool_def not0_implies_Suc)
qed

lemma inj_crc8_shift: "inj crc8_shift"
proof (rule linear_inj [OF linear_crc8_shift])
  fix x :: byte assume zero: "crc8_shift x = 0"
  note bits = bit_push_bit_iff [of 1 x]
  have high: "\<not> bit x 7"
  proof
    assume "bit x 7"
    then have "bit (push_bit 1 x XOR 0x1D) 0 = bit (0 :: byte) 0" using zero by (simp add: crc8_shift_def)
    then show False unfolding bit_xor_iff bits by simp
  qed
  then have "push_bit 1 x = 0" using zero by (simp add: crc8_shift_def)
  then have "\<not> bit x i" if "i < 7" for i using bits [of "Suc i"] that by simp
  then have "\<not> bit x i" if "i < 8" for i using high that by (cases "i = 7") simp_all
  then show "x = 0" by (intro bit_word_eqI) simp
qed

lemma xor_cancel: "x XOR y = x XOR z \<longleftrightarrow> y = z" "y XOR x = z XOR x \<longleftrightarrow> y = z"
  for x y z :: "'a::len word"
  by (auto simp: bit_eq_iff bit_xor_iff)

lemma inj_crc_byte: "bit p 31 \<Longrightarrow> crc_byte p b x = crc_byte p b y \<longleftrightarrow> x = y"
  unfolding crc_byte_def using inj_fn [OF inj_crc_shift, of p 8] by (simp add: inj_eq xor_cancel)

lemma inj_fold_crc_byte: "bit p 31 \<Longrightarrow> fold (crc_byte p) bs x = fold (crc_byte p) bs y \<longleftrightarrow> x = y"
  by (induction bs arbitrary: x y) (simp_all add: inj_crc_byte)

lemma inj_crc8_byte: "crc8_byte b x = crc8_byte c y \<longleftrightarrow> x XOR b = y XOR c"
  unfolding crc8_byte_def using inj_fn [OF inj_crc8_shift, of 8] by (auto simp: inj_eq)

lemma inj_fold_crc8_byte: "fold crc8_byte bs x = fold crc8_byte bs y \<longleftrightarrow> x = y"
  by (induction bs arbitrary: x y) (simp_all add: inj_crc8_byte xor_cancel)

text \<open>Up to four bytes act on the register as one little-endian word that is added first.\<close>

fun le_word :: "bytes \<Rightarrow> u32" where
  "le_word [] = 0"
| "le_word (b # bs) = ucast b XOR push_bit 8 (le_word bs)"

lemma bit_le_word: "bit (le_word bs) i \<longleftrightarrow> i < 32 \<and> i div 8 < length bs \<and> bit (bs ! (i div 8)) (i mod 8)"
proof (induction bs arbitrary: i)
  case (Cons b bs)
  show ?case
  proof (cases "i < 8")
    case False
    then have "i div 8 = Suc ((i - 8) div 8)" "i mod 8 = (i - 8) mod 8" by (simp_all add: le_div_geq le_mod_geq)
    moreover have "\<not> bit b i" using bit_imp_le_length [of b i] False by auto
    ultimately show ?thesis using False
      by (auto simp: bit_xor_iff bit_push_bit_iff bit_ucast_iff Cons.IH)
  qed (auto simp: bit_xor_iff bit_push_bit_iff bit_ucast_iff)
qed simp

lemma le_word_inj:
  assumes "length bs = length cs" "length bs \<le> 4" "le_word bs = le_word cs"
  shows "bs = cs"
proof (rule nth_equalityI)
  fix k assume k: "k < length bs"
  show "bs ! k = cs ! k"
  proof (rule bit_word_eqI)
    fix j assume "j < LENGTH(8)"
    then have "(8 * k + j) div 8 = k" "(8 * k + j) mod 8 = j" "8 * k + j < 32" using k assms(2) by simp_all
    then show "bit (bs ! k) j = bit (cs ! k) j"
      using bit_le_word [of bs "8 * k + j"] bit_le_word [of cs "8 * k + j"] assms(1,3) k by simp
  qed
qed (use assms in simp)

lemma crc_word:
  "length bs \<le> 4 \<Longrightarrow> fold (crc_byte p) bs crc = (crc_shift p ^^ (8 * length bs)) (crc XOR le_word bs)"
proof (induction bs arbitrary: crc)
  case (Cons b bs)
  let ?w = "le_word bs"
  have "drop_bit 8 (push_bit 8 ?w) = ?w"
    by (rule bit_word_eqI) (use Cons.prems in \<open>auto simp: bit_drop_bit_eq bit_push_bit_iff bit_le_word\<close>)
  moreover have "\<forall>i<8. \<not> bit (push_bit 8 ?w) i" by (simp add: bit_push_bit_iff)
  ultimately have "(crc_shift p ^^ 8) (push_bit 8 ?w) = ?w" using crc_shift_zeros by metis
  then have "crc_byte p b crc XOR ?w = (crc_shift p ^^ 8) (crc XOR le_word (b # bs))"
    using linear_wordD [OF linear_funpow [OF linear_crc_shift], of 8 p "crc XOR ucast b" "push_bit 8 ?w"]
    by (simp add: crc_byte_def xor.assoc)
  then have "fold (crc_byte p) (b # bs) crc
      = (crc_shift p ^^ (8 * length bs)) ((crc_shift p ^^ 8) (crc XOR le_word (b # bs)))"
    using Cons by simp
  then show ?case by (simp add: funpow_add [symmetric, THEN fun_cong, unfolded o_apply] add.commute del: le_word.simps)
qed simp

lemma crc_burst:
  assumes "bit p 31" "length ys = length zs" "length ys \<le> 4" "ys \<noteq> zs"
  shows "fold (crc_byte p) (xs @ ys @ rest) crc \<noteq> fold (crc_byte p) (xs @ zs @ rest) crc"
proof -
  let ?c = "fold (crc_byte p) xs crc"
  have "le_word ys \<noteq> le_word zs" using le_word_inj assms by blast
  then have "?c XOR le_word ys \<noteq> ?c XOR le_word zs" by (simp add: xor_cancel)
  then have "fold (crc_byte p) ys ?c \<noteq> fold (crc_byte p) zs ?c"
    using crc_word assms inj_fn [OF inj_crc_shift [OF assms(1)]] by (simp add: inj_eq)
  then show ?thesis using inj_fold_crc_byte [OF assms(1)] by simp
qed

lemma calculate_append:
  "calculate_profile_01 (xs @ ys) s = calculate_profile_01 ys (calculate_profile_01 xs s)"
  "calculate_profile_04 (xs @ ys) t = calculate_profile_04 ys (calculate_profile_04 xs t)"
  by (simp_all add: calculate_folds xor.assoc)

lemma calculate_Nil [simp]: "calculate_profile_01 [] s = s" "calculate_profile_04 [] t = t"
  by (simp_all add: calculate_folds xor.assoc)

text \<open>Changing one byte changes every checksum.\<close>

lemma crc_polynomials_bit: "bit (0xC8DF352F :: u32) 31" "bit (0xEDB88320 :: u32) 31"
  by (simp_all add: bit_numeral_rec)

lemma calculate_update:
  assumes "k < length xs" "v \<noteq> xs ! k"
  shows "calculate_profile_01 (xs[k := v]) s8 \<noteq> calculate_profile_01 xs s8"
    "calculate_profile_04 (xs[k := v]) s \<noteq> calculate_profile_04 xs s"
    "calculate_profile_custom (xs[k := v]) \<noteq> calculate_profile_custom xs"
proof -
  note split = upd_conv_take_nth_drop [OF assms(1), of v] id_take_nth_drop [OF assms(1)]
  have "fold crc8_byte (take k xs @ [v] @ drop (Suc k) xs) t \<noteq> fold crc8_byte (take k xs @ [xs ! k] @ drop (Suc k) xs) t"
    for t using assms(2) by (simp add: xor_cancel inj_fold_crc8_byte inj_crc8_byte)
  then show "calculate_profile_01 (xs[k := v]) s8 \<noteq> calculate_profile_01 xs s8"
    using split by (simp add: calculate_folds xor_cancel)
  have "fold (crc_byte q) (xs[k := v]) t \<noteq> fold (crc_byte q) xs t" if "bit q 31" for q t
    using crc_burst [OF that, of "[v]" "[xs ! k]" "take k xs" "drop (Suc k) xs" t] assms(2) split by simp
  then show "calculate_profile_04 (xs[k := v]) s \<noteq> calculate_profile_04 xs s"
    "calculate_profile_custom (xs[k := v]) \<noteq> calculate_profile_custom xs"
    using crc_polynomials_bit unfolding calculate_folds xor_cancel by blast+
qed

text \<open>
  [C20] What the checksums detect. When two byte sequences differ only inside a window of at most four
  bytes, both 32-bit checksums of them differ, whatever is before and behind the window and whatever
  the start value; and the 8-bit checksums differ when the sequences differ in one byte.
\<close>

theorem burst_detected:
  assumes "length ys = length zs" "ys \<noteq> zs" "length ys \<le> 4"
  shows "calculate_profile_04 (xs @ ys @ rest) start \<noteq> calculate_profile_04 (xs @ zs @ rest) start
    \<and> calculate_profile_custom (xs @ ys @ rest) \<noteq> calculate_profile_custom (xs @ zs @ rest)
    \<and> (length ys = 1 \<longrightarrow> calculate_profile_01 (xs @ ys @ rest) start8 \<noteq> calculate_profile_01 (xs @ zs @ rest) start8)"
proof (intro conjI impI)
  assume "length ys = 1"
  then obtain y z where "ys = [y]" "zs = [z]" using assms(1) by (auto simp: length_Suc_conv)
  then show "calculate_profile_01 (xs @ ys @ rest) start8 \<noteq> calculate_profile_01 (xs @ zs @ rest) start8"
    using assms(2) by (simp add: calculate_folds xor_cancel inj_fold_crc8_byte inj_crc8_byte)
next
  from crc_burst [OF crc_polynomials_bit(1) assms(1,3,2)]
  show "calculate_profile_04 (xs @ ys @ rest) start \<noteq> calculate_profile_04 (xs @ zs @ rest) start"
    by (simp only: calculate_folds xor_cancel) simp
next
  from crc_burst [OF crc_polynomials_bit(2) assms(1,3,2)]
  show "calculate_profile_custom (xs @ ys @ rest) \<noteq> calculate_profile_custom (xs @ zs @ rest)"
    by (simp only: calculate_folds xor_cancel) simp
qed

theorem burst_detected_witness:
  "calculate_profile_04 [1, 2, 3, 4, 5] 0 \<noteq> calculate_profile_04 [1, 9, 9, 9, 5] 0
    \<and> calculate_profile_01 [1, 2, 3] 0xFF \<noteq> calculate_profile_01 [1, 7, 3] 0xFF"
proof
  show "calculate_profile_04 [1, 2, 3, 4, 5] 0 \<noteq> calculate_profile_04 [1, 9, 9, 9, 5] 0"
    using burst_detected [of "[2, 3, 4]" "[9, 9, 9]" "[1]" "[5]" 0] unfolding append.simps by simp
  show "calculate_profile_01 [1, 2, 3] 0xFF \<noteq> calculate_profile_01 [1, 7, 3] 0xFF"
    using burst_detected [of "[2]" "[7]" "[1]" "[3]" _ "0xFF"] unfolding append.simps by simp
qed

end
