(* ===== verification/E2e_Profile.thy ===== *)
theory E2e_Profile
  imports Crc
begin

text \<open>
  The end-to-end protection profiles 1 and custom (\<open>e2e_protection/src/e2e/profile\<close>): protectors write
  a checksum (and profile 1 a counter) into a payload, checkers verify it. Indexing a buffer outside of
  it and a view that is not inside of it are \<open>Undefined\<close>. The interface of a profile, a protector and a
  checker that belong together, is the locale \<open>e2e_link\<close>.
\<close>

section \<open>Buffers and the interface\<close>

datatype check_status = E2E_OK | E2E_WRONG_CRC | E2E_ERROR

definition buffer_view :: "bytes \<Rightarrow> nat \<Rightarrow> nat \<Rightarrow> bytes result" where
  "buffer_view buffer view_begin view_end =
     (if view_begin \<le> view_end \<and> view_end \<le> length buffer
      then Ok (take (view_end - view_begin) (drop view_begin buffer)) else Undefined)"

text \<open>A link that transmits every message as the protector made it, with the checker's verdicts.\<close>

fun transmit :: "(u16 \<Rightarrow> 'p \<times> bytes \<Rightarrow> ('p \<times> bytes) result) \<Rightarrow> (bytes \<Rightarrow> u16 \<Rightarrow> 'c \<Rightarrow> (check_status \<times> 'c) result)
    \<Rightarrow> u16 \<Rightarrow> bytes list \<Rightarrow> 'p \<Rightarrow> 'c \<Rightarrow> check_status list result" where
  "transmit protect check i [] p c = Ok []"
| "transmit protect check i (b # bs) p c =
     bind_r (protect i (p, b)) (\<lambda>(p', b'). bind_r (check b' i c) (\<lambda>(s, c').
       bind_r (transmit protect check i bs p' c') (\<lambda>ss. Ok (s # ss))))"

text \<open>
  \<open>ready p c i n\<close>: protector \<open>p\<close> and checker \<open>c\<close> have the same configuration and are in step, for messages
  of \<open>n\<close> bytes of instance \<open>i\<close>. \<open>covers p n k\<close>: the byte at position \<open>k\<close> is protected.
\<close>

locale e2e_link =
  fixes protect :: "u16 \<Rightarrow> 'p \<times> bytes \<Rightarrow> ('p \<times> bytes) result"
    and check :: "bytes \<Rightarrow> u16 \<Rightarrow> 'c \<Rightarrow> (check_status \<times> 'c) result"
    and ready :: "'p \<Rightarrow> 'c \<Rightarrow> u16 \<Rightarrow> nat \<Rightarrow> bool"
    and covers :: "'p \<Rightarrow> nat \<Rightarrow> nat \<Rightarrow> bool"
  assumes accepted: "ready p c i (length b) \<Longrightarrow>
      \<exists>p' b' c'. protect i (p, b) = Ok (p', b') \<and> length b' = length b \<and> check b' i c = Ok (E2E_OK, c')
        \<and> ready p' c' i (length b)"
    and detected: "ready p c i (length b) \<Longrightarrow> protect i (p, b) = Ok (p', b') \<Longrightarrow>
      covers p (length b) k \<Longrightarrow> k < length b \<Longrightarrow> v \<noteq> b' ! k \<Longrightarrow>
      check (b'[k := v]) i c = Ok (E2E_WRONG_CRC, c)"
begin

lemma transmit_accepted:
  "ready p c i n \<Longrightarrow> \<forall>b \<in> set bs. length b = n \<Longrightarrow> transmit protect check i bs p c = Ok (replicate (length bs) E2E_OK)"
proof (induction bs arbitrary: p c)
  case (Cons b bs)
  from accepted [of p c i b] Cons.prems obtain p' b' c' where
    "protect i (p, b) = Ok (p', b')" "check b' i c = Ok (E2E_OK, c')" "ready p' c' i n" by auto
  then show ?case using Cons by simp
qed simp

end

section \<open>Profile 1\<close>

record p01_config =
  p01_crc_offset :: u16
  p01_data_id :: u16
  p01_data_id_mode :: byte
  p01_data_length :: u16
  p01_counter_offset :: u16
  p01_data_id_nibble_offset :: u16
  p01_base :: nat

definition E2E_P01_DATAID_BOTH :: byte where "E2E_P01_DATAID_BOTH = 0"
definition E2E_P01_DATAID_ALT :: byte where "E2E_P01_DATAID_ALT = 1"
definition E2E_P01_DATAID_LOW :: byte where "E2E_P01_DATAID_LOW = 2"
definition E2E_P01_DATAID_NIBBLE :: byte where "E2E_P01_DATAID_NIBBLE = 3"

definition new_p01_config :: "u16 \<Rightarrow> u16 \<Rightarrow> byte \<Rightarrow> u16 \<Rightarrow> u16 \<Rightarrow> u16 \<Rightarrow> p01_config" where
  "new_p01_config crc_offset data_id data_id_mode data_length counter_offset data_id_nibble_offset =
     \<lparr>p01_crc_offset = crc_offset, p01_data_id = data_id, p01_data_id_mode = data_id_mode,
      p01_data_length = data_length, p01_counter_offset = counter_offset,
      p01_data_id_nibble_offset = data_id_nibble_offset, p01_base = 16\<rparr>"

text \<open>The part of the checksum that comes from the data identifier, by mode.\<close>

definition p01_data_id_crc :: "p01_config \<Rightarrow> byte" where
  "p01_data_id_crc c =
     (let msb = ucast (drop_bit 8 (p01_data_id c)); lsb = ucast (p01_data_id c) in
      if p01_data_id_mode c = E2E_P01_DATAID_BOTH
      then calculate_profile_01 [msb] (calculate_profile_01 [lsb] 0xFF)
      else if p01_data_id_mode c = E2E_P01_DATAID_LOW
      then calculate_profile_01 [lsb] 0xFF
      else if p01_data_id_mode c = E2E_P01_DATAID_ALT
      then 0xFF
      else if p01_data_id_mode c = E2E_P01_DATAID_NIBBLE
      then calculate_profile_01 [0] (calculate_profile_01 [lsb] 0xFF)
      else 0xFF)"

definition p01_compute_crc :: "p01_config \<Rightarrow> bytes \<Rightarrow> byte result" where
  "p01_compute_crc c buffer =
     (let crc_offset = unat (p01_crc_offset c); crc0 = p01_data_id_crc c in
      bind_r (if crc_offset \<ge> 1
              then bind_r (buffer_view buffer 0 crc_offset) (\<lambda>view. Ok (calculate_profile_01 view crc0))
              else Ok crc0) (\<lambda>crc1.
      bind_r (if int crc_offset < int (unat (p01_data_length c) div 8) - 1
              then bind_r (buffer_view buffer (crc_offset + 1) (length buffer))
                     (\<lambda>view. Ok (calculate_profile_01 view crc1))
              else Ok crc1) (\<lambda>crc2.
      Ok (crc2 XOR 0xFF))))"

definition p01_is_buffer_length_valid :: "p01_config \<Rightarrow> bytes \<Rightarrow> bool" where
  "p01_is_buffer_length_valid c buffer \<longleftrightarrow>
     unat (p01_data_length c) div 8 + 1 \<le> length buffer
     \<and> unat (p01_crc_offset c) \<le> length buffer
     \<and> unat (p01_counter_offset c) div 8 \<le> length buffer
     \<and> unat (p01_data_id_nibble_offset c) div 8 \<le> length buffer"

record p01_protector =
  p01p_config :: p01_config
  p01p_counter :: byte

definition p01_write_counter :: "p01_protector \<Rightarrow> bytes \<Rightarrow> bytes result" where
  "p01_write_counter p buffer =
     (let i = unat (p01_counter_offset (p01p_config p)) div 8 in
      bind_r (buf_get i buffer) (\<lambda>v.
        if unat (p01_counter_offset (p01p_config p)) mod 8 = 0
        then buf_put i ((v AND 0xF0) OR (p01p_counter p AND 0x0F)) buffer
        else buf_put i ((v AND 0x0F) OR (push_bit 4 (p01p_counter p) AND 0xF0)) buffer))"

definition p01_write_data_id :: "p01_protector \<Rightarrow> bytes \<Rightarrow> bytes result" where
  "p01_write_data_id p buffer =
     (let c = p01p_config p; i = unat (p01_data_id_nibble_offset c) div 8 in
      if p01_data_id_mode c = E2E_P01_DATAID_NIBBLE
      then bind_r (buf_get i buffer) (\<lambda>v.
        if unat (p01_data_id_nibble_offset c) mod 8 = 0
        then buf_put i ((v AND 0xF0) OR (ucast (drop_bit 8 (p01_data_id c)) AND 0x0F)) buffer
        else buf_put i ((v AND 0x0F) OR (ucast (drop_bit 4 (p01_data_id c)) AND 0xF0)) buffer)
      else Ok buffer)"

definition p01_write_crc :: "p01_protector \<Rightarrow> byte \<Rightarrow> bytes \<Rightarrow> bytes result" where
  "p01_write_crc p computed_crc buffer = buf_put (unat (p01_crc_offset (p01p_config p))) computed_crc buffer"

definition p01_increment_counter :: "p01_protector \<Rightarrow> p01_protector" where
  "p01_increment_counter p = p\<lparr>p01p_counter := of_nat ((unat (p01p_counter p) + 1) mod 15)\<rparr>"

definition p01_protect :: "u16 \<Rightarrow> p01_protector \<times> bytes \<Rightarrow> (p01_protector \<times> bytes) result" where
  "p01_protect instance_id = (\<lambda>(p, buffer).
     if p01_is_buffer_length_valid (p01p_config p) buffer
     then bind_r (p01_write_counter p buffer) (\<lambda>b1.
          bind_r (p01_write_data_id p b1) (\<lambda>b2.
          bind_r (p01_compute_crc (p01p_config p) b2) (\<lambda>computed_crc.
          bind_r (p01_write_crc p computed_crc b2) (\<lambda>b3.
          Ok (p01_increment_counter p, b3)))))
     else Ok (p, buffer))"

definition p01_check :: "bytes \<Rightarrow> u16 \<Rightarrow> p01_config \<Rightarrow> (check_status \<times> p01_config) result" where
  "p01_check buffer instance_id c =
     (if p01_is_buffer_length_valid c buffer
      then bind_r (buf_get (unat (p01_crc_offset c)) buffer) (\<lambda>received_crc.
           bind_r (p01_compute_crc c buffer) (\<lambda>calculated_crc.
           Ok (if received_crc = calculated_crc then E2E_OK else E2E_WRONG_CRC, c)))
      else Ok (E2E_ERROR, c))"

text \<open>
  The configurations for which a buffer of \<open>n\<close> bytes can be protected: the length checks of the source,
  and that the bytes to be written are inside the buffer, which the checks do not ensure.
\<close>

definition p01_fits :: "p01_config \<Rightarrow> nat \<Rightarrow> bool" where
  "p01_fits c n \<longleftrightarrow>
     unat (p01_data_length c) div 8 + 1 \<le> n \<and> unat (p01_crc_offset c) < n \<and> unat (p01_counter_offset c) div 8 < n
     \<and> unat (p01_data_id_nibble_offset c) div 8 \<le> n
     \<and> (p01_data_id_mode c = E2E_P01_DATAID_NIBBLE \<longrightarrow> unat (p01_data_id_nibble_offset c) div 8 < n)"

definition p01_behind_covered :: "p01_config \<Rightarrow> bool" where
  "p01_behind_covered c \<longleftrightarrow> int (unat (p01_crc_offset c)) < int (unat (p01_data_length c) div 8) - 1"

definition p01_covered :: "p01_config \<Rightarrow> bytes \<Rightarrow> bytes" where
  "p01_covered c b =
     take (unat (p01_crc_offset c)) b @ (if p01_behind_covered c then drop (Suc (unat (p01_crc_offset c))) b else [])"

definition p01_crc :: "p01_config \<Rightarrow> bytes \<Rightarrow> byte" where
  "p01_crc c b = calculate_profile_01 (p01_covered c b) (p01_data_id_crc c) XOR 0xFF"

lemma p01_compute_crc_Ok: "unat (p01_crc_offset c) < length b \<Longrightarrow> p01_compute_crc c b = Ok (p01_crc c b)"
  by (cases "p01_crc_offset c = 0")
    (auto simp: p01_compute_crc_def p01_crc_def p01_covered_def p01_behind_covered_def buffer_view_def
      calculate_append Let_def unat_gt_0 Suc_le_eq)

lemma p01_covered_crc_byte: "p01_covered c (b[unat (p01_crc_offset c) := v]) = p01_covered c b"
  by (simp add: p01_covered_def drop_update_cancel)

lemma p01_fits_valid: "p01_fits c (length b) \<Longrightarrow> p01_is_buffer_length_valid c b"
  by (auto simp: p01_fits_def p01_is_buffer_length_valid_def)

lemma p01_protect_Ok:
  assumes "p01_fits (p01p_config p) (length b)"
  obtains b2 where "length b2 = length b"
    "p01_protect i (p, b) = Ok (p01_increment_counter p,
       b2[unat (p01_crc_offset (p01p_config p)) := p01_crc (p01p_config p) b2])"
proof -
  let ?c = "p01p_config p"
  have "\<exists>b1. p01_write_counter p b = Ok b1 \<and> length b1 = length b"
    using assms by (simp add: p01_write_counter_def p01_fits_def Let_def)
  then obtain b1 where b1: "p01_write_counter p b = Ok b1" "length b1 = length b" by blast
  have "\<exists>b2. p01_write_data_id p b1 = Ok b2 \<and> length b2 = length b"
    using assms b1(2) by (simp add: p01_write_data_id_def p01_fits_def Let_def)
  then obtain b2 where b2: "p01_write_data_id p b1 = Ok b2" "length b2 = length b" by blast
  have "unat (p01_crc_offset ?c) < length b2" using assms b2(2) by (simp add: p01_fits_def)
  then have "p01_protect i (p, b) = Ok (p01_increment_counter p, b2[unat (p01_crc_offset ?c) := p01_crc ?c b2])"
    using p01_fits_valid [OF assms] b1(1) b2(1)
    by (simp add: p01_protect_def p01_compute_crc_Ok p01_write_crc_def)
  then show thesis using that b2(2) by blast
qed

lemma p01_check_Ok:
  assumes "p01_fits c (length b)"
  shows "p01_check b i c = Ok (if b ! unat (p01_crc_offset c) = p01_crc c b then E2E_OK else E2E_WRONG_CRC, c)"
  using assms p01_fits_valid [OF assms] by (simp add: p01_check_def p01_compute_crc_Ok p01_fits_def)

definition p01_ready :: "p01_protector \<Rightarrow> p01_config \<Rightarrow> u16 \<Rightarrow> nat \<Rightarrow> bool" where
  "p01_ready p c i n \<longleftrightarrow> p01p_config p = c \<and> p01_fits c n"

definition p01_covers :: "p01_protector \<Rightarrow> nat \<Rightarrow> nat \<Rightarrow> bool" where
  "p01_covers p n k \<longleftrightarrow> k \<le> unat (p01_crc_offset (p01p_config p)) \<or> p01_behind_covered (p01p_config p)"

lemma p01_crc_update:
  assumes "k < length b" "k \<noteq> unat (p01_crc_offset c)" "v \<noteq> b ! k" "unat (p01_crc_offset c) < length b"
    and "k < unat (p01_crc_offset c) \<or> p01_behind_covered c"
  shows "p01_crc c (b[k := v]) \<noteq> p01_crc c b"
proof -
  let ?o = "unat (p01_crc_offset c)"
  let ?j = "if k < ?o then k else k - 1"
  have "p01_covered c (b[k := v]) = (p01_covered c b)[?j := v]"
    using assms by (auto simp: p01_covered_def list_update_append take_update_swap drop_update_swap list_update_beyond min_def)
  moreover have "?j < length (p01_covered c b)" "v \<noteq> p01_covered c b ! ?j"
    using assms by (auto simp: p01_covered_def nth_append)
  ultimately show ?thesis using calculate_update(1) by (simp add: p01_crc_def xor_cancel)
qed

interpretation p01: e2e_link p01_protect p01_check p01_ready p01_covers
proof
  fix p c i and b :: bytes assume r: "p01_ready p c i (length b)"
  then have fits: "p01_fits (p01p_config p) (length b)" and c: "p01p_config p = c" by (simp_all add: p01_ready_def)
  from p01_protect_Ok [OF fits] obtain b2 where b2: "length b2 = length b"
    "p01_protect i (p, b) = Ok (p01_increment_counter p, b2[unat (p01_crc_offset c) := p01_crc c b2])"
    unfolding c by blast
  let ?b = "b2[unat (p01_crc_offset c) := p01_crc c b2]"
  have off: "unat (p01_crc_offset c) < length b2" using fits c b2(1) by (simp add: p01_fits_def)
  have check: "p01_check b3 i c = Ok (if b3 ! unat (p01_crc_offset c) = p01_crc c b3 then E2E_OK else E2E_WRONG_CRC, c)"
    if "length b3 = length b2" for b3 using p01_check_Ok fits c b2(1) that by simp
  have crc: "p01_crc c (b3[unat (p01_crc_offset c) := v]) = p01_crc c b3" for b3 v
    by (simp add: p01_crc_def p01_covered_crc_byte)
  show "\<exists>p' b' c'. p01_protect i (p, b) = Ok (p', b') \<and> length b' = length b
      \<and> p01_check b' i c = Ok (E2E_OK, c') \<and> p01_ready p' c' i (length b)"
    using b2 check [of ?b] crc off r by (simp add: p01_ready_def p01_increment_counter_def)
  fix p' b' k v
  assume "p01_protect i (p, b) = Ok (p', b')" "p01_covers p (length b) k" "k < length b" "v \<noteq> b' ! k"
  then have b': "b' = ?b" and k: "k \<le> unat (p01_crc_offset c) \<or> p01_behind_covered c" "k < length b2" "v \<noteq> ?b ! k"
    using b2 c by (simp_all add: p01_covers_def)
  show "p01_check (b'[k := v]) i c = Ok (E2E_WRONG_CRC, c)"
  proof (cases "k = unat (p01_crc_offset c)")
    case True
    then show ?thesis using k off by (simp add: b' check crc)
  next
    case False
    then have "p01_crc c (?b[k := v]) \<noteq> p01_crc c ?b" using k off by (intro p01_crc_update) auto
    then show ?thesis using False k off crc by (simp add: b' check)
  qed
qed

section \<open>The custom profile\<close>

record pc_config =
  pc_crc_offset :: u16
  pc_base :: nat

definition new_pc_config :: "u16 \<Rightarrow> pc_config" where
  "new_pc_config crc_offset = \<lparr>pc_crc_offset = crc_offset, pc_base = 16\<rparr>"

definition pc_compute_crc :: "pc_config \<Rightarrow> bytes \<Rightarrow> u32 result" where
  "pc_compute_crc c buffer =
     bind_r (buffer_view buffer (unat (pc_crc_offset c) + 4) (length buffer)) (\<lambda>view.
       Ok (calculate_profile_custom view))"

definition pc_is_buffer_length_valid :: "pc_config \<Rightarrow> bytes \<Rightarrow> bool" where
  "pc_is_buffer_length_valid c buffer \<longleftrightarrow> unat (pc_crc_offset c) + 4 \<le> length buffer"

definition pc_write_crc :: "pc_config \<Rightarrow> u32 \<Rightarrow> bytes \<Rightarrow> bytes result" where
  "pc_write_crc c computed_crc buffer =
     (let i = unat (pc_crc_offset c) in
      bind_r (buf_put i (ucast (drop_bit 24 computed_crc)) buffer) (\<lambda>b1.
      bind_r (buf_put (i + 1) (ucast (drop_bit 16 computed_crc)) b1) (\<lambda>b2.
      bind_r (buf_put (i + 2) (ucast (drop_bit 8 computed_crc)) b2) (\<lambda>b3.
      buf_put (i + 3) (ucast computed_crc) b3))))"

definition pc_protect :: "u16 \<Rightarrow> pc_config \<times> bytes \<Rightarrow> (pc_config \<times> bytes) result" where
  "pc_protect instance_id = (\<lambda>(c, buffer).
     if pc_is_buffer_length_valid c buffer
     then bind_r (pc_compute_crc c buffer) (\<lambda>computed_crc.
          bind_r (pc_write_crc c computed_crc buffer) (\<lambda>b.
          Ok (c, b)))
     else Ok (c, buffer))"

definition pc_read_crc :: "pc_config \<Rightarrow> bytes \<Rightarrow> u32 result" where
  "pc_read_crc c buffer =
     (let i = unat (pc_crc_offset c) in
      bind_r (buf_get i buffer) (\<lambda>b0.
      bind_r (buf_get (i + 1) buffer) (\<lambda>b1.
      bind_r (buf_get (i + 2) buffer) (\<lambda>b2.
      bind_r (buf_get (i + 3) buffer) (\<lambda>b3.
      Ok (push_bit 24 (ucast b0) OR push_bit 16 (ucast b1) OR push_bit 8 (ucast b2) OR ucast b3))))))"

definition pc_check :: "bytes \<Rightarrow> u16 \<Rightarrow> pc_config \<Rightarrow> (check_status \<times> pc_config) result" where
  "pc_check buffer instance_id c =
     (if pc_is_buffer_length_valid c buffer
      then bind_r (pc_read_crc c buffer) (\<lambda>received_crc.
           bind_r (pc_compute_crc c buffer) (\<lambda>calculated_crc.
           Ok (if received_crc = calculated_crc then E2E_OK else E2E_WRONG_CRC, c)))
      else Ok (E2E_ERROR, c))"

text \<open>The length check of this profile is complete.\<close>

definition pc_ready :: "pc_config \<Rightarrow> pc_config \<Rightarrow> u16 \<Rightarrow> nat \<Rightarrow> bool" where
  "pc_ready p c i n \<longleftrightarrow> p = c \<and> unat (pc_crc_offset c) + 4 \<le> n"

definition pc_covers :: "pc_config \<Rightarrow> nat \<Rightarrow> nat \<Rightarrow> bool" where
  "pc_covers p n k \<longleftrightarrow> unat (pc_crc_offset p) \<le> k"

definition pc_crc :: "pc_config \<Rightarrow> bytes \<Rightarrow> u32" where
  "pc_crc c b = calculate_profile_custom (drop (unat (pc_crc_offset c) + 4) b)"

definition pc_field :: "pc_config \<Rightarrow> bytes \<Rightarrow> u32" where
  "pc_field c b = (let i = unat (pc_crc_offset c) in
     push_bit 24 (ucast (b ! i)) OR push_bit 16 (ucast (b ! (i + 1))) OR push_bit 8 (ucast (b ! (i + 2)))
       OR ucast (b ! (i + 3)))"

definition pc_with_crc :: "pc_config \<Rightarrow> u32 \<Rightarrow> bytes \<Rightarrow> bytes" where
  "pc_with_crc c w b = (let i = unat (pc_crc_offset c) in
     b[i := ucast (drop_bit 24 w), i + 1 := ucast (drop_bit 16 w), i + 2 := ucast (drop_bit 8 w), i + 3 := ucast w])"

lemma pc_check_Ok:
  "unat (pc_crc_offset c) + 4 \<le> length b \<Longrightarrow>
     pc_check b i c = Ok (if pc_field c b = pc_crc c b then E2E_OK else E2E_WRONG_CRC, c)"
  by (simp add: pc_check_def pc_is_buffer_length_valid_def pc_read_crc_def pc_compute_crc_def buffer_view_def
      pc_field_def pc_crc_def Let_def)

lemma pc_protect_Ok:
  "unat (pc_crc_offset c) + 4 \<le> length b \<Longrightarrow> pc_protect i (c, b) = Ok (c, pc_with_crc c (pc_crc c b) b)"
  by (simp add: pc_protect_def pc_is_buffer_length_valid_def pc_write_crc_def pc_compute_crc_def buffer_view_def
      pc_with_crc_def pc_crc_def Let_def)

lemma length_pc_with_crc [simp]: "length (pc_with_crc c w b) = length b"
  by (simp add: pc_with_crc_def Let_def)

lemma pc_crc_with_crc [simp]: "pc_crc c (pc_with_crc c w b) = pc_crc c b"
  by (simp add: pc_crc_def pc_with_crc_def Let_def drop_update_cancel)

lemma pc_field_with_crc: "unat (pc_crc_offset c) + 4 \<le> length b \<Longrightarrow> pc_field c (pc_with_crc c w b) = w"
  unfolding pc_field_def pc_with_crc_def Let_def
  by (simp add: nth_list_update) (rule bit_word_eqI, auto simp: bit_simps word_bits)

text \<open>Both the field and the data behind it change with every byte.\<close>

lemma pc_field_update:
  assumes "k < 4" "unat (pc_crc_offset c) + 4 \<le> length b" "v \<noteq> b ! (unat (pc_crc_offset c) + k)"
  shows "pc_field c (b[unat (pc_crc_offset c) + k := v]) \<noteq> pc_field c b"
proof -
  let ?i = "unat (pc_crc_offset c)"
  have bytes: "ucast (drop_bit 24 (pc_field c d)) = d ! ?i" "ucast (drop_bit 16 (pc_field c d)) = d ! (?i + 1)"
    "ucast (drop_bit 8 (pc_field c d)) = d ! (?i + 2)" "ucast (pc_field c d) = d ! (?i + 3)" for d
    by (rule bit_word_eqI, auto simp: pc_field_def Let_def bit_simps dest: bit_imp_le_length)+
  have "k = 0 \<or> k = 1 \<or> k = 2 \<or> k = 3" using assms(1) by arith
  moreover have "(b[?i + k := v]) ! (?i + k) \<noteq> b ! (?i + k)" using assms by simp
  ultimately show ?thesis using bytes [of b] bytes [of "b[?i + k := v]"] by (metis add_0_right)
qed

interpretation pc: e2e_link pc_protect pc_check pc_ready pc_covers
proof
  fix p c i and b :: bytes assume r: "pc_ready p c i (length b)"
  then have len: "unat (pc_crc_offset c) + 4 \<le> length b" and p: "p = c" by (simp_all add: pc_ready_def)
  let ?b = "pc_with_crc c (pc_crc c b) b"
  have field: "pc_field c ?b = pc_crc c ?b" using len by (simp add: pc_field_with_crc)
  show "\<exists>p' b' c'. pc_protect i (p, b) = Ok (p', b') \<and> length b' = length b
      \<and> pc_check b' i c = Ok (E2E_OK, c') \<and> pc_ready p' c' i (length b)"
    using len r field by (simp add: p pc_protect_Ok pc_check_Ok)
  fix p' b' k v
  assume "pc_protect i (p, b) = Ok (p', b')" "pc_covers p (length b) k" and k: "k < length b" and v: "v \<noteq> b' ! k"
  then have b': "b' = ?b" and off: "unat (pc_crc_offset c) \<le> k"
    using len by (auto simp: p pc_protect_Ok pc_covers_def)
  have "pc_field c (?b[k := v]) \<noteq> pc_crc c (?b[k := v])"
  proof (cases "k < unat (pc_crc_offset c) + 4")
    case True
    then have "pc_crc c (?b[k := v]) = pc_crc c ?b" by (simp add: pc_crc_def drop_update_cancel)
    moreover have "pc_field c (?b[k := v]) \<noteq> pc_field c ?b"
      using pc_field_update [of "k - unat (pc_crc_offset c)" c ?b v] True off len v b' by simp
    ultimately show ?thesis using field by simp
  next
    case False
    then have "pc_field c (?b[k := v]) = pc_field c ?b" by (simp add: pc_field_def Let_def)
    moreover have "pc_crc c (?b[k := v]) \<noteq> pc_crc c ?b"
      using False k v b' unfolding pc_crc_def by (simp add: drop_update_swap calculate_update(3))
    ultimately show ?thesis using field by simp
  qed
  then show "pc_check (b'[k := v]) i c = Ok (E2E_WRONG_CRC, c)" using len by (simp add: b' pc_check_Ok)
qed

section \<open>Properties\<close>

lemma p01_writes:
  "unat (p01_counter_offset (p01p_config p)) div 8 \<ge> length b \<Longrightarrow> p01_write_counter p b = Undefined"
  "unat (p01_counter_offset (p01p_config p)) div 8 < length b \<Longrightarrow> \<exists>b'. p01_write_counter p b = Ok b' \<and> length b' = length b"
  "p01_data_id_mode (p01p_config p) = E2E_P01_DATAID_NIBBLE \<Longrightarrow>
     unat (p01_data_id_nibble_offset (p01p_config p)) div 8 \<ge> length b \<Longrightarrow> p01_write_data_id p b = Undefined"
  "p01_data_id_mode (p01p_config p) \<noteq> E2E_P01_DATAID_NIBBLE
     \<or> unat (p01_data_id_nibble_offset (p01p_config p)) div 8 < length b \<Longrightarrow>
     \<exists>b'. p01_write_data_id p b = Ok b' \<and> length b' = length b"
  "unat (p01_crc_offset (p01p_config p)) \<ge> length b \<Longrightarrow> p01_write_crc p v b = Undefined"
  "p01_write_data_id p b \<noteq> Refused"
  by (auto simp: p01_write_counter_def p01_write_data_id_def p01_write_crc_def Let_def buf_get_def buf_put_def)

lemma p01_compute_crc_total: "p01_compute_crc c b \<noteq> Refused"
  by (auto simp: p01_compute_crc_def Let_def buffer_view_def)

text \<open>
  [C33] The length check of profile 1 admits offsets one behind the end of the buffer. Protecting a
  buffer has undefined behaviour exactly when the check passes and the offset of the checksum or of
  the counter, or in nibble mode that of the data identifier, is the length of the buffer; in every
  other case it returns.
\<close>

theorem p01_protect_undefined:
  "p01_protect i (p, b) = Undefined \<longleftrightarrow>
     p01_is_buffer_length_valid (p01p_config p) b
     \<and> (unat (p01_crc_offset (p01p_config p)) = length b
        \<or> unat (p01_counter_offset (p01p_config p)) div 8 = length b
        \<or> p01_data_id_mode (p01p_config p) = E2E_P01_DATAID_NIBBLE
          \<and> unat (p01_data_id_nibble_offset (p01p_config p)) div 8 = length b)"
proof (cases "p01_is_buffer_length_valid (p01p_config p) b")
  case valid: True
  show ?thesis
  proof (cases "p01_fits (p01p_config p) (length b)")
    case True
    have "p01_protect i (p, b) \<noteq> Undefined" by (rule p01_protect_Ok [OF True, of i]) simp
    then show ?thesis using True by (auto simp: p01_fits_def)
  next
    case False
    then have bad: "unat (p01_crc_offset (p01p_config p)) = length b
        \<or> unat (p01_counter_offset (p01p_config p)) div 8 = length b
        \<or> p01_data_id_mode (p01p_config p) = E2E_P01_DATAID_NIBBLE
          \<and> unat (p01_data_id_nibble_offset (p01p_config p)) div 8 = length b"
      using valid by (auto simp: p01_fits_def p01_is_buffer_length_valid_def)
    have "p01_protect i (p, b) = Undefined"
    proof (cases "unat (p01_counter_offset (p01p_config p)) div 8 < length b")
      case True
      from p01_writes(2) [OF this] obtain b1 where b1: "p01_write_counter p b = Ok b1" "length b1 = length b" by blast
      show ?thesis
      proof (cases "p01_write_data_id p b1")
        case (Ok b2)
        then have "length b2 = length b" "unat (p01_crc_offset (p01p_config p)) = length b"
          using bad True p01_writes(3,4) [of p b1] b1(2) by force+
        then show ?thesis using valid b1 Ok p01_compute_crc_total [of "p01p_config p" b2] p01_writes(5) [of b2 p]
          by (cases "p01_compute_crc (p01p_config p) b2") (simp_all add: p01_protect_def)
      qed (use valid b1 p01_writes(6) [of p b1] in \<open>simp_all add: p01_protect_def\<close>)
    qed (use valid p01_writes(1) in \<open>simp add: p01_protect_def\<close>)
    then show ?thesis using valid bad by simp
  qed
qed (simp add: p01_protect_def)

text \<open>
  [C29] Whether a checker notices a wrong data identifier depends on the mode. When sender and receiver
  differ in nothing but the data identifier, a protected message is accepted in mode \<open>LOW\<close> and in mode
  \<open>NIBBLE\<close> exactly when the low bytes of the identifiers agree (the nibble that is transmitted is not
  compared), and always in mode \<open>ALT\<close>, which leaves the identifier out of the checksum.
\<close>

theorem p01_data_id_checked:
  assumes "p01_fits (p01p_config p) (length b)" "p01_protect i (p, b) = Ok (p', b')"
    and "r = (p01p_config p)\<lparr>p01_data_id := received_id\<rparr>"
  shows "(p01_data_id_mode r = E2E_P01_DATAID_LOW \<or> p01_data_id_mode r = E2E_P01_DATAID_NIBBLE \<longrightarrow>
        (p01_check b' i r = Ok (E2E_OK, r) \<longleftrightarrow> (ucast received_id :: byte) = ucast (p01_data_id (p01p_config p))))
    \<and> (p01_data_id_mode r = E2E_P01_DATAID_ALT \<longrightarrow> p01_check b' i r = Ok (E2E_OK, r))"
proof -
  let ?c = "p01p_config p"
  from p01_protect_Ok [OF assms(1), of i] assms(2) obtain b2 where b': "length b2 = length b"
    "b' = b2[unat (p01_crc_offset ?c) := p01_crc ?c b2]" by (metis prod.inject result.inject)
  have off: "unat (p01_crc_offset ?c) < length b2" using assms(1) b'(1) by (simp add: p01_fits_def)
  have "p01_fits r (length b')" using assms(1,3) b' by (simp add: p01_fits_def)
  from p01_check_Ok [OF this, of i] off have
    "p01_check b' i r = Ok (E2E_OK, r) \<longleftrightarrow> p01_crc ?c b2 = p01_crc r b2"
    by (simp add: b' assms(3) p01_crc_def p01_covered_def p01_behind_covered_def drop_update_cancel)
  also have "\<dots> \<longleftrightarrow> p01_data_id_crc ?c = p01_data_id_crc r"
    by (simp add: p01_crc_def assms(3) p01_covered_def p01_behind_covered_def xor_cancel calculate_folds inj_fold_crc8_byte)
  finally show ?thesis
    by (auto simp: assms(3) p01_data_id_crc_def Let_def E2E_P01_DATAID_BOTH_def E2E_P01_DATAID_ALT_def
        E2E_P01_DATAID_LOW_def E2E_P01_DATAID_NIBBLE_def calculate_folds xor_cancel inj_fold_crc8_byte inj_crc8_byte)
qed

text \<open>A configuration with the checksum in front, the counter in the low nibble of the second byte.\<close>

definition sample_p01 :: "byte \<Rightarrow> p01_protector" where
  "sample_p01 mode = \<lparr>p01p_config = new_p01_config 0 0x0123 mode 32 8 12, p01p_counter = 0\<rparr>"

lemma sample_p01_fits: "length b = 5 \<Longrightarrow> p01_fits (p01p_config (sample_p01 mode)) (length b)"
  by (simp add: sample_p01_def new_p01_config_def p01_fits_def)

theorem p01_data_id_checked_witness:
  "\<exists>p' b'. p01_protect 1 (sample_p01 E2E_P01_DATAID_LOW, [0, 0, 1, 2, 3]) = Ok (p', b')
     \<and> p01_check b' 1 ((p01p_config (sample_p01 E2E_P01_DATAID_LOW))\<lparr>p01_data_id := 0x0923\<rparr>)
       = Ok (E2E_OK, (p01p_config (sample_p01 E2E_P01_DATAID_LOW))\<lparr>p01_data_id := 0x0923\<rparr>)"
proof -
  let ?c = "p01p_config (sample_p01 E2E_P01_DATAID_LOW)"
  have fits: "p01_fits ?c (length [0, 0, 1, 2, 3 :: byte])" by (rule sample_p01_fits) simp
  from p01_protect_Ok [OF this, of 1] obtain p' b' where
    protected: "p01_protect 1 (sample_p01 E2E_P01_DATAID_LOW, [0, 0, 1, 2, 3]) = Ok (p', b')" by blast
  have "p01_data_id_mode (?c\<lparr>p01_data_id := 0x0923\<rparr>) = E2E_P01_DATAID_LOW" "p01_data_id ?c = 0x0123"
    by (simp_all add: sample_p01_def new_p01_config_def)
  moreover have "(ucast (0x0923 :: u16) :: byte) = ucast (0x0123 :: u16)" by simp
  ultimately show ?thesis using protected p01_data_id_checked [OF fits protected refl, of "0x0923"] by metis
qed

end
