(* ===== verification/E2e_Profile04.thy ===== *)
theory E2e_Profile04
  imports E2e_Profile Byteorder
begin

text \<open>
  End-to-end protection profile 4 (\<open>e2e_protection/src/e2e/profile/profile04\<close>): length, counter, data
  identifier and checksum in twelve bytes at a fixed offset. The flag \<open>has_counter\<close> of
  \<open>verify_counter\<close> is a static variable of the function and therefore shared by all checkers; it is a
  component of the state next to the checker.
\<close>

section \<open>The operations\<close>

definition VSOMEIP_E2E_PROFILE04_MAX_INSTANCE :: u16 where "VSOMEIP_E2E_PROFILE04_MAX_INSTANCE = 0x00FF"

record p04_config =
  p04_data_id :: u32
  p04_offset :: nat
  p04_min_data_length :: nat
  p04_max_data_length :: nat
  p04_max_delta_counter :: u16
  p04_base :: nat

definition new_p04_config :: "u32 \<Rightarrow> nat \<Rightarrow> nat \<Rightarrow> nat \<Rightarrow> u16 \<Rightarrow> p04_config" where
  "new_p04_config data_id offset min_data_length max_data_length max_delta_counter =
     \<lparr>p04_data_id = data_id, p04_offset = offset, p04_min_data_length = min_data_length,
      p04_max_data_length = max_data_length, p04_max_delta_counter = max_delta_counter, p04_base = 8\<rparr>"

definition p04_compute_crc :: "p04_config \<Rightarrow> bytes \<Rightarrow> u32 result" where
  "p04_compute_crc c buffer =
     bind_r (buffer_view buffer 0 (p04_offset c + 8)) (\<lambda>its_before.
       let computed_crc = calculate_profile_04 its_before 0 in
       if p04_offset c + 12 < length buffer
       then bind_r (buffer_view buffer (p04_offset c + 12) (length buffer)) (\<lambda>its_after.
              Ok (calculate_profile_04 its_after computed_crc))
       else Ok computed_crc)"

record p04_protector =
  p04p_config :: p04_config
  p04p_counter :: u16

definition new_p04_protector :: "p04_config \<Rightarrow> p04_protector" where
  "new_p04_protector c = \<lparr>p04p_config = c, p04p_counter = 0\<rparr>"

definition p04_verify_inputs :: "p04_config \<Rightarrow> bytes \<Rightarrow> bool" where
  "p04_verify_inputs c buffer \<longleftrightarrow>
     length buffer \<ge> p04_min_data_length c \<and> length buffer \<le> p04_max_data_length c"

definition p04_write_16 :: "p04_config \<Rightarrow> u16 \<Rightarrow> nat \<Rightarrow> bytes \<Rightarrow> bytes result" where
  "p04_write_16 c data index buffer =
     bind_r (buf_put (p04_offset c + index) (WORD_BYTE1 data) buffer) (\<lambda>b1.
       buf_put (p04_offset c + index + 1) (WORD_BYTE0 data) b1)"

definition p04_write_32 :: "p04_config \<Rightarrow> u32 \<Rightarrow> nat \<Rightarrow> bytes \<Rightarrow> bytes result" where
  "p04_write_32 c data index buffer =
     bind_r (buf_put (p04_offset c + index) (LONG_BYTE3 data) buffer) (\<lambda>b1.
     bind_r (buf_put (p04_offset c + index + 1) (LONG_BYTE2 data) b1) (\<lambda>b2.
     bind_r (buf_put (p04_offset c + index + 2) (LONG_BYTE1 data) b2) (\<lambda>b3.
       buf_put (p04_offset c + index + 3) (LONG_BYTE0 data) b3)))"

definition p04_increment_counter :: "p04_protector \<Rightarrow> p04_protector" where
  "p04_increment_counter p = p\<lparr>p04p_counter := p04p_counter p + 1\<rparr>"

definition its_data_id :: "p04_config \<Rightarrow> u16 \<Rightarrow> u32" where
  "its_data_id c instance_id = push_bit 24 (ucast instance_id) OR p04_data_id c"

definition p04_protect :: "u16 \<Rightarrow> p04_protector \<times> bytes \<Rightarrow> (p04_protector \<times> bytes) result" where
  "p04_protect instance_id = (\<lambda>(p, buffer).
     let c = p04p_config p in
     if instance_id > VSOMEIP_E2E_PROFILE04_MAX_INSTANCE then Ok (p, buffer)
     else if p04_verify_inputs c buffer
     then bind_r (p04_write_16 c (of_nat (length buffer)) 0 buffer) (\<lambda>b1.
          bind_r (p04_write_16 c (p04p_counter p) 2 b1) (\<lambda>b2.
          bind_r (p04_write_32 c (its_data_id c instance_id) 4 b2) (\<lambda>b3.
          bind_r (p04_compute_crc c b3) (\<lambda>its_crc.
          bind_r (p04_write_32 c its_crc 8 b3) (\<lambda>b4.
          Ok (p04_increment_counter p, b4))))))
     else Ok (p, buffer))"

record p04_checker =
  p04c_config :: p04_config
  p04c_counter :: u16

definition new_p04_checker :: "p04_config \<Rightarrow> p04_checker" where
  "new_p04_checker c = \<lparr>p04c_config = c, p04c_counter = 0xFFFF\<rparr>"

definition p04_its_delta :: "u16 \<Rightarrow> u16 \<Rightarrow> u16" where
  "p04_its_delta counter received_counter =
     (if counter < received_counter then received_counter - counter
      else 0xFFFF - counter + received_counter)"

definition p04_verify_input :: "p04_config \<Rightarrow> bytes \<Rightarrow> bool" where
  "p04_verify_input c buffer \<longleftrightarrow>
     (let its_length = length buffer in its_length \<ge> p04_min_data_length c \<and> its_length \<le> p04_max_data_length c)"

text \<open>The first component of the state is the static \<open>has_counter\<close>.\<close>

definition p04_verify_counter :: "u16 \<Rightarrow> bool \<times> p04_checker \<Rightarrow> bool \<times> bool \<times> p04_checker" where
  "p04_verify_counter received_counter = (\<lambda>(has_counter, k).
     let its_delta = (if has_counter then p04_its_delta (p04c_counter k) received_counter else 0)
     in (its_delta \<le> p04_max_delta_counter (p04c_config k), True, k))"

definition p04_read_16 :: "p04_config \<Rightarrow> bytes \<Rightarrow> nat \<Rightarrow> u16 result" where
  "p04_read_16 c buffer index =
     bind_r (buf_get (p04_offset c + index) buffer) (\<lambda>b0.
     bind_r (buf_get (p04_offset c + index + 1) buffer) (\<lambda>b1.
     Ok (BYTES_TO_WORD b0 b1)))"

definition p04_read_32 :: "p04_config \<Rightarrow> bytes \<Rightarrow> nat \<Rightarrow> u32 result" where
  "p04_read_32 c buffer index =
     bind_r (buf_get (p04_offset c + index) buffer) (\<lambda>b0.
     bind_r (buf_get (p04_offset c + index + 1) buffer) (\<lambda>b1.
     bind_r (buf_get (p04_offset c + index + 2) buffer) (\<lambda>b2.
     bind_r (buf_get (p04_offset c + index + 3) buffer) (\<lambda>b3.
     Ok (BYTES_TO_LONG b0 b1 b2 b3)))))"

definition p04_check :: "bytes \<Rightarrow> u16 \<Rightarrow> bool \<times> p04_checker \<Rightarrow> (check_status \<times> bool \<times> p04_checker) result" where
  "p04_check buffer instance_id = (\<lambda>(has_counter, k).
     let c = p04c_config k in
     if instance_id > VSOMEIP_E2E_PROFILE04_MAX_INSTANCE then Ok (E2E_ERROR, has_counter, k)
     else if p04_verify_input c buffer
     then bind_r (p04_read_16 c buffer 0) (\<lambda>its_received_length.
          bind_r (p04_read_16 c buffer 2) (\<lambda>its_received_counter.
          bind_r (p04_read_32 c buffer 4) (\<lambda>its_received_data_id.
          bind_r (p04_read_32 c buffer 8) (\<lambda>its_received_crc.
          bind_r (p04_compute_crc c buffer) (\<lambda>its_crc.
            if its_received_crc \<noteq> its_crc then Ok (E2E_WRONG_CRC, has_counter, k)
            else
              let (ok, has_counter', k') =
                (if its_received_data_id = its_data_id c instance_id
                    \<and> unat its_received_length = length buffer
                 then p04_verify_counter its_received_counter (has_counter, k)
                 else (False, has_counter, k))
              in Ok (if ok then E2E_OK else E2E_ERROR, has_counter', k'\<lparr>p04c_counter := its_received_counter\<rparr>))))))
     else Ok (E2E_ERROR, has_counter, k))"

section \<open>Fields and checksum of a buffer\<close>

definition p04_word :: "bytes \<Rightarrow> nat \<Rightarrow> u16" where
  "p04_word b i = BYTES_TO_WORD (b ! i) (b ! (i + 1))"

definition p04_long :: "bytes \<Rightarrow> nat \<Rightarrow> u32" where
  "p04_long b i = BYTES_TO_LONG (b ! i) (b ! (i + 1)) (b ! (i + 2)) (b ! (i + 3))"

definition p04_covered :: "p04_config \<Rightarrow> bytes \<Rightarrow> bytes" where
  "p04_covered c b = take (p04_offset c + 8) b @ drop (p04_offset c + 12) b"

definition p04_crc :: "p04_config \<Rightarrow> bytes \<Rightarrow> u32" where
  "p04_crc c b = calculate_profile_04 (p04_covered c b) 0"

definition p04_put_16 :: "u16 \<Rightarrow> nat \<Rightarrow> bytes \<Rightarrow> bytes" where
  "p04_put_16 w i b = b[i := WORD_BYTE1 w, i + 1 := WORD_BYTE0 w]"

definition p04_put_32 :: "u32 \<Rightarrow> nat \<Rightarrow> bytes \<Rightarrow> bytes" where
  "p04_put_32 w i b = b[i := LONG_BYTE3 w, i + 1 := LONG_BYTE2 w, i + 2 := LONG_BYTE1 w, i + 3 := LONG_BYTE0 w]"

lemma length_p04_put [simp]: "length (p04_put_16 w i b) = length b" "length (p04_put_32 x i b) = length b"
  by (simp_all add: p04_put_16_def p04_put_32_def)

lemma p04_rw_Ok:
  assumes "p04_offset c + n \<le> length b"
  shows "j + 2 \<le> n \<Longrightarrow> p04_write_16 c w j b = Ok (p04_put_16 w (p04_offset c + j) b)"
    "j + 4 \<le> n \<Longrightarrow> p04_write_32 c x j b = Ok (p04_put_32 x (p04_offset c + j) b)"
    "j + 2 \<le> n \<Longrightarrow> p04_read_16 c b j = Ok (p04_word b (p04_offset c + j))"
    "j + 4 \<le> n \<Longrightarrow> p04_read_32 c b j = Ok (p04_long b (p04_offset c + j))"
  using assms by (simp_all add: p04_write_16_def p04_write_32_def p04_read_16_def p04_read_32_def
      p04_put_16_def p04_put_32_def p04_word_def p04_long_def)

lemma p04_compute_crc_Ok: "p04_offset c + 12 \<le> length b \<Longrightarrow> p04_compute_crc c b = Ok (p04_crc c b)"
  by (cases "p04_offset c + 12 = length b")
    (simp_all add: p04_compute_crc_def p04_crc_def p04_covered_def buffer_view_def calculate_append Let_def)

lemma p04_put_word:
  assumes "i + 2 \<le> length b"
  shows "p04_word (p04_put_16 w i b) i = w" "j + 2 \<le> i \<or> i + 2 \<le> j \<Longrightarrow> p04_word (p04_put_16 w i b) j = p04_word b j"
    "j + 4 \<le> i \<or> i + 2 \<le> j \<Longrightarrow> p04_long (p04_put_16 w i b) j = p04_long b j"
  using assms by (auto simp: p04_put_16_def p04_word_def p04_long_def nth_list_update)

lemma p04_put_long:
  assumes "i + 4 \<le> length b"
  shows "p04_long (p04_put_32 w i b) i = w" "j + 4 \<le> i \<or> i + 4 \<le> j \<Longrightarrow> p04_long (p04_put_32 w i b) j = p04_long b j"
    "j + 2 \<le> i \<or> i + 4 \<le> j \<Longrightarrow> p04_word (p04_put_32 w i b) j = p04_word b j"
  using assms by (auto simp: p04_put_32_def p04_word_def p04_long_def nth_list_update)

lemma p04_crc_put: "p04_crc c (p04_put_32 w (p04_offset c + 8) b) = p04_crc c b"
  by (simp add: p04_crc_def p04_covered_def p04_put_32_def drop_update_cancel take_update_cancel)

text \<open>The outcome of protecting a buffer that has room for the twelve bytes.\<close>

definition p04_protected :: "p04_config \<Rightarrow> u16 \<Rightarrow> u16 \<Rightarrow> bytes \<Rightarrow> bytes" where
  "p04_protected c counter i b =
     (let o1 = p04_offset c;
          b3 = p04_put_32 (its_data_id c i) (o1 + 4) (p04_put_16 counter (o1 + 2) (p04_put_16 (of_nat (length b)) o1 b))
      in p04_put_32 (p04_crc c b3) (o1 + 8) b3)"

lemma p04_protect_Ok:
  assumes "i \<le> 0xFF" "p04_verify_inputs (p04p_config p) b" "p04_offset (p04p_config p) + 12 \<le> length b"
  shows "p04_protect i (p, b) = Ok (p04_increment_counter p, p04_protected (p04p_config p) (p04p_counter p) i b)"
proof -
  note rw = p04_rw_Ok [of "p04p_config p" 12]
  show ?thesis using assms
    by (simp add: p04_protect_def VSOMEIP_E2E_PROFILE04_MAX_INSTANCE_def Let_def rw p04_compute_crc_Ok
        p04_protected_def leD)
qed

lemma p04_protected_fields:
  assumes "p04_offset c + 12 \<le> length b"
  shows "length (p04_protected c r i b) = length b"
    "p04_word (p04_protected c r i b) (p04_offset c) = of_nat (length b)"
    "p04_word (p04_protected c r i b) (p04_offset c + 2) = r"
    "p04_long (p04_protected c r i b) (p04_offset c + 4) = its_data_id c i"
    "p04_long (p04_protected c r i b) (p04_offset c + 8) = p04_crc c (p04_protected c r i b)"
  using assms by (simp_all add: p04_protected_def Let_def p04_put_word p04_put_long p04_crc_put)

lemma p04_check_Ok:
  assumes "i \<le> 0xFF" "p04_verify_input (p04c_config k) b" "p04_offset (p04c_config k) + 12 \<le> length b"
  shows "p04_check b i (h, k) =
    (let c = p04c_config k; r = p04_word b (p04_offset c + 2) in
     if p04_long b (p04_offset c + 8) \<noteq> p04_crc c b then Ok (E2E_WRONG_CRC, h, k)
     else if p04_long b (p04_offset c + 4) = its_data_id c i \<and> unat (p04_word b (p04_offset c)) = length b
     then Ok (if fst (p04_verify_counter r (h, k)) then E2E_OK else E2E_ERROR, True, k\<lparr>p04c_counter := r\<rparr>)
     else Ok (E2E_ERROR, h, k\<lparr>p04c_counter := r\<rparr>))"
proof -
  note rw = p04_rw_Ok [of "p04c_config k" 12]
  show ?thesis using assms
    by (simp add: p04_check_def VSOMEIP_E2E_PROFILE04_MAX_INSTANCE_def Let_def rw p04_compute_crc_Ok leD
        p04_verify_counter_def)
qed

lemma p04_check_protected:
  assumes "i \<le> 0xFF" "p04c_config k = c" "p04_verify_input c b" "p04_offset c + 12 \<le> length b" "length b < 2 ^ 16"
  shows "p04_check (p04_protected c r i b) i (h, k) =
    Ok (if h \<longrightarrow> p04_its_delta (p04c_counter k) r \<le> p04_max_delta_counter c then E2E_OK else E2E_ERROR,
      True, k\<lparr>p04c_counter := r\<rparr>)"
proof -
  note fields = p04_protected_fields [OF assms(4), of r i]
  have "p04_verify_input (p04c_config k) (p04_protected c r i b)"
    using assms fields(1) by (simp add: p04_verify_input_def)
  from p04_check_Ok [OF assms(1) this] show ?thesis
    using assms fields by (auto simp: p04_verify_counter_def unat_u16 Let_def)
qed

section \<open>The interface\<close>

definition p04_fits :: "p04_config \<Rightarrow> u16 \<Rightarrow> nat \<Rightarrow> bool" where
  "p04_fits c i n \<longleftrightarrow> i \<le> 0xFF \<and> p04_min_data_length c \<le> n \<and> n \<le> p04_max_data_length c
     \<and> p04_offset c + 12 \<le> n \<and> n < 2 ^ 16 \<and> 1 \<le> p04_max_delta_counter c"

definition p04_ready :: "p04_protector \<Rightarrow> bool \<times> p04_checker \<Rightarrow> u16 \<Rightarrow> nat \<Rightarrow> bool" where
  "p04_ready p = (\<lambda>(h, k) i n. p04p_config p = p04c_config k \<and> p04_fits (p04c_config k) i n
     \<and> p04p_counter p = p04c_counter k + 1)"

definition p04_covers :: "p04_protector \<Rightarrow> nat \<Rightarrow> nat \<Rightarrow> bool" where
  "p04_covers p n k \<longleftrightarrow> True"

lemma p04_its_delta_minus: "p04_its_delta k r = (if k < r then r - k else r - k - 1)"
proof -
  have "(0xFFFF :: u16) = - 1" by simp
  then show ?thesis unfolding p04_its_delta_def by (simp add: algebra_simps)
qed

lemma p04_delta_next: "p04_its_delta r (r + 1) \<le> 1"
  unfolding p04_its_delta_minus by (simp add: word_le_nat_alt)

lemma BYTES_TO_LONG_inject:
  "BYTES_TO_LONG a b c d = BYTES_TO_LONG a' b' c' d' \<longleftrightarrow> a = a' \<and> b = b' \<and> c = c' \<and> d = d'"
  by (metis LONG_BYTE_BYTES_TO_LONG)

lemma p04_crc_update:
  assumes "p04_offset c + 12 \<le> length b" "k < length b" "v \<noteq> b ! k"
  shows "p04_long (b[k := v]) (p04_offset c + 8) = p04_crc c (b[k := v]) \<longrightarrow> p04_long b (p04_offset c + 8) \<noteq> p04_crc c b"
proof (cases "p04_offset c + 8 \<le> k \<and> k < p04_offset c + 12")
  case True
  then have "p04_crc c (b[k := v]) = p04_crc c b"
    by (simp add: p04_crc_def p04_covered_def drop_update_cancel take_update_cancel)
  moreover have "p04_long (b[k := v]) (p04_offset c + 8) \<noteq> p04_long b (p04_offset c + 8)"
  proof -
    have "k = p04_offset c + 8 \<or> k = p04_offset c + 9 \<or> k = p04_offset c + 10 \<or> k = p04_offset c + 11"
      using True by arith
    then show ?thesis using assms(2,3)
      by (auto simp: p04_long_def nth_list_update BYTES_TO_LONG_inject add.commute)
  qed
  ultimately show ?thesis by metis
next
  case False
  let ?o = "p04_offset c"
  let ?j = "if k < ?o + 8 then k else k - 4"
  have "p04_covered c (b[k := v]) = (p04_covered c b)[?j := v]"
    using assms False by (auto simp: p04_covered_def list_update_append take_update_swap drop_update_swap
        list_update_beyond min_def add.commute)
  moreover have "?j < length (p04_covered c b)" "v \<noteq> p04_covered c b ! ?j"
    using assms False by (auto simp: p04_covered_def nth_append min_def)
  ultimately have "p04_crc c (b[k := v]) \<noteq> p04_crc c b" using calculate_update(2) by (simp add: p04_crc_def)
  moreover have "p04_long (b[k := v]) (?o + 8) = p04_long b (?o + 8)"
    using False by (auto simp: p04_long_def)
  ultimately show ?thesis by auto
qed

interpretation p04: e2e_link p04_protect p04_check p04_ready p04_covers
proof
  fix p :: p04_protector and k i and b :: bytes assume r: "p04_ready p k i (length b)"
  obtain h ck where k: "k = (h, ck)" by (cases k)
  let ?c = "p04c_config ck"
  let ?b = "p04_protected ?c (p04p_counter p) i b"
  have c: "p04p_config p = ?c" and fits: "p04_fits ?c i (length b)" and ctr: "p04p_counter p = p04c_counter ck + 1"
    using r by (simp_all add: p04_ready_def k)
  have protect: "p04_protect i (p, b) = Ok (p04_increment_counter p, ?b)"
    using p04_protect_Ok [of i p b] fits c by (simp add: p04_fits_def p04_verify_inputs_def)
  have len: "length ?b = length b" using fits by (intro p04_protected_fields(1)) (simp add: p04_fits_def)
  have "p04_its_delta (p04c_counter ck) (p04p_counter p) \<le> p04_max_delta_counter ?c"
    using p04_delta_next [of "p04c_counter ck"] fits ctr order_trans by (auto simp: p04_fits_def)
  then have check: "p04_check ?b i k = Ok (E2E_OK, True, ck\<lparr>p04c_counter := p04p_counter p\<rparr>)"
    using p04_check_protected [of i ck ?c b "p04p_counter p" h] fits
    by (simp add: k p04_fits_def p04_verify_input_def)
  show "\<exists>p' b' c'. p04_protect i (p, b) = Ok (p', b') \<and> length b' = length b
      \<and> p04_check b' i k = Ok (E2E_OK, c') \<and> p04_ready p' c' i (length b)"
    using protect check len fits c by (auto simp: p04_ready_def p04_increment_counter_def)
  fix p' b' n v
  assume "p04_protect i (p, b) = Ok (p', b')" "n < length b" "v \<noteq> b' ! n"
  then have b': "b' = ?b" and n: "n < length ?b" "v \<noteq> ?b ! n" using protect len by auto
  have off: "p04_offset ?c + 12 \<le> length ?b" using fits len by (simp add: p04_fits_def)
  have "p04_long (?b[n := v]) (p04_offset ?c + 8) \<noteq> p04_crc ?c (?b[n := v])"
    using p04_crc_update [OF off n] p04_protected_fields(5) [of ?c b] fits by (auto simp: p04_fits_def)
  then show "p04_check (b'[n := v]) i k = Ok (E2E_WRONG_CRC, k)"
    using p04_check_Ok [of i ck "?b[n := v]" h] off fits len
    by (simp add: b' k p04_fits_def p04_verify_input_def Let_def)
qed

section \<open>Properties\<close>

text \<open>
  [C28] The counter check of profile 4. A protected message with counter \<open>r\<close> that meets a checker whose
  last counter is \<open>k\<close> is accepted, once a counter has been seen, exactly when the number of lost steps
  is within the bound: \<open>r - k\<close> when \<open>k < r\<close>, but one less than the distance modulo \<open>2 ^ 16\<close> when the
  counter has wrapped around, so that one more message may be lost there; a repeated counter gives
  \<open>0xFFFF\<close>. When no counter has been seen by any checker the message is accepted. In every case \<open>r\<close>
  becomes the last counter.
\<close>

theorem p04_counter_check:
  assumes "p04_fits c i (length b)" "p04p_config p = c" "p04p_counter p = r" "p04c_config ck = c"
  shows "\<exists>p' b'. p04_protect i (p, b) = Ok (p', b')
    \<and> p04_check b' i (has_counter, ck) =
      Ok (if has_counter \<longrightarrow>
            (if p04c_counter ck < r then r - p04c_counter ck else r - p04c_counter ck - 1) \<le> p04_max_delta_counter c
          then E2E_OK else E2E_ERROR, True, ck\<lparr>p04c_counter := r\<rparr>)"
  using assms p04_protect_Ok [of i p b] p04_check_protected [of i ck c b r has_counter]
  by (simp add: p04_fits_def p04_verify_inputs_def p04_verify_input_def p04_its_delta_minus)

definition sample_p04 :: p04_config where
  "sample_p04 = new_p04_config 0x1234 0 12 64 2"

definition sample_checker :: p04_checker where
  "sample_checker = \<lparr>p04c_config = sample_p04, p04c_counter = 3\<rparr>"

lemma sample_p04_fits: "length b = 16 \<Longrightarrow> p04_fits sample_p04 1 (length b)"
  by (simp add: p04_fits_def sample_p04_def new_p04_config_def)

theorem p04_counter_check_witness:
  "\<exists>p' b'. p04_protect 1 (\<lparr>p04p_config = sample_p04, p04p_counter = 7\<rparr>, replicate 16 0) = Ok (p', b')
    \<and> p04_check b' 1 (True, sample_checker) = Ok (E2E_ERROR, True, sample_checker\<lparr>p04c_counter := 7\<rparr>)
    \<and> p04_check b' 1 (False, sample_checker) = Ok (E2E_OK, True, sample_checker\<lparr>p04c_counter := 7\<rparr>)"
proof -
  have fits: "p04_fits sample_p04 1 (length (replicate 16 (0 :: byte)))" by (rule sample_p04_fits) simp
  have k: "p04c_config sample_checker = sample_p04" "p04c_counter sample_checker = 3" by (simp_all add: sample_checker_def)
  have "\<not> 4 \<le> p04_max_delta_counter sample_p04" by (simp add: sample_p04_def new_p04_config_def)
  then show ?thesis
    using p04_counter_check [OF fits _ _ k(1), of "\<lparr>p04p_config = sample_p04, p04p_counter = 7\<rparr>" 7 True]
      p04_counter_check [OF fits _ _ k(1), of "\<lparr>p04p_config = sample_p04, p04p_counter = 7\<rparr>" 7 False] k(2)
    by auto
qed

text \<open>
  [C9] On a link that does not change messages, a stream of messages of any length that a protector
  sends is accepted completely by a checker with the same configuration, for each of the three profiles:
  for profile 1 whatever the state of the counter, for profile 4 when the checker has seen the
  message before the first one (a new protector and a new checker are in this relation), whether or
  not another checker has been used before.
\<close>

theorem e2e_stream_accepted:
  assumes "\<forall>b \<in> set bs. length b = n"
  shows "(p01_fits (p01p_config p1) n \<longrightarrow>
      transmit p01_protect p01_check i bs p1 (p01p_config p1) = Ok (replicate (length bs) E2E_OK))
    \<and> (unat (pc_crc_offset c) + 4 \<le> n \<longrightarrow>
      transmit pc_protect pc_check i bs c c = Ok (replicate (length bs) E2E_OK))
    \<and> (p04_fits c4 i n \<longrightarrow>
      transmit p04_protect p04_check i bs (new_p04_protector c4) (has_counter, new_p04_checker c4)
        = Ok (replicate (length bs) E2E_OK))"
proof (intro conjI impI)
  assume "p01_fits (p01p_config p1) n"
  then show "transmit p01_protect p01_check i bs p1 (p01p_config p1) = Ok (replicate (length bs) E2E_OK)"
    by (intro p01.transmit_accepted [OF _ assms]) (simp add: p01_ready_def)
next
  assume "unat (pc_crc_offset c) + 4 \<le> n"
  then show "transmit pc_protect pc_check i bs c c = Ok (replicate (length bs) E2E_OK)"
    by (intro pc.transmit_accepted [OF _ assms]) (simp add: pc_ready_def)
next
  assume "p04_fits c4 i n"
  then show "transmit p04_protect p04_check i bs (new_p04_protector c4) (has_counter, new_p04_checker c4)
      = Ok (replicate (length bs) E2E_OK)"
    by (intro p04.transmit_accepted [OF _ assms]) (simp add: p04_ready_def new_p04_protector_def new_p04_checker_def)
qed

theorem e2e_stream_accepted_witness:
  "transmit p01_protect p01_check 1 (replicate 20 [0, 0, 1, 2, 3]) (sample_p01 E2E_P01_DATAID_BOTH)
      (p01p_config (sample_p01 E2E_P01_DATAID_BOTH)) = Ok (replicate 20 E2E_OK)
   \<and> transmit pc_protect pc_check 1 (replicate 20 [0, 0, 1, 2, 3]) (new_pc_config 1) (new_pc_config 1)
      = Ok (replicate 20 E2E_OK)
   \<and> transmit p04_protect p04_check 1 (replicate 20 (replicate 16 0)) (new_p04_protector sample_p04)
      (False, new_p04_checker sample_p04) = Ok (replicate 20 E2E_OK)"
proof -
  let ?bs = "replicate 20 [0, 0, 1, 2, 3 :: byte]"
  have bs: "\<forall>b \<in> set ?bs. length b = 5" by simp
  have fits: "p01_fits (p01p_config (sample_p01 E2E_P01_DATAID_BOTH)) 5"
    using sample_p01_fits [of "replicate 5 0"] by simp
  have pc: "unat (pc_crc_offset (new_pc_config 1)) + 4 \<le> 5" by (simp add: new_pc_config_def)
  let ?cs = "replicate 20 (replicate 16 (0 :: byte))"
  have cs: "\<forall>b \<in> set ?cs. length b = 16" by simp
  have fits4: "p04_fits sample_p04 1 16" using sample_p04_fits [of "replicate 16 0"] by simp
  show ?thesis
    using e2e_stream_accepted [OF bs] e2e_stream_accepted [OF cs] fits pc fits4 unfolding length_replicate by blast
qed

text \<open>
  [C8] Every change of a protected byte is reported as a wrong checksum, and the checker is as it was
  before: for profile 4 any byte of the message, for profile 1 any byte up to the checksum and, unless
  the configured data length ends there, any byte behind it, for the custom profile any byte from the
  checksum on.
\<close>

theorem e2e_corruption_detected:
  assumes "k < length b"
  shows "(p01_fits (p01p_config p1) (length b) \<and> p01_protect i (p1, b) = Ok (p1', b1) \<and> v \<noteq> b1 ! k
        \<and> (k \<le> unat (p01_crc_offset (p01p_config p1)) \<or> p01_behind_covered (p01p_config p1)) \<longrightarrow>
      p01_check (b1[k := v]) i (p01p_config p1) = Ok (E2E_WRONG_CRC, p01p_config p1))
    \<and> (unat (pc_crc_offset c) + 4 \<le> length b \<and> pc_protect i (c, b) = Ok (c', b2) \<and> v \<noteq> b2 ! k
        \<and> unat (pc_crc_offset c) \<le> k \<longrightarrow> pc_check (b2[k := v]) i c = Ok (E2E_WRONG_CRC, c))
    \<and> (p04_ready p4 (has_counter, ck) i (length b) \<and> p04_protect i (p4, b) = Ok (p4', b4) \<and> v \<noteq> b4 ! k \<longrightarrow>
      p04_check (b4[k := v]) i (has_counter, ck) = Ok (E2E_WRONG_CRC, has_counter, ck))"
proof (intro conjI impI; elim conjE)
  assume "p01_fits (p01p_config p1) (length b)" "p01_protect i (p1, b) = Ok (p1', b1)" "v \<noteq> b1 ! k"
    "k \<le> unat (p01_crc_offset (p01p_config p1)) \<or> p01_behind_covered (p01p_config p1)"
  then show "p01_check (b1[k := v]) i (p01p_config p1) = Ok (E2E_WRONG_CRC, p01p_config p1)"
    by (intro p01.detected [OF _ _ _ assms]) (simp_all add: p01_ready_def p01_covers_def)
next
  assume "unat (pc_crc_offset c) + 4 \<le> length b" "pc_protect i (c, b) = Ok (c', b2)" "v \<noteq> b2 ! k"
    "unat (pc_crc_offset c) \<le> k"
  then show "pc_check (b2[k := v]) i c = Ok (E2E_WRONG_CRC, c)"
    by (intro pc.detected [OF _ _ _ assms]) (simp_all add: pc_ready_def pc_covers_def)
next
  assume "p04_ready p4 (has_counter, ck) i (length b)" "p04_protect i (p4, b) = Ok (p4', b4)" "v \<noteq> b4 ! k"
  then show "p04_check (b4[k := v]) i (has_counter, ck) = Ok (E2E_WRONG_CRC, has_counter, ck)"
    by (intro p04.detected [OF _ _ _ assms]) (simp_all add: p04_covers_def)
qed

theorem e2e_corruption_detected_witness:
  "\<exists>p' b'. pc_protect 1 (new_pc_config 1, [7, 0, 0, 0, 0, 1, 2]) = Ok (p', b')
     \<and> pc_check (b'[6 := b' ! 6 + 1]) 1 (new_pc_config 1) = Ok (E2E_WRONG_CRC, new_pc_config 1)"
proof -
  let ?b = "[7, 0, 0, 0, 0, 1, 2 :: byte]"
  have len: "6 < length ?b" "unat (pc_crc_offset (new_pc_config 1)) + 4 \<le> length ?b"
    "unat (pc_crc_offset (new_pc_config 1)) \<le> 6" by (simp_all add: new_pc_config_def)
  then obtain b' where "pc_protect 1 (new_pc_config 1, ?b) = Ok (new_pc_config 1, b')"
    using pc_protect_Ok by blast
  then show ?thesis
    using e2e_corruption_detected [OF len(1), where i = 1 and v = "b' ! 6 + 1" and c = "new_pc_config 1" and ?b2.0 = b'
        and c' = "new_pc_config 1"] len by auto
qed

lemma p04_write_cases:
  obtains "p04_write_16 c w j b = Undefined" | b' where "p04_write_16 c w j b = Ok b'" "length b' = length b"
  by (cases "p04_offset c + j + 1 < length b") (auto simp: p04_write_16_def buf_put_def split: if_splits)

lemma p04_write_32_cases:
  obtains "p04_write_32 c w j b = Undefined" | b' where "p04_write_32 c w j b = Ok b'" "length b' = length b"
  by (cases "p04_offset c + j + 3 < length b") (auto simp: p04_write_32_def buf_put_def split: if_splits)

lemma p04_no_room: "length b < p04_offset c + 12 \<Longrightarrow> p04_write_32 c w 8 b = Undefined"
  by (auto simp: p04_write_32_def buf_put_def)

lemma p04_compute_crc_total: "p04_compute_crc c b \<noteq> Refused"
  by (auto simp: p04_compute_crc_def Let_def buffer_view_def)

text \<open>
  [C32] Profile 4 checks only the configured minimum and maximum length. Protecting a buffer has
  undefined behaviour exactly when these admit a buffer that has no room for the twelve bytes at
  the configured offset; the default minimum is zero.
\<close>

theorem p04_protect_undefined:
  "p04_protect i (p, b) = Undefined \<longleftrightarrow>
     i \<le> 0xFF \<and> p04_verify_inputs (p04p_config p) b \<and> length b < p04_offset (p04p_config p) + 12"
proof (cases "i \<le> 0xFF \<and> p04_verify_inputs (p04p_config p) b")
  case True
  let ?c = "p04p_config p"
  show ?thesis
  proof (cases "length b < p04_offset ?c + 12")
    case short: True
    have ok: "\<not> VSOMEIP_E2E_PROFILE04_MAX_INSTANCE < i"
      using True by (simp add: VSOMEIP_E2E_PROFILE04_MAX_INSTANCE_def leD)
    consider "p04_write_16 ?c (of_nat (length b)) 0 b = Undefined"
      | b1 where "p04_write_16 ?c (of_nat (length b)) 0 b = Ok b1" "p04_write_16 ?c (p04p_counter p) 2 b1 = Undefined"
      | b1 b2 where "p04_write_16 ?c (of_nat (length b)) 0 b = Ok b1" "p04_write_16 ?c (p04p_counter p) 2 b1 = Ok b2"
          "length b2 = length b"
      by (metis p04_write_cases)
    then have "p04_protect i (p, b) = Undefined"
    proof cases
      case (3 b1 b2)
      show ?thesis
      proof (rule p04_write_32_cases [of ?c "its_data_id ?c i" 4 b2])
        fix b3 assume "p04_write_32 ?c (its_data_id ?c i) 4 b2 = Ok b3" "length b3 = length b2"
        then show ?thesis using 3 True ok short p04_no_room [of b3 ?c] p04_compute_crc_total [of ?c b3]
          by (cases "p04_compute_crc ?c b3") (simp_all add: p04_protect_def Let_def)
      qed (use 3 True ok in \<open>simp add: p04_protect_def Let_def\<close>)
    qed (use True ok in \<open>simp_all add: p04_protect_def Let_def\<close>)
    then show ?thesis using True short by simp
  qed (use True p04_protect_Ok [of i p b] in simp)
qed (auto simp: p04_protect_def Let_def VSOMEIP_E2E_PROFILE04_MAX_INSTANCE_def)

end
