(* ===== verification/E2e_Provider.thy ===== *)
theory E2e_Provider
  imports E2e_Profile04 Message
begin

text \<open>
  The provider of the end-to-end protection (\<open>e2e_provider_impl\<close>): it reads configurations, keeps a
  protector, a checker and the start of the protected area for every data identifier (service and
  event), and dispatches to them. The second half models how the routing manager uses it: it protects
  the messages it sends and checks those it receives.
\<close>

section \<open>Configuration values\<close>

record cfg_e2e =
  e2e_variant :: string
  e2e_profile :: string
  e2e_service_id :: u16
  e2e_event_id :: u16
  e2e_custom_parameters :: "(string \<times> string) list"

text \<open>
  Extraction of an unsigned number of \<open>w\<close> bits from a string stream: leading white space is skipped; when
  nothing is left the target stays as it is, and it was not initialised. Otherwise an optional sign, in
  base 16 an optional prefix, and the longest sequence of digits are read. No digits give zero, too
  large a number the largest one, and a minus sign negates modulo \<open>2 ^ w\<close>.
\<close>

definition digit_of :: "char \<Rightarrow> nat option" where
  "digit_of c =
     (let n = of_char c :: nat in
      if 48 \<le> n \<and> n \<le> 57 then Some (n - 48)
      else if 97 \<le> n \<and> n \<le> 102 then Some (n - 87)
      else if 65 \<le> n \<and> n \<le> 70 then Some (n - 55)
      else None)"

definition is_digit :: "nat \<Rightarrow> char \<Rightarrow> bool" where
  "is_digit base c \<longleftrightarrow> (case digit_of c of Some d \<Rightarrow> d < base | None \<Rightarrow> False)"

definition is_space :: "char \<Rightarrow> bool" where
  "is_space c \<longleftrightarrow> (let n = of_char c :: nat in n = 32 \<or> 9 \<le> n \<and> n \<le> 13)"

definition digits_value :: "nat \<Rightarrow> string \<Rightarrow> nat" where
  "digits_value base ds = foldl (\<lambda>v c. v * base + (case digit_of c of Some d \<Rightarrow> d | None \<Rightarrow> 0)) 0 ds"

definition strip_prefix :: "nat \<Rightarrow> string \<Rightarrow> string" where
  "strip_prefix base s =
     (if base = 16 \<and> (take 2 s = ''0x'' \<or> take 2 s = ''0X'') then drop 2 s else s)"

definition extract_unsigned :: "nat \<Rightarrow> nat \<Rightarrow> string \<Rightarrow> nat result" where
  "extract_unsigned base w s =
     (let s1 = dropWhile is_space s in
      if s1 = [] then Undefined
      else
        let negative = (hd s1 = CHR ''-'');
            s2 = (if hd s1 = CHR ''-'' \<or> hd s1 = CHR ''+'' then tl s1 else s1);
            v = digits_value base (takeWhile (is_digit base) (strip_prefix base s2))
        in Ok (if v \<ge> 2 ^ w then 2 ^ w - 1 else if negative then (2 ^ w - v) mod 2 ^ w else v))"

definition read_value_from_config :: "cfg_e2e \<Rightarrow> nat \<Rightarrow> string \<Rightarrow> nat \<Rightarrow> nat result" where
  "read_value_from_config config w name default_value =
     (case map_of (e2e_custom_parameters config) name of
        Some its_value \<Rightarrow>
          if length its_value > 1 \<and> its_value ! 0 = CHR ''0'' \<and> its_value ! 1 = CHR ''x''
          then extract_unsigned 16 w its_value else extract_unsigned 10 w its_value
      | None \<Rightarrow> Ok default_value)"

definition make_p01_config :: "cfg_e2e \<Rightarrow> p01_config result" where
  "make_p01_config config =
     bind_r (read_value_from_config config 16 ''data_id'' 0) (\<lambda>data_id.
     bind_r (read_value_from_config config 16 ''crc_offset'' 0) (\<lambda>crc_offset.
     bind_r (read_value_from_config config 16 ''data_length'' 0) (\<lambda>data_length.
     bind_r (read_value_from_config config 16 ''counter_offset'' 8) (\<lambda>counter_offset.
     bind_r (read_value_from_config config 16 ''data_id_nibble_offset'' 12) (\<lambda>data_id_nibble_offset.
     bind_r (read_value_from_config config 16 ''data_id_mode'' 0) (\<lambda>data_id_mode.
     Ok (new_p01_config (of_nat crc_offset) (of_nat data_id) (of_nat data_id_mode) (of_nat data_length)
           (of_nat counter_offset) (of_nat data_id_nibble_offset))))))))"

definition make_p04_config :: "cfg_e2e \<Rightarrow> p04_config result" where
  "make_p04_config config =
     bind_r (read_value_from_config config 32 ''data_id'' 0) (\<lambda>data_id.
     bind_r (read_value_from_config config 64 ''crc_offset'' 0) (\<lambda>offset.
     bind_r (read_value_from_config config 64 ''min_data_length'' 0) (\<lambda>min_data_length.
     bind_r (read_value_from_config config 64 ''max_data_length'' 0xFFFF) (\<lambda>max_data_length.
     bind_r (read_value_from_config config 16 ''max_delta_counter'' 0xFFFF) (\<lambda>max_delta_counter.
     Ok (new_p04_config (of_nat data_id) (offset div 8) min_data_length max_data_length
           (of_nat max_delta_counter)))))))"

definition make_pc_config :: "cfg_e2e \<Rightarrow> pc_config result" where
  "make_pc_config config =
     bind_r (read_value_from_config config 16 ''crc_offset'' 0) (\<lambda>crc_offset.
     Ok (new_pc_config (of_nat crc_offset)))"

section \<open>The provider\<close>

datatype e2e_protector = P01_protector p01_protector | Pc_protector pc_config | P04_protector p04_protector

datatype e2e_checker = P01_checker p01_config | Pc_checker pc_config | P04_checker p04_checker

type_synonym data_identifier = "u16 \<times> u16"

text \<open>\<open>has_counter\<close> is the static variable of the profile 4 checkers.\<close>

record e2e_provider =
  custom_protectors :: "data_identifier \<rightharpoonup> e2e_protector"
  custom_checkers :: "data_identifier \<rightharpoonup> e2e_checker"
  custom_bases :: "data_identifier \<rightharpoonup> nat"
  has_counter :: bool

definition new_e2e_provider :: e2e_provider where
  "new_e2e_provider =
     \<lparr>custom_protectors = Map.empty, custom_checkers = Map.empty, custom_bases = Map.empty, has_counter = False\<rparr>"

text \<open>\<open>process_e2e_profile\<close>, with the checker and the protector it would create.\<close>

definition process_e2e_profile ::
  "cfg_e2e \<Rightarrow> nat \<Rightarrow> e2e_checker \<Rightarrow> e2e_protector \<Rightarrow> e2e_provider \<Rightarrow> e2e_provider" where
  "process_e2e_profile config base checker protector s =
     (let data_identifier = (e2e_service_id config, e2e_event_id config);
          s1 = (if e2e_variant config = ''checker'' \<or> e2e_variant config = ''both''
                then s\<lparr>custom_checkers := (custom_checkers s)(data_identifier \<mapsto> checker)\<rparr> else s);
          s2 = (if e2e_variant config = ''protector'' \<or> e2e_variant config = ''both''
                then s1\<lparr>custom_protectors := (custom_protectors s1)(data_identifier \<mapsto> protector)\<rparr> else s1)
      in s2\<lparr>custom_bases := (custom_bases s2)(data_identifier \<mapsto> base)\<rparr>)"

definition add_configuration :: "cfg_e2e \<Rightarrow> e2e_provider \<Rightarrow> (bool \<times> e2e_provider) result" where
  "add_configuration config s =
     (if e2e_profile config = ''CRC8'' \<or> e2e_profile config = ''P01''
      then bind_r (make_p01_config config) (\<lambda>c.
             Ok (True, process_e2e_profile config (p01_base c) (P01_checker c)
               (P01_protector \<lparr>p01p_config = c, p01p_counter = 0\<rparr>) s))
      else if e2e_profile config = ''CRC32'' \<or> e2e_profile config = ''CSTM''
      then bind_r (make_pc_config config) (\<lambda>c.
             Ok (True, process_e2e_profile config (pc_base c) (Pc_checker c) (Pc_protector c) s))
      else if e2e_profile config = ''P04''
      then bind_r (make_p04_config config) (\<lambda>c.
             Ok (True, process_e2e_profile config (p04_base c) (P04_checker (new_p04_checker c))
               (P04_protector (new_p04_protector c)) s))
      else Ok (False, s))"

definition is_protected :: "data_identifier \<Rightarrow> e2e_provider \<Rightarrow> bool" where
  "is_protected k s \<longleftrightarrow> custom_protectors s k \<noteq> None"

definition is_checked :: "data_identifier \<Rightarrow> e2e_provider \<Rightarrow> bool" where
  "is_checked k s \<longleftrightarrow> custom_checkers s k \<noteq> None"

definition get_protection_base :: "data_identifier \<Rightarrow> e2e_provider \<Rightarrow> nat" where
  "get_protection_base k s = (case custom_bases s k of Some base \<Rightarrow> base | None \<Rightarrow> 0)"

fun protector_protect :: "u16 \<Rightarrow> e2e_protector \<times> bytes \<Rightarrow> (e2e_protector \<times> bytes) result" where
  "protector_protect i (P01_protector p, b) = bind_r (p01_protect i (p, b)) (\<lambda>(p', b'). Ok (P01_protector p', b'))"
| "protector_protect i (Pc_protector p, b) = bind_r (pc_protect i (p, b)) (\<lambda>(p', b'). Ok (Pc_protector p', b'))"
| "protector_protect i (P04_protector p, b) = bind_r (p04_protect i (p, b)) (\<lambda>(p', b'). Ok (P04_protector p', b'))"

fun checker_check :: "bytes \<Rightarrow> u16 \<Rightarrow> bool \<times> e2e_checker \<Rightarrow> (check_status \<times> bool \<times> e2e_checker) result" where
  "checker_check b i (h, P01_checker c) = bind_r (p01_check b i c) (\<lambda>(st, c'). Ok (st, h, P01_checker c'))"
| "checker_check b i (h, Pc_checker c) = bind_r (pc_check b i c) (\<lambda>(st, c'). Ok (st, h, Pc_checker c'))"
| "checker_check b i (h, P04_checker c) = bind_r (p04_check b i (h, c)) (\<lambda>(st, h', c'). Ok (st, h', P04_checker c'))"

definition e2e_protect :: "data_identifier \<Rightarrow> bytes \<Rightarrow> u16 \<Rightarrow> e2e_provider \<Rightarrow> (bytes \<times> e2e_provider) result" where
  "e2e_protect k buffer instance_id s =
     (case custom_protectors s k of
        Some protector \<Rightarrow> bind_r (protector_protect instance_id (protector, buffer)) (\<lambda>(protector', b).
          Ok (b, s\<lparr>custom_protectors := (custom_protectors s)(k \<mapsto> protector')\<rparr>))
      | None \<Rightarrow> Ok (buffer, s))"

text \<open>The status is a reference parameter that stays as it is when there is no checker.\<close>

definition e2e_check ::
  "data_identifier \<Rightarrow> bytes \<Rightarrow> u16 \<Rightarrow> check_status \<Rightarrow> e2e_provider \<Rightarrow> (check_status \<times> e2e_provider) result" where
  "e2e_check k buffer instance_id status s =
     (case custom_checkers s k of
        Some checker \<Rightarrow> bind_r (checker_check buffer instance_id (has_counter s, checker)) (\<lambda>(status', h, checker').
          Ok (status', s\<lparr>custom_checkers := (custom_checkers s)(k \<mapsto> checker'), has_counter := h\<rparr>))
      | None \<Rightarrow> Ok (status, s))"

section \<open>The routing manager\<close>

definition VSOMEIP_CLIENT_POS_MIN :: nat where "VSOMEIP_CLIENT_POS_MIN = 8"
definition VSOMEIP_CLIENT_POS_MAX :: nat where "VSOMEIP_CLIENT_POS_MAX = 9"

definition message_data_identifier :: "bytes \<Rightarrow> data_identifier" where
  "message_data_identifier data = (BYTES_TO_WORD (data ! 0) (data ! 1), BYTES_TO_WORD (data ! 2) (data ! 3))"

definition sd_service :: u16 where "sd_service = 0xFFFF"
definition sd_method :: u16 where "sd_method = 0x8100"

definition is_service_discovery :: "data_identifier \<Rightarrow> bool" where
  "is_service_discovery = (\<lambda>(its_service, its_method). its_service = sd_service \<and> its_method = sd_method)"

text \<open>
  The provider is \<open>None\<close> when end-to-end protection is not enabled or its plugin could not be loaded. The
  code is that of platforms other than Android. \<open>protect_data\<close> is what \<open>send\<close> and \<open>send_to\<close> do with the bytes
  of a message when there is a provider; a message without identifiers or shorter than the front that is
  not protected is read beyond its end.
\<close>

definition protect_data :: "bytes \<Rightarrow> u16 \<Rightarrow> e2e_provider \<Rightarrow> (bytes \<times> e2e_provider) result" where
  "protect_data data instance_id s =
     (if length data < 4 then Undefined
      else let k = message_data_identifier data in
        if is_protected k s
        then let its_base = get_protection_base k s in
          if its_base \<le> length data
          then bind_r (e2e_protect k (drop its_base data) instance_id s) (\<lambda>(its_buffer, s').
                 Ok (take its_base data @ its_buffer, s'))
          else Undefined
        else Ok (data, s))"

text \<open>\<open>send\<close>, where it is about to pass the bytes of a message to a remote target: messages of service
  discovery are not protected.\<close>

definition protect_message :: "bytes \<Rightarrow> u16 \<Rightarrow> e2e_provider option \<Rightarrow> (bytes \<times> e2e_provider option) result" where
  "protect_message data instance_id provider =
     (if length data < 4 then Undefined
      else case provider of
        None \<Rightarrow> Ok (data, None)
      | Some s \<Rightarrow>
          if \<not> is_service_discovery (message_data_identifier data)
          then bind_r (protect_data data instance_id s) (\<lambda>(its_data, s'). Ok (its_data, Some s'))
          else Ok (data, Some s))"

text \<open>\<open>send_to\<close> of a message to one target, up to the call that passes the bytes to an endpoint.\<close>

definition send_to ::
  "u16 \<Rightarrow> message \<Rightarrow> serializer \<Rightarrow> e2e_provider option \<Rightarrow> (bytes \<times> e2e_provider option) result" where
  "send_to client m its_serializer provider =
     (case serialize_message m its_serializer of
        (True, ser) \<Rightarrow>
          bind_r (case provider of
                    None \<Rightarrow> Ok (ser_data ser, None)
                  | Some s \<Rightarrow> bind_r (protect_data (ser_data ser) (h_instance (m_header m)) s) (\<lambda>(d, s'). Ok (d, Some s')))
            (\<lambda>(its_data, provider').
          bind_r (buf_put VSOMEIP_CLIENT_POS_MIN (WORD_BYTE1 client) its_data) (\<lambda>d1.
          bind_r (buf_put VSOMEIP_CLIENT_POS_MAX (WORD_BYTE0 client) d1) (\<lambda>d2.
          Ok (d2, provider'))))
      | (False, _) \<Rightarrow> Refused)"

text \<open>What \<open>on_message\<close> does with the bytes it has received, unless their service is that of service
  discovery; the status starts as \<open>E2E_OK\<close>.\<close>

definition check_message :: "bytes \<Rightarrow> u16 \<Rightarrow> e2e_provider option \<Rightarrow> (check_status \<times> e2e_provider option) result" where
  "check_message data instance_id provider =
     (case provider of
        None \<Rightarrow> Ok (E2E_OK, None)
      | Some s \<Rightarrow>
          if length data < 4 then Undefined
          else let k = message_data_identifier data in
            if is_checked k s
            then let its_base = get_protection_base k s in
              if its_base \<le> length data
              then bind_r (e2e_check k (drop its_base data) instance_id E2E_OK s) (\<lambda>(status, s'). Ok (status, Some s'))
              else Undefined
            else Ok (E2E_OK, Some s))"

section \<open>A configured pair\<close>

text \<open>The messages a protector can protect, by its profile.\<close>

fun link_fits :: "e2e_protector \<Rightarrow> u16 \<Rightarrow> nat \<Rightarrow> bool" where
  "link_fits (P01_protector p) i n \<longleftrightarrow> p01_fits (p01p_config p) n"
| "link_fits (Pc_protector c) i n \<longleftrightarrow> unat (pc_crc_offset c) + 4 \<le> n"
| "link_fits (P04_protector p) i n \<longleftrightarrow> p04_fits (p04p_config p) i n"

text \<open>A protector and a checker as one configuration makes them.\<close>

inductive made_for :: "e2e_protector \<Rightarrow> e2e_checker \<Rightarrow> nat \<Rightarrow> bool" where
  "made_for (P01_protector \<lparr>p01p_config = c, p01p_counter = 0\<rparr>) (P01_checker c) 16"
| "made_for (Pc_protector c1) (Pc_checker c1) 16"
| "made_for (P04_protector (new_p04_protector c2)) (P04_checker (new_p04_checker c2)) 8"

lemma add_configuration_makes:
  assumes "add_configuration config s0 = Ok (True, s)" "e2e_variant config = ''both''"
  obtains p c base where "made_for p c base" "custom_protectors s (e2e_service_id config, e2e_event_id config) = Some p"
    "custom_checkers s (e2e_service_id config, e2e_event_id config) = Some c"
    "custom_bases s (e2e_service_id config, e2e_event_id config) = Some base"
    "\<And>r0 r. add_configuration config r0 = Ok (True, r) \<Longrightarrow>
       custom_checkers r (e2e_service_id config, e2e_event_id config) = Some c
       \<and> custom_bases r (e2e_service_id config, e2e_event_id config) = Some base"
proof -
  have base: "make_p01_config config = Ok c1 \<Longrightarrow> p01_base c1 = 16" "make_pc_config config = Ok c2 \<Longrightarrow> pc_base c2 = 16"
    "make_p04_config config = Ok c3 \<Longrightarrow> p04_base c3 = 8" for c1 c2 c3
    by (auto simp: make_p01_config_def make_pc_config_def make_p04_config_def bind_r_Ok_iff
        new_p01_config_def new_pc_config_def new_p04_config_def)
  have step: "process_e2e_profile config b k p r0 = r \<Longrightarrow>
      custom_protectors r (e2e_service_id config, e2e_event_id config) = Some p
      \<and> custom_checkers r (e2e_service_id config, e2e_event_id config) = Some k
      \<and> custom_bases r (e2e_service_id config, e2e_event_id config) = Some b" for b k p r0 r
    using assms(2) by (auto simp: process_e2e_profile_def Let_def)
  consider (p01) c where "e2e_profile config = ''CRC8'' \<or> e2e_profile config = ''P01''" "make_p01_config config = Ok c"
    | (pc) c where "\<not> (e2e_profile config = ''CRC8'' \<or> e2e_profile config = ''P01'')"
        "e2e_profile config = ''CRC32'' \<or> e2e_profile config = ''CSTM''" "make_pc_config config = Ok c"
    | (p04) c where "e2e_profile config = ''P04''" "make_p04_config config = Ok c"
    using assms(1) by (auto simp: add_configuration_def bind_r_Ok_iff split: if_splits)
  then show thesis
  proof cases
    case p01
    then show thesis using assms(1) base(1) step by (intro that [OF made_for.intros(1) [of c]])
        (auto simp: add_configuration_def)
  next
    case pc
    then show thesis using assms(1) base(2) step by (intro that [OF made_for.intros(2) [of c]])
        (auto simp: add_configuration_def)
  next
    case p04
    then show thesis using assms(1) base(3) step by (intro that [OF made_for.intros(3) [of c]])
        (auto simp: add_configuration_def)
  qed
qed

lemma made_for_accepts:
  assumes "made_for p c base" "link_fits p i (length b)"
  obtains p' b' h' c' where "protector_protect i (p, b) = Ok (p', b')" "length b' = length b"
    "checker_check b' i (h, c) = Ok (E2E_OK, h', c')" "8 \<le> base"
  using assms
proof cases
  case (1 c1)
  then have "p01_ready \<lparr>p01p_config = c1, p01p_counter = 0\<rparr> c1 i (length b)" using assms(2) by (simp add: p01_ready_def)
  from p01.accepted [OF this] show ?thesis using that 1 by auto
next
  case (2 c1)
  then have "pc_ready c1 c1 i (length b)" using assms(2) by (simp add: pc_ready_def)
  from pc.accepted [OF this] show ?thesis using that 2 by auto
next
  case (3 c1)
  then have "p04_ready (new_p04_protector c1) (h, new_p04_checker c1) i (length b)"
    using assms(2) by (simp add: p04_ready_def new_p04_protector_def new_p04_checker_def)
  from p04.accepted [OF this] show ?thesis using that 3 by auto
qed

lemma message_data_identifier_take:
  "8 \<le> n \<Longrightarrow> n \<le> length data \<Longrightarrow> message_data_identifier (take n data @ b) = message_data_identifier data"
  by (simp add: message_data_identifier_def nth_append)

text \<open>
  [C15] Sender and receiver that read the same configuration understand each other: when a configuration
  of variant \<open>both\<close> is accepted by both, whatever else they have been configured with, a message of
  its service and event that \<open>send\<close> protects keeps its length and its unprotected front, and the
  receiver finds it correct. The message has at least a full header and fits what the profile is
  configured for, and its service is not that of service discovery, whose messages \<open>send\<close> does not
  protect and \<open>on_message\<close> does not check.
\<close>

theorem configured_pair_agrees:
  assumes "add_configuration config s0 = Ok (True, s)" "add_configuration config r0 = Ok (True, r)"
    and "e2e_variant config = ''both''"
    and "message_data_identifier data = (e2e_service_id config, e2e_event_id config)"
    and "custom_protectors s (message_data_identifier data) = Some p"
    and "16 \<le> length data" "link_fits p i (length data - get_protection_base (message_data_identifier data) s)"
    and "e2e_service_id config \<noteq> sd_service"
  shows "\<exists>data' s' r'. protect_message data i (Some s) = Ok (data', Some s') \<and> length data' = length data
    \<and> take (get_protection_base (message_data_identifier data) s) data'
      = take (get_protection_base (message_data_identifier data) s) data
    \<and> check_message data' i (Some r) = Ok (E2E_OK, Some r')"
proof -
  let ?k = "(e2e_service_id config, e2e_event_id config)"
  from add_configuration_makes [OF assms(1,3)] obtain p2 c base where
    made: "made_for p2 c base" and "custom_protectors s ?k = Some p2" and sb: "custom_bases s ?k = Some base"
    and "custom_checkers r ?k = Some c \<and> custom_bases r ?k = Some base" using assms(2) by metis
  then have p: "custom_protectors s ?k = Some p" "made_for p c base"
    and rc: "custom_checkers r ?k = Some c" "custom_bases r ?k = Some base" using assms(4,5) by auto
  have base: "get_protection_base ?k s = base" "get_protection_base ?k r = base"
    using sb rc by (simp_all add: get_protection_base_def)
  have "base = 8 \<or> base = 16" using p(2) by cases simp_all
  then have b16: "8 \<le> base" "base \<le> length data" using assms(6) by auto
  have "link_fits p i (length (drop base data))" using assms(7) base(1) assms(4) by simp
  from made_for_accepts [OF p(2) this] obtain p' b' h' c' where
    b: "protector_protect i (p, drop base data) = Ok (p', b')" "length b' = length (drop base data)"
    "checker_check b' i (has_counter r, c) = Ok (E2E_OK, h', c')" by metis
  have "protect_message data i (Some s) = Ok (take base data @ b', Some (s\<lparr>custom_protectors := (custom_protectors s)(?k \<mapsto> p')\<rparr>))"
    using p(1) b(1) base b16 assms(4,6,8)
    by (simp add: protect_message_def protect_data_def is_service_discovery_def is_protected_def e2e_protect_def Let_def)
  moreover have "check_message (take base data @ b') i (Some r)
      = Ok (E2E_OK, Some (r\<lparr>custom_checkers := (custom_checkers r)(?k \<mapsto> c'), has_counter := h'\<rparr>))"
    using rc(1) b(3) base b16 assms(4) b(2) message_data_identifier_take [OF b16, of b']
    by (simp add: check_message_def is_checked_def e2e_check_def Let_def)
  ultimately show ?thesis using b(2) b16 base assms(4) by simp
qed

definition sample_cfg :: cfg_e2e where
  "sample_cfg = \<lparr>e2e_variant = ''both'', e2e_profile = ''P04'', e2e_service_id = 0x1234, e2e_event_id = 0x8001,
     e2e_custom_parameters = [(''data_id'', ''0x1F''), (''crc_offset'', ''64'')]\<rparr>"

definition sample_event :: bytes where
  "sample_event = [0x12, 0x34, 0x80, 0x01, 0, 0, 0, 28, 0, 0, 0, 1, 1, 1, 2, 0] @ replicate 20 7"

lemma sample_cfg_values:
  "make_p04_config sample_cfg = Ok (new_p04_config 31 8 0 0xFFFF 0xFFFF)"
  by (simp add: make_p04_config_def read_value_from_config_def sample_cfg_def extract_unsigned_def is_space_def
      is_digit_def digit_of_def digits_value_def strip_prefix_def)

lemma sample_cfg_added:
  "add_configuration sample_cfg s0 = Ok (True, process_e2e_profile sample_cfg 8
     (P04_checker (new_p04_checker (new_p04_config 31 8 0 0xFFFF 0xFFFF)))
     (P04_protector (new_p04_protector (new_p04_config 31 8 0 0xFFFF 0xFFFF))) s0)"
proof -
  have "e2e_profile sample_cfg = ''P04''" by (simp add: sample_cfg_def)
  then show ?thesis using sample_cfg_values by (simp add: add_configuration_def new_p04_config_def)
qed

theorem configured_pair_agrees_witness:
  "\<exists>s r data' s' r'. add_configuration sample_cfg new_e2e_provider = Ok (True, s)
    \<and> protect_message sample_event 1 (Some s) = Ok (data', s') \<and> length data' = 36
    \<and> check_message data' 1 (Some s) = Ok (E2E_OK, r')"
proof -
  let ?c = "new_p04_config 31 8 0 0xFFFF 0xFFFF"
  let ?s = "process_e2e_profile sample_cfg 8 (P04_checker (new_p04_checker ?c)) (P04_protector (new_p04_protector ?c))
    new_e2e_provider"
  have both: "e2e_variant sample_cfg = ''both''" by (simp add: sample_cfg_def)
  have k: "message_data_identifier sample_event = (e2e_service_id sample_cfg, e2e_event_id sample_cfg)"
    by (simp add: message_data_identifier_def sample_event_def sample_cfg_def BYTES_TO_WORD_def)
  have p: "custom_protectors ?s (message_data_identifier sample_event) = Some (P04_protector (new_p04_protector ?c))"
    "get_protection_base (message_data_identifier sample_event) ?s = 8"
    using both by (simp_all add: k process_e2e_profile_def get_protection_base_def Let_def)
  have len: "16 \<le> length sample_event" "length sample_event = 36" by (simp_all add: sample_event_def)
  have "p04_fits ?c 1 28" by (simp add: p04_fits_def new_p04_config_def)
  then have "link_fits (P04_protector (new_p04_protector ?c)) 1
      (length sample_event - get_protection_base (message_data_identifier sample_event) ?s)"
    unfolding p(2) len(2) by (simp add: new_p04_protector_def)
  note fits = this
  have sd: "e2e_service_id sample_cfg \<noteq> sd_service" by (simp add: sd_service_def sample_cfg_def)
  from configured_pair_agrees [OF sample_cfg_added sample_cfg_added both k p(1) len(1) fits sd] show ?thesis
    using sample_cfg_added len(2) by metis
qed

section \<open>Sending to one target\<close>

lemma p04_crc_front:
  assumes "(x, y) \<noteq> (x', y')"
  shows "p04_crc c (x # y # rest) \<noteq> p04_crc c (x' # y' # rest)"
proof -
  let ?n = "p04_offset c + 6"
  have "p04_covered c (a # b # rest) = [] @ [a, b] @ take ?n rest @ drop (?n + 4) rest" for a b
    by (simp add: p04_covered_def eval_nat_numeral)
  then show ?thesis unfolding p04_crc_def calculate_folds xor_cancel
    using crc_burst [OF crc_polynomials_bit(1), of "[x, y]" "[x', y']" "[]" "take ?n rest @ drop (?n + 4) rest"] assms
    by simp
qed

lemma p04_protected_front: "j < p04_offset c \<Longrightarrow> p04_protected c r i b ! j = b ! j"
  by (simp add: p04_protected_def Let_def p04_put_16_def p04_put_32_def)

lemma p04_check_front:
  assumes "p04_ready p (h, ck) i (length b)" "p04_protect i (p, b) = Ok (p', b')" "2 \<le> p04_offset (p04c_config ck)"
    and "b' = x # y # rest"
  shows "p04_check (x' # y' # rest) i (h, ck) =
    (if (x, y) = (x', y') then p04_check b' i (h, ck) else Ok (E2E_WRONG_CRC, h, ck))"
proof (cases "(x, y) = (x', y')")
  case False
  let ?c = "p04c_config ck" let ?b = "x' # y' # rest"
  have fits: "p04_fits ?c i (length b)" and c: "p04p_config p = ?c" using assms(1) by (simp_all add: p04_ready_def)
  then have prot: "p04_protect i (p, b) = Ok (p04_increment_counter p, p04_protected ?c (p04p_counter p) i b)"
    using p04_protect_Ok [of i p b] by (simp add: p04_fits_def p04_verify_inputs_def)
  have off: "p04_offset ?c + 12 \<le> length b" using fits by (simp add: p04_fits_def)
  note fields = p04_protected_fields [OF off, of "p04p_counter p" i]
  have b': "b' = p04_protected ?c (p04p_counter p) i b" using prot assms(2) by simp
  have len: "length ?b = length b" using fields(1) assms(4) b' by simp
  have "p04_long ?b (p04_offset ?c + 8) = p04_long b' (p04_offset ?c + 8)"
    unfolding assms(4) by (simp add: p04_long_def nth_Cons')
  then have "p04_long ?b (p04_offset ?c + 8) \<noteq> p04_crc ?c ?b"
    using fields(5) p04_crc_front [OF False, of ?c rest] b' assms(4) by simp
  then have "p04_check ?b i (h, ck) = Ok (E2E_WRONG_CRC, h, ck)" using p04_check_Ok [of i ck ?b h] fits off len
    by (simp add: p04_fits_def p04_verify_input_def Let_def)
  then show ?thesis using False by auto
qed (use assms(4) in simp)

lemma p04_protect_front:
  assumes "p04_ready p (h, ck) i (length b)" "p04_protect i (p, b) = Ok (p', b')" "j < p04_offset (p04p_config p)"
  shows "b' ! j = b ! j"
  using assms p04_protect_Ok [of i p b] p04_protected_front [of j "p04p_config p"]
  by (auto simp: p04_ready_def p04_fits_def p04_verify_inputs_def)

text \<open>
  [C27] \<open>send_to\<close> writes the client identifier into the header after the message has been protected. The
  area profile 4 protects starts at byte eight, with the client identifier: with this profile, its
  header at an offset of at least two, and a receiver whose counter is in step, the message is found
  correct when the identifier is the one the message already had, and a wrong checksum is found
  whenever it is another one. (Profile 1 and the custom profile start at byte sixteen and do not
  protect the identifier.) The service is not that of service discovery, which \<open>on_message\<close> does not check.
\<close>

theorem send_to_profile04:
  assumes "k = (h_service (m_header m), h_method (m_header m))" "i = h_instance (m_header m)"
    and "custom_protectors s k = Some (P04_protector p)" "custom_bases s k = Some 8"
    and "custom_checkers r k = Some (P04_checker ck)" "custom_bases r k = Some 8"
    and "p04_ready p (has_counter r, ck) i (length (wire_message m) - 8)" "2 \<le> p04_offset (p04p_config p)"
    and "h_service (m_header m) \<noteq> sd_service"
  shows "\<exists>data s' r'. send_to client m (new_serializer t) (Some s) = Ok (data, s')
    \<and> check_message data i (Some r) = Ok (if client = h_client (m_header m) then E2E_OK else E2E_WRONG_CRC, r')"
proof -
  let ?w = "wire_message m"
  define rest where "rest = drop 10 ?w"
  have ser: "serialize_message m (new_serializer t) = (True, (new_serializer t)\<lparr>ser_data := ?w\<rparr>)"
    using appendsD [OF appends_message] by (simp add: new_serializer_def)
  define front where "front = be16 (h_service (m_header m)) @ be16 (h_method (m_header m)) @ be32 (get_length m)"
  have front: "length front = 8" by (simp add: front_def)
  have w: "?w = front @ be16 (h_client (m_header m)) @ rest"
    by (simp add: rest_def front_def wire_message_def wire_header_def)
  have k: "message_data_identifier (front @ b) = k" for b
    by (simp add: message_data_identifier_def front_def assms(1) be16_def)
  let ?b = "be16 (h_client (m_header m)) @ rest"
  have b: "drop 8 ?w = ?b" "take 8 ?w = front" using front by (simp_all add: w)
  have ready: "p04_ready p (has_counter r, ck) i (length ?b)" using assms(7) b by (metis length_drop)
  from p04.accepted [OF this] obtain p' b' c' where acc: "p04_protect i (p, ?b) = Ok (p', b')"
    "length b' = length ?b" "p04_check b' i (has_counter r, ck) = Ok (E2E_OK, c')" by blast
  have c: "p04p_config p = p04c_config ck" using ready by (simp add: p04_ready_def)
  let ?x = "WORD_BYTE1 (h_client (m_header m))" let ?y = "WORD_BYTE0 (h_client (m_header m))"
  have "b' ! 0 = ?b ! 0" "b' ! 1 = ?b ! 1" using p04_protect_front [OF ready acc(1)] assms(8) by simp_all
  moreover obtain u v tl where "b' = u # v # tl" using acc(2) by (cases b'; cases "tl b'") (auto simp: be16_def)
  ultimately have b': "b' = ?x # ?y # tl" by (simp add: be16_def)
  let ?new = "WORD_BYTE1 client # WORD_BYTE0 client # tl"
  have same: "(?x, ?y) = (WORD_BYTE1 client, WORD_BYTE0 client) \<longleftrightarrow> client = h_client (m_header m)"
    using be16_inject [of "h_client (m_header m)" client] by (auto simp: be16_def)
  have "send_to client m (new_serializer t) (Some s)
      = Ok (front @ ?new, Some (s\<lparr>custom_protectors := (custom_protectors s)(k \<mapsto> P04_protector p')\<rparr>))"
    using acc(1) assms(2,3,4) front k [of ?b] b
    by (simp add: send_to_def ser protect_data_def w is_protected_def get_protection_base_def e2e_protect_def Let_def
        b' VSOMEIP_CLIENT_POS_MIN_def VSOMEIP_CLIENT_POS_MAX_def nth_append list_update_append)
  moreover have "\<exists>h c2. p04_check ?new i (has_counter r, ck)
      = Ok (if client = h_client (m_header m) then E2E_OK else E2E_WRONG_CRC, h, c2)"
    using p04_check_front [OF ready acc(1) _ b', of "WORD_BYTE1 client" "WORD_BYTE0 client"] assms(8) c acc(3) same
    by (cases c') auto
  then have "\<exists>r'. check_message (front @ ?new) i (Some r)
      = Ok (if client = h_client (m_header m) then E2E_OK else E2E_WRONG_CRC, r')"
    using assms(5,6) front k [of ?new]
    by (auto simp: check_message_def is_checked_def get_protection_base_def e2e_check_def Let_def)
  ultimately show ?thesis by blast
qed

definition sample_notification :: message where
  "sample_notification = new_message\<lparr>
     m_header := new_header\<lparr>h_service := 0x1234, h_method := 0x8001, h_instance := 1, h_client := 0\<rparr>,
     m_payload := Some \<lparr>pl_data = replicate 20 7, pl_capacity = 20\<rparr>\<rparr>"

theorem send_to_profile04_witness:
  "\<exists>s data s' r'. add_configuration sample_cfg new_e2e_provider = Ok (True, s)
    \<and> send_to 5 sample_notification (new_serializer 0) (Some s) = Ok (data, s')
    \<and> check_message data 1 (Some s) = Ok (E2E_WRONG_CRC, r')"
proof -
  let ?c = "new_p04_config 31 8 0 0xFFFF 0xFFFF"
  let ?s = "process_e2e_profile sample_cfg 8 (P04_checker (new_p04_checker ?c)) (P04_protector (new_p04_protector ?c))
    new_e2e_provider"
  have k: "(0x1234, 0x8001) = (h_service (m_header sample_notification), h_method (m_header sample_notification))"
    "1 = h_instance (m_header sample_notification)" "h_client (m_header sample_notification) = 0"
    by (simp_all add: sample_notification_def)
  have maps: "custom_protectors ?s (0x1234, 0x8001) = Some (P04_protector (new_p04_protector ?c))"
    "custom_checkers ?s (0x1234, 0x8001) = Some (P04_checker (new_p04_checker ?c))"
    "custom_bases ?s (0x1234, 0x8001) = Some 8"
    by (simp_all add: process_e2e_profile_def sample_cfg_def Let_def)
  have "length (wire_message sample_notification) = 36"
    by (simp add: wire_message_def sample_notification_def)
  then have ready: "p04_ready (new_p04_protector ?c) (has_counter ?s, new_p04_checker ?c) 1
      (length (wire_message sample_notification) - 8)"
    by (simp add: p04_ready_def p04_fits_def new_p04_config_def new_p04_protector_def new_p04_checker_def)
  have "2 \<le> p04_offset (p04p_config (new_p04_protector ?c))"
    by (simp add: new_p04_protector_def new_p04_config_def)
  moreover have "h_service (m_header sample_notification) \<noteq> sd_service" by (simp add: sample_notification_def sd_service_def)
  ultimately show ?thesis
    using send_to_profile04 [OF k(1,2) maps(1,3,2,3) ready, of 5 0] k(3) sample_cfg_added by fastforce
qed

section \<open>Reading numbers\<close>

lemma is_digit_10: "is_digit 10 c \<Longrightarrow> \<not> is_space c \<and> c \<noteq> CHR ''-'' \<and> c \<noteq> CHR ''+'' \<and> c \<noteq> CHR ''x''"
  by (auto simp: is_digit_def digit_of_def is_space_def Let_def split: if_splits)

lemma clamp: "(if v \<ge> 2 ^ w then 2 ^ w - 1 else v) = min v (2 ^ w - 1 :: nat)"
  by (auto simp: min_def)

lemma extract_decimal:
  assumes "s \<noteq> []" "\<forall>c \<in> set s. is_digit 10 c"
  shows "extract_unsigned 10 w s = Ok (min (digits_value 10 s) (2 ^ w - 1))"
proof -
  obtain c cs where s: "s = c # cs" using assms(1) by (cases s) auto
  then have c: "\<not> is_space c" "c \<noteq> CHR ''-''" "c \<noteq> CHR ''+''" using assms(2) is_digit_10 by simp_all
  have "takeWhile (is_digit 10) s = s" using assms(2) by (simp add: takeWhile_eq_all_conv)
  then show ?thesis using c clamp [of w "digits_value 10 s"]
    by (simp add: extract_unsigned_def s strip_prefix_def Let_def)
qed

lemma extract_hexadecimal:
  assumes "\<forall>c \<in> set ds. is_digit 16 c"
  shows "extract_unsigned 16 w (''0x'' @ ds) = Ok (min (digits_value 16 ds) (2 ^ w - 1))"
proof -
  note all = takeWhile_eq_all_conv [THEN iffD2, OF assms]
  have "\<not> is_space CHR ''0''" by (simp add: is_space_def)
  then show ?thesis using clamp [of w "digits_value 16 ds"]
    by (simp add: extract_unsigned_def strip_prefix_def Let_def all)
qed

text \<open>
  [C31] Configuration values: a decimal number that fits into the target type is read as that number,
  and so is a hexadecimal number behind \<open>0x\<close>; a number that does not fit is silently replaced by the
  largest value of the type, and an empty value leaves the parameter uninitialised.
\<close>

theorem read_value_from_config_digits:
  assumes "map_of (e2e_custom_parameters config) name = Some its_value"
  shows "(its_value \<noteq> [] \<and> (\<forall>c \<in> set its_value. is_digit 10 c) \<longrightarrow>
      read_value_from_config config w name d = Ok (min (digits_value 10 its_value) (2 ^ w - 1)))
    \<and> (its_value = ''0x'' @ ds \<and> (\<forall>c \<in> set ds. is_digit 16 c) \<longrightarrow>
      read_value_from_config config w name d = Ok (min (digits_value 16 ds) (2 ^ w - 1)))
    \<and> (its_value = [] \<longrightarrow> read_value_from_config config w name d = Undefined)"
proof (intro conjI impI; (elim conjE)?)
  assume v: "its_value \<noteq> []" "\<forall>c \<in> set its_value. is_digit 10 c"
  have "\<not> (length its_value > 1 \<and> its_value ! 0 = CHR ''0'' \<and> its_value ! 1 = CHR ''x'')"
    using v(2) is_digit_10 nth_mem by metis
  then show "read_value_from_config config w name d = Ok (min (digits_value 10 its_value) (2 ^ w - 1))"
    using extract_decimal [OF v] assms by (auto simp: read_value_from_config_def)
next
  assume "its_value = ''0x'' @ ds" "\<forall>c \<in> set ds. is_digit 16 c"
  then show "read_value_from_config config w name d = Ok (min (digits_value 16 ds) (2 ^ w - 1))"
    using extract_hexadecimal assms by (simp add: read_value_from_config_def)
qed (use assms in \<open>simp add: read_value_from_config_def extract_unsigned_def\<close>)

theorem read_value_from_config_digits_witness:
  "read_value_from_config sample_cfg 16 ''crc_offset'' 0 = Ok 64
    \<and> read_value_from_config sample_cfg 16 ''data_id'' 0 = Ok 31"
proof
  have "\<forall>c \<in> set ''64''. is_digit 10 c" "digits_value 10 ''64'' = 64"
    by (simp_all add: is_digit_def digit_of_def digits_value_def)
  then show "read_value_from_config sample_cfg 16 ''crc_offset'' 0 = Ok 64"
    using read_value_from_config_digits [of sample_cfg "''crc_offset''" "''64''" 16 0] by (simp add: sample_cfg_def)
  have "\<forall>c \<in> set ''1F''. is_digit 16 c" "digits_value 16 ''1F'' = 31"
    by (simp_all add: is_digit_def digit_of_def digits_value_def)
  then show "read_value_from_config sample_cfg 16 ''data_id'' 0 = Ok 31"
    using read_value_from_config_digits [of sample_cfg "''data_id''" "''0x1F''" 16 0 "''1F''"] by (simp add: sample_cfg_def)
qed

end
