(* ===== verification/Dlt_Buffer.thy ===== *)
theory Dlt_Buffer
  imports Byteorder
begin

text \<open>
  The ring buffer of the log daemon and its user library, \<open>dlt_buffer_*\<close> in
  \<open>dlt-daemon/src/shared/dlt_common.c\<close>. A buffer is an area of memory that starts with a head of three
  integers (write position, read position, number of messages), followed by the data. A message is
  stored as a block head of twelve bytes and its data, wrapped around the end of the area. A dynamic
  buffer is enlarged in steps when a message does not fit and minimised when the last message is
  taken out.

  The integers of the head are kept at 32 bits; where the source compares them as \<open>int\<close> they are read
  as signed, where it casts to \<open>unsigned int\<close> as unsigned. Sums with \<open>sizeof\<close> are of type \<open>size_t\<close> and
  do not wrap. A \<open>memcpy\<close> or \<open>memset\<close> that leaves the memory area is undefined behaviour. The pointer to
  the buffer structure itself is not null; \<open>mem\<close> is the part of \<open>shm\<close> behind the head.

  What the C library leaves open is a parameter: \<open>malloc\<close> gives the content of a new block, or nothing,
  depending on the size; \<open>padding\<close> is the content of the three bytes behind the status byte of a block head.
\<close>

section \<open>Memory\<close>

record c_platform =
  malloc :: "nat \<Rightarrow> (nat \<Rightarrow> byte) option"
  padding :: "byte \<times> byte \<times> byte"

definition ptr_read :: "int \<Rightarrow> nat \<Rightarrow> bytes \<Rightarrow> bytes result" where
  "ptr_read i n mem =
     (if 0 \<le> i \<and> nat i + n \<le> length mem then Ok (take n (drop (nat i) mem)) else Undefined)"

definition ptr_write :: "int \<Rightarrow> bytes \<Rightarrow> bytes \<Rightarrow> bytes result" where
  "ptr_write i d mem =
     (if 0 \<le> i \<and> nat i + length d \<le> length mem
      then Ok (take (nat i) mem @ d @ drop (nat i + length d) mem) else Undefined)"

text \<open>\<open>memcpy\<close> between two areas, giving the new content of the destination.\<close>

definition memcpy :: "bytes \<Rightarrow> int \<Rightarrow> bytes \<Rightarrow> int \<Rightarrow> nat \<Rightarrow> bytes result" where
  "memcpy dst i src j n = bind_r (ptr_read j n src) (\<lambda>d. ptr_write i d dst)"

lemma memcpy_Ok [simp]:
  "0 \<le> i \<Longrightarrow> 0 \<le> j \<Longrightarrow> nat i + n \<le> length dst \<Longrightarrow> nat j + n \<le> length src \<Longrightarrow>
   memcpy dst i src j n = Ok (take (nat i) dst @ take n (drop (nat j) src) @ drop (nat i + n) dst)"
  by (simp add: memcpy_def ptr_read_def ptr_write_def)

section \<open>Buffers\<close>

definition DLT_RETURN_OK :: int where "DLT_RETURN_OK = 0"
definition DLT_RETURN_ERROR :: int where "DLT_RETURN_ERROR = -1"
definition DLT_RETURN_WRONG_PARAMETER :: int where "DLT_RETURN_WRONG_PARAMETER = -5"

lemmas dlt_return_defs = DLT_RETURN_OK_def DLT_RETURN_ERROR_def DLT_RETURN_WRONG_PARAMETER_def

record dlt_shm =
  head_write :: u32
  head_read :: u32
  head_count :: u32
  shm_mem :: bytes

record dlt_buffer =
  dlt_shm :: "dlt_shm option"
  dlt_size :: u32
  dlt_min_size :: u32
  dlt_max_size :: u32
  dlt_step_size :: u32

text \<open>The sizes of \<open>DltBufferHead\<close> and \<open>DltBufferBlockHead\<close>.\<close>

definition sizeof_head :: nat where "sizeof_head = 12"
definition sizeof_block_head :: nat where "sizeof_block_head = 12"

lemmas sizeof_defs = sizeof_head_def sizeof_block_head_def

definition new_shm :: "bytes \<Rightarrow> dlt_shm" where
  "new_shm mem = \<lparr>head_write = 0, head_read = 0, head_count = 0, shm_mem = mem\<rparr>"

definition memset0 :: "nat \<Rightarrow> bytes \<Rightarrow> bytes result" where
  "memset0 n mem = ptr_write 0 (replicate n 0) mem"

definition dlt_buffer_init_static_server :: "dlt_shm \<Rightarrow> u32 \<Rightarrow> dlt_buffer \<Rightarrow> (int \<times> dlt_buffer) result" where
  "dlt_buffer_init_static_server ptr sz buf =
     (let n = sz - of_nat sizeof_head in
      bind_r (memset0 (unat n) (shm_mem ptr)) (\<lambda>mem.
      Ok (DLT_RETURN_OK, buf\<lparr>dlt_shm := Some (new_shm mem), dlt_size := n, dlt_min_size := sz,
        dlt_max_size := sz, dlt_step_size := 0\<rparr>)))"

definition dlt_buffer_init_static_client :: "dlt_shm \<Rightarrow> u32 \<Rightarrow> dlt_buffer \<Rightarrow> int \<times> dlt_buffer" where
  "dlt_buffer_init_static_client ptr sz buf =
     (DLT_RETURN_OK, buf\<lparr>dlt_shm := Some ptr, dlt_size := sz - of_nat sizeof_head, dlt_min_size := sz,
        dlt_max_size := sz, dlt_step_size := 0\<rparr>)"

text \<open>
  The head is written into the new block before the code compares \<open>min_size\<close> with its size, which is
  undefined behaviour when the block is too small.
\<close>

definition dlt_buffer_init_dynamic ::
  "c_platform \<Rightarrow> u32 \<Rightarrow> u32 \<Rightarrow> u32 \<Rightarrow> dlt_buffer \<Rightarrow> (int \<times> dlt_buffer) result" where
  "dlt_buffer_init_dynamic env min_size max_size step_size buf =
     (if min_size = 0 \<or> max_size = 0 \<or> step_size = 0 then Ok (DLT_RETURN_WRONG_PARAMETER, buf)
      else if min_size > max_size then Ok (DLT_RETURN_WRONG_PARAMETER, buf)
      else if step_size > max_size then Ok (DLT_RETURN_WRONG_PARAMETER, buf)
      else
        let buf1 = buf\<lparr>dlt_min_size := min_size, dlt_max_size := max_size, dlt_step_size := step_size\<rparr> in
        case malloc env (unat min_size) of
          None \<Rightarrow> Ok (DLT_RETURN_ERROR, buf1\<lparr>dlt_shm := None\<rparr>)
        | Some _ \<Rightarrow>
            if unat min_size < sizeof_head then Undefined
            else
              let n = min_size - of_nat sizeof_head in
              Ok (DLT_RETURN_OK, buf1\<lparr>dlt_shm := Some (new_shm (replicate (unat n) 0)), dlt_size := n\<rparr>))"

definition dlt_buffer_free_dynamic :: "dlt_buffer \<Rightarrow> int \<times> dlt_buffer" where
  "dlt_buffer_free_dynamic buf =
     (case dlt_shm buf of
        None \<Rightarrow> (DLT_RETURN_ERROR, buf)
      | Some _ \<Rightarrow> (DLT_RETURN_OK, buf\<lparr>dlt_shm := None\<rparr>))"

section \<open>Blocks of bytes\<close>

text \<open>
  \<open>dlt_buffer_write_block\<close> copies \<open>data\<close> to the position \<open>write\<close>, in two parts when it does not fit
  before the end, and advances the position; \<open>dlt_buffer_read_block\<close> is its counterpart. Both do
  nothing for a null pointer or a position outside of the buffer.
\<close>

definition dlt_buffer_write_block ::
  "u32 \<Rightarrow> bytes \<Rightarrow> u32 \<Rightarrow> bytes option \<Rightarrow> u32 \<Rightarrow> (u32 \<times> bytes) result" where
  "dlt_buffer_write_block buf_size mem write data sz =
     (case data of
        None \<Rightarrow> Ok (write, mem)
      | Some src \<Rightarrow>
          if sz \<le> buf_size
          then if write + sz \<le> buf_size
            then bind_r (memcpy mem (sint write) src 0 (unat sz)) (\<lambda>mem1. Ok (write + sz, mem1))
            else if write \<le> buf_size
            then bind_r (memcpy mem (sint write) src 0 (unat (buf_size - write))) (\<lambda>mem1.
                 bind_r (memcpy mem1 0 src (uint buf_size - sint write) (unat (sz - buf_size + write))) (\<lambda>mem2.
                 Ok (write + (sz - buf_size), mem2)))
            else Ok (write, mem)
          else Ok (write, mem))"

definition dlt_buffer_read_block ::
  "u32 \<Rightarrow> bytes \<Rightarrow> u32 \<Rightarrow> bytes option \<Rightarrow> u32 \<Rightarrow> (u32 \<times> bytes option) result" where
  "dlt_buffer_read_block buf_size mem read data sz =
     (case data of
        None \<Rightarrow> Ok (read, data)
      | Some dst \<Rightarrow>
          if read + sz \<le> buf_size
          then bind_r (memcpy dst 0 mem (sint read) (unat sz)) (\<lambda>dst1. Ok (read + sz, Some dst1))
          else if read \<le> buf_size
          then bind_r (memcpy dst 0 mem (sint read) (unat (buf_size - read))) (\<lambda>dst1.
               bind_r (memcpy dst1 (uint buf_size - sint read) mem 0 (unat (sz - buf_size + read))) (\<lambda>dst2.
               Ok (read + (sz - buf_size), Some dst2)))
          else Ok (read, data))"

section \<open>Enlarging, minimising and clearing\<close>

definition dlt_buffer_check_size :: "dlt_buffer \<Rightarrow> u32 \<Rightarrow> int" where
  "dlt_buffer_check_size buf needed =
     (if (ucast (dlt_size buf) + of_nat sizeof_head + scast needed :: u64) > ucast (dlt_max_size buf)
      then DLT_RETURN_ERROR else DLT_RETURN_OK)"

definition dlt_buffer_increase_size :: "c_platform \<Rightarrow> dlt_buffer \<Rightarrow> (int \<times> dlt_buffer) result" where
  "dlt_buffer_increase_size env buf =
     (let sz = dlt_size buf; n = unat sz + sizeof_head + unat (dlt_step_size buf) in
      if dlt_step_size buf = 0 then Ok (DLT_RETURN_ERROR, buf)
      else if n > unat (dlt_max_size buf) then Ok (DLT_RETURN_ERROR, buf)
      else case malloc env n of
        None \<Rightarrow> Ok (DLT_RETURN_ERROR, buf)
      | Some content \<Rightarrow>
          (case dlt_shm buf of
             None \<Rightarrow> Undefined
           | Some h \<Rightarrow>
               let new_mem = map content [sizeof_head..<n]; read = head_read h; write = head_write h;
                   update = (\<lambda>w m. Ok (DLT_RETURN_OK, buf\<lparr>dlt_size := sz + dlt_step_size buf, dlt_shm :=
                     Some \<lparr>head_write = w, head_read = 0, head_count = head_count h, shm_mem = m\<rparr>\<rparr>))
               in if sint read < sint write
                  then bind_r (memcpy new_mem 0 (shm_mem h) (sint read) (nat (sint write - sint read)))
                         (update (write - read))
                  else if sint write < 0 then Undefined
                  else bind_r (memcpy new_mem 0 (shm_mem h) (sint read) (unat (sz - read))) (\<lambda>mem1.
                       bind_r (memcpy mem1 (uint sz - sint read) (shm_mem h) 0 (nat (sint write)))
                         (update (sz + write - read)))))"

definition dlt_buffer_minimize_size :: "c_platform \<Rightarrow> dlt_buffer \<Rightarrow> (int \<times> dlt_buffer) result" where
  "dlt_buffer_minimize_size env buf =
     (if unat (dlt_size buf) + sizeof_head = unat (dlt_min_size buf) then Ok (DLT_RETURN_OK, buf)
      else case malloc env (unat (dlt_min_size buf)) of
        None \<Rightarrow> Ok (DLT_RETURN_ERROR, buf)
      | Some _ \<Rightarrow>
          if unat (dlt_min_size buf) < sizeof_head then Undefined
          else
            let n = dlt_min_size buf - of_nat sizeof_head in
            Ok (DLT_RETURN_OK, buf\<lparr>dlt_size := n, dlt_shm := Some (new_shm (replicate (unat n) 0))\<rparr>))"

definition dlt_buffer_reset :: "dlt_buffer \<Rightarrow> (int \<times> dlt_buffer) result" where
  "dlt_buffer_reset buf =
     (case dlt_shm buf of
        None \<Rightarrow> Undefined
      | Some h \<Rightarrow>
          bind_r (memset0 (unat (dlt_size buf)) (shm_mem h)) (\<lambda>mem.
          Ok (DLT_RETURN_OK, buf\<lparr>dlt_shm := Some (new_shm mem)\<rparr>)))"

section \<open>Storing a message\<close>

text \<open>
  The free space is computed from \<open>int\<close> positions and the size, an \<open>int\<close>, as a word that is
  read as signed; for sizes and positions below \<open>2 ^ 31\<close>, which every property assumes through \<open>dlt_holds\<close> or a
  bound on the maximum, no operation overflows.
\<close>

definition free_size_of :: "u32 \<Rightarrow> u32 \<Rightarrow> u32 \<Rightarrow> u32 \<Rightarrow> u32" where
  "free_size_of buf_size write read count =
     (if sint read > sint write then read - write
      else if count \<noteq> 0 \<and> write = read then 0
      else buf_size - write + read)"

lemma increase_size_grows:
  assumes "dlt_buffer_increase_size env buf = Ok (DLT_RETURN_OK, buf')"
  shows "dlt_max_size buf' = dlt_max_size buf" and "unat (dlt_size buf) < unat (dlt_size buf')"
    and "unat (dlt_size buf') \<le> unat (dlt_max_size buf)"
proof -
  let ?n = "unat (dlt_size buf) + sizeof_head + unat (dlt_step_size buf)"
  have *: "dlt_step_size buf \<noteq> 0" "?n \<le> unat (dlt_max_size buf)" "dlt_size buf' = dlt_size buf + dlt_step_size buf"
    "dlt_max_size buf' = dlt_max_size buf"
    using assms by (auto simp: dlt_buffer_increase_size_def Let_def dlt_return_defs bind_r_Ok_iff
        split: if_splits option.splits)
  have "0 < unat (dlt_step_size buf)" using *(1) by (simp add: unat_gt_0)
  moreover have "unat (dlt_size buf') = unat (dlt_size buf) + unat (dlt_step_size buf)"
    using *(2,3) unat_u32_less [of "dlt_max_size buf"] by (simp add: unat_word_ariths)
  ultimately show "dlt_max_size buf' = dlt_max_size buf" "unat (dlt_size buf) < unat (dlt_size buf')"
    "unat (dlt_size buf') \<le> unat (dlt_max_size buf)" using * by auto
qed

lemma increase_size_nearer:
  assumes "dlt_buffer_increase_size env buf = Ok (DLT_RETURN_OK, buf')"
  shows "unat (dlt_max_size buf') - unat (dlt_size buf') < unat (dlt_max_size buf) - unat (dlt_size buf)"
  using increase_size_grows [OF assms] by simp

text \<open>
  The loop that enlarges the buffer until the message fits. It ends because every successful
  enlargement brings the size nearer to the maximum. \<open>count\<close> is read once before the loop.
\<close>

function push_grow :: "c_platform \<Rightarrow> u32 \<Rightarrow> u32 \<Rightarrow> dlt_buffer \<Rightarrow> (bool \<times> dlt_buffer) result" where
  "push_grow env needed count buf =
     (case dlt_shm buf of
        None \<Rightarrow> Undefined
      | Some h \<Rightarrow>
          if sint (free_size_of (dlt_size buf) (head_write h) (head_read h) count) < sint needed
          then (case dlt_buffer_increase_size env buf of
                  Ok (r, buf') \<Rightarrow> if r = DLT_RETURN_OK then push_grow env needed count buf' else Ok (False, buf')
                | _ \<Rightarrow> Undefined)
          else Ok (True, buf))"
  by pat_completeness auto
termination
  by (relation "measure (\<lambda>(env, needed, count, buf). unat (dlt_max_size buf) - unat (dlt_size buf))")
    (auto dest: increase_size_nearer)

declare push_grow.simps [simp del]

definition block_head_bytes :: "byte \<times> byte \<times> byte \<Rightarrow> u32 \<Rightarrow> bytes" where
  "block_head_bytes pad sz = (case pad of (p1, p2, p3) \<Rightarrow>
     [0x53, 0x48, 0x4D, 0, 2, p1, p2, p3, LONG_BYTE0 sz, LONG_BYTE1 sz, LONG_BYTE2 sz, LONG_BYTE3 sz])"

lemma length_block_head_bytes [simp]: "length (block_head_bytes pad n) = 12"
  by (cases pad) (simp add: block_head_bytes_def)

definition write_part :: "u32 \<Rightarrow> bytes option \<Rightarrow> u32 \<Rightarrow> u32 \<times> bytes \<Rightarrow> (u32 \<times> bytes) result" where
  "write_part buf_size data sz = (\<lambda>(write, mem).
     if sz \<noteq> 0 then dlt_buffer_write_block buf_size mem write data sz else Ok (write, mem))"

definition write_message ::
  "c_platform \<Rightarrow> bytes option \<Rightarrow> u32 \<Rightarrow> bytes option \<Rightarrow> u32 \<Rightarrow> bytes option \<Rightarrow> u32 \<Rightarrow> u32 \<Rightarrow> u32 \<times> bytes
     \<Rightarrow> (u32 \<times> bytes) result" where
  "write_message env data1 size1 data2 size2 data3 size3 buf_size = (\<lambda>(write, mem).
     bind_r (dlt_buffer_write_block buf_size mem write
       (Some (block_head_bytes (padding env) (size1 + size2 + size3))) (of_nat sizeof_block_head)) (\<lambda>s1.
     bind_r (write_part buf_size data1 size1 s1) (\<lambda>s2.
     bind_r (write_part buf_size data2 size2 s2) (\<lambda>s3.
     write_part buf_size data3 size3 s3))))"

definition dlt_buffer_push3 ::
  "c_platform \<Rightarrow> bytes option \<Rightarrow> u32 \<Rightarrow> bytes option \<Rightarrow> u32 \<Rightarrow> bytes option \<Rightarrow> u32 \<Rightarrow> dlt_buffer
     \<Rightarrow> (int \<times> dlt_buffer) result" where
  "dlt_buffer_push3 env data1 size1 data2 size2 data3 size3 buf =
     (case dlt_shm buf of
        None \<Rightarrow> Ok (DLT_RETURN_ERROR, buf)
      | Some h \<Rightarrow>
          if head_read h > dlt_size buf \<or> head_write h > dlt_size buf
          then bind_r (dlt_buffer_reset buf) (\<lambda>(_, buf1). Ok (DLT_RETURN_ERROR, buf1))
          else bind_r (push_grow env (of_nat (sizeof_block_head + unat size1 + unat size2 + unat size3)) (head_count h) buf)
            (\<lambda>(fits, buf1).
               if \<not> fits then Ok (DLT_RETURN_ERROR, buf1)
               else case dlt_shm buf1 of
                 None \<Rightarrow> Undefined
               | Some h1 \<Rightarrow>
                   bind_r (write_message env data1 size1 data2 size2 data3 size3 (dlt_size buf1)
                     (head_write h1, shm_mem h1)) (\<lambda>(write, mem).
                   Ok (DLT_RETURN_OK, buf1\<lparr>dlt_shm := Some (h1\<lparr>head_write := write,
                     head_count := head_count h1 + 1, shm_mem := mem\<rparr>)\<rparr>))))"

definition dlt_buffer_push :: "c_platform \<Rightarrow> bytes option \<Rightarrow> u32 \<Rightarrow> dlt_buffer \<Rightarrow> (int \<times> dlt_buffer) result" where
  "dlt_buffer_push env data sz = dlt_buffer_push3 env data sz None 0 None 0"

section \<open>Taking out a message\<close>

definition used_size_of :: "u32 \<Rightarrow> u32 \<Rightarrow> u32 \<Rightarrow> u32" where
  "used_size_of buf_size write read =
     (if sint write > sint read then write - read else buf_size - read + write)"

definition block_size :: "bytes \<Rightarrow> u32" where
  "block_size head = BYTES_TO_LONG (head ! 11) (head ! 10) (head ! 9) (head ! 8)"

definition reset_error :: "bytes option \<Rightarrow> dlt_buffer \<Rightarrow> (int \<times> bytes option \<times> dlt_buffer) result" where
  "reset_error data buf = bind_r (dlt_buffer_reset buf) (\<lambda>(_, buf1). Ok (DLT_RETURN_ERROR, data, buf1))"

text \<open>
  What \<open>dlt_buffer_get\<close> does with a block of \<open>sz\<close> bytes behind its head at \<open>read\<close>: the data is copied when
  there is a place for it, whether or not it fits, and with \<open>delete\<close> the message is taken out.
\<close>

definition take_out ::
  "c_platform \<Rightarrow> bool \<Rightarrow> u32 \<Rightarrow> bytes option \<Rightarrow> dlt_shm \<Rightarrow> dlt_buffer \<Rightarrow> (int \<times> bytes option \<times> dlt_buffer) result" where
  "take_out env delete sz data h buf =
     (if delete
      then let h1 = h\<lparr>head_count := head_count h - 1\<rparr>; buf1 = buf\<lparr>dlt_shm := Some h1\<rparr> in
        if head_count h1 = 0
        then bind_r (dlt_buffer_minimize_size env buf1) (\<lambda>(_, buf2). Ok (sint sz, data, buf2))
        else Ok (sint sz, data, buf1)
      else Ok (sint sz, data, buf))"

definition get_block ::
  "c_platform \<Rightarrow> bytes option \<Rightarrow> u32 \<Rightarrow> bool \<Rightarrow> u32 \<Rightarrow> u32 \<Rightarrow> dlt_shm \<Rightarrow> dlt_buffer
     \<Rightarrow> (int \<times> bytes option \<times> dlt_buffer) result" where
  "get_block env data max_size delete read sz h buf =
     bind_r
       (if data \<noteq> None \<and> max_size \<noteq> 0
        then bind_r (dlt_buffer_read_block (dlt_size buf) (shm_mem h) read data sz) (\<lambda>(read1, data1).
             Ok (data1, if delete then h\<lparr>head_read := read1\<rparr> else h))
        else Ok (data, if delete then h\<lparr>head_read :=
               if read + sz \<le> dlt_size buf then read + sz else read + sz - dlt_size buf\<rparr> else h))
       (\<lambda>(data1, h1). take_out env delete sz data1 h1 buf)"

definition dlt_buffer_get ::
  "c_platform \<Rightarrow> bytes option \<Rightarrow> u32 \<Rightarrow> bool \<Rightarrow> dlt_buffer \<Rightarrow> (int \<times> bytes option \<times> dlt_buffer) result" where
  "dlt_buffer_get env data max_size delete buf =
     (case dlt_shm buf of
        None \<Rightarrow> Ok (DLT_RETURN_ERROR, data, buf)
      | Some h \<Rightarrow>
          let read = head_read h; write = head_write h; count = head_count h in
          if read > dlt_size buf \<or> write > dlt_size buf \<or> sint count < 0 then reset_error data buf
          else if count = 0
          then if write \<noteq> read then reset_error data buf else Ok (DLT_RETURN_ERROR, data, buf)
          else
            let used_size = sint (used_size_of (dlt_size buf) write read) in
            if used_size < int sizeof_block_head then reset_error data buf
            else bind_r (dlt_buffer_read_block (dlt_size buf) (shm_mem h) read
                    (Some (replicate sizeof_block_head 0)) (of_nat sizeof_block_head)) (\<lambda>(read1, block_head).
              case block_head of
                None \<Rightarrow> Undefined
              | Some head \<Rightarrow>
                  if take 4 head \<noteq> [0x53, 0x48, 0x4D, 0] then reset_error data buf
                  else if head ! 4 \<noteq> 2 then reset_error data buf
                  else if 2 ^ 31 \<le> int sizeof_block_head + sint (block_size head) then Undefined
                  else if used_size < int sizeof_block_head + sint (block_size head) then reset_error data buf
                  else get_block env data max_size delete read1 (block_size head) h buf))"

definition dlt_buffer_pull :: "c_platform \<Rightarrow> bytes option \<Rightarrow> u32 \<Rightarrow> dlt_buffer \<Rightarrow> (int \<times> bytes option \<times> dlt_buffer) result" where
  "dlt_buffer_pull env data max_size = dlt_buffer_get env data max_size True"

definition dlt_buffer_copy :: "c_platform \<Rightarrow> bytes option \<Rightarrow> u32 \<Rightarrow> dlt_buffer \<Rightarrow> (int \<times> bytes option \<times> dlt_buffer) result" where
  "dlt_buffer_copy env data max_size = dlt_buffer_get env data max_size False"

definition dlt_buffer_remove :: "c_platform \<Rightarrow> dlt_buffer \<Rightarrow> (int \<times> bytes option \<times> dlt_buffer) result" where
  "dlt_buffer_remove env = dlt_buffer_get env None 0 True"

section \<open>Sizes\<close>

definition dlt_buffer_get_total_size :: "dlt_buffer \<Rightarrow> u32" where
  "dlt_buffer_get_total_size buf = dlt_max_size buf"

definition dlt_buffer_get_used_size :: "dlt_buffer \<Rightarrow> int" where
  "dlt_buffer_get_used_size buf =
     (case dlt_shm buf of
        None \<Rightarrow> DLT_RETURN_OK
      | Some h \<Rightarrow>
          if head_count h = 0 then DLT_RETURN_OK
          else sint (used_size_of (dlt_size buf) (head_write h) (head_read h)))"

definition dlt_buffer_get_message_count :: "dlt_buffer \<Rightarrow> int" where
  "dlt_buffer_get_message_count buf =
     (case dlt_shm buf of None \<Rightarrow> DLT_RETURN_OK | Some h \<Rightarrow> sint (head_count h))"

end
