(* ===== verification/Dlt_Queue.thy ===== *)
theory Dlt_Queue
  imports Dlt_Buffer
begin

text \<open>
  The ring buffer as a queue. \<open>ring\<close> reads a number of bytes from a position on, around the end of the
  memory; the two block operations are described in terms of it, and the invariant \<open>dlt_holds\<close> says
  which messages a buffer holds. Storing, taking out and enlarging are then shown to keep the
  messages in order.
\<close>

section \<open>Positions as natural numbers\<close>

lemma sint_small:
  assumes "unat (w :: u32) < 2 ^ 31"
  shows "sint w = int (unat w)"
proof -
  have "int (unat w) < int (2 ^ 31)" using assms by (simp only: of_nat_less_iff)
  then have "signed_take_bit 31 (uint w) = uint w"
    by (simp add: signed_take_bit_int_eq_self_iff order_trans [OF _ uint_ge_0 [of w]])
  then show ?thesis by (simp add: sint_uint)
qed

definition ring :: "bytes \<Rightarrow> nat \<Rightarrow> nat \<Rightarrow> bytes" where
  "ring mem r n = take n (drop r mem @ take r mem)"

definition ring_next :: "nat \<Rightarrow> nat \<Rightarrow> nat \<Rightarrow> nat" where
  "ring_next s p n = (if p + n \<le> s then p + n else p + n - s)"

definition ring_put :: "bytes \<Rightarrow> nat \<Rightarrow> bytes \<Rightarrow> bytes" where
  "ring_put mem w d =
     (if w + length d \<le> length mem then take w mem @ d @ drop (w + length d) mem
      else drop (length mem - w) d @ take (length mem - length d) (drop (w + length d - length mem) mem)
        @ take (length mem - w) d)"

lemma length_ring [simp]: "r \<le> length mem \<Longrightarrow> n \<le> length mem \<Longrightarrow> length (ring mem r n) = n"
  by (simp add: ring_def)

lemma nth_ring:
  "i < n \<Longrightarrow> n \<le> length mem \<Longrightarrow> r \<le> length mem \<Longrightarrow>
   ring mem r n ! i = mem ! (if r + i < length mem then r + i else r + i - length mem)"
  by (auto simp: ring_def nth_append add.commute)

lemma ring_next_le: "p \<le> s \<Longrightarrow> n \<le> s \<Longrightarrow> ring_next s p n \<le> s"
  by (auto simp: ring_next_def)

lemma length_ring_put [simp]:
  "w \<le> length mem \<Longrightarrow> length d \<le> length mem \<Longrightarrow> length (ring_put mem w d) = length mem"
  by (simp add: ring_put_def)

lemma nth_ring_put:
  assumes "w \<le> length mem" "length d \<le> length mem" "j < length mem"
  shows "ring_put mem w d ! j =
    (let k = (if w \<le> j then j - w else j + length mem - w) in if k < length d then d ! k else mem ! j)"
  using assms by (auto simp: ring_put_def nth_append Let_def algebra_simps)

text \<open>Writing at the end of the bytes that are read from \<open>r\<close> on appends to them.\<close>

lemma ring_put_ring:
  assumes "r \<le> length mem" "w = ring_next (length mem) r u" "u + length d \<le> length mem"
  shows "ring (ring_put mem w d) r (u + length d) = ring mem r u @ d"
proof (rule nth_equalityI)
  have w: "w \<le> length mem" "w = r + u \<or> w + length mem = r + u" using assms by (auto simp: ring_next_def)
  fix i assume "i < length (ring (ring_put mem w d) r (u + length d))"
  then have i: "i < u + length d" using assms w by simp
  define j where "j = (if r + i < length mem then r + i else r + i - length mem)"
  have j: "j < length mem" using assms i by (auto simp: j_def)
  have "ring (ring_put mem w d) r (u + length d) ! i = ring_put mem w d ! j"
    using assms w i by (simp add: nth_ring j_def)
  also have "\<dots> = (if i < u then mem ! j else d ! (i - u))"
    using assms(1,3) w i j by (auto simp: nth_ring_put Let_def j_def split: if_splits intro: arg_cong [where f = "nth d"])
  also have "\<dots> = (ring mem r u @ d) ! i"
    using assms by (simp add: nth_append nth_ring j_def)
  finally show "ring (ring_put mem w d) r (u + length d) ! i = (ring mem r u @ d) ! i" .
qed (use assms in \<open>simp add: ring_next_le\<close>)

lemma ring_append:
  "r \<le> length mem \<Longrightarrow> m + n \<le> length mem \<Longrightarrow>
   ring mem r (m + n) = ring mem r m @ ring mem (ring_next (length mem) r m) n"
  by (rule nth_equalityI) (auto simp: nth_append nth_ring ring_next_def ring_next_le)

lemma ring_next_add: "r \<le> s \<Longrightarrow> m + n \<le> s \<Longrightarrow> ring_next s (ring_next s r m) n = ring_next s r (m + n)"
  by (auto simp: ring_next_def)

section \<open>The block operations\<close>

lemma unat_plus_small: "unat a + unat b < 2 ^ 32 \<Longrightarrow> unat (a + b :: u32) = unat a + unat b"
  by (simp add: unat_word_ariths)

lemma unat_minus_small: "unat b \<le> unat a \<Longrightarrow> unat (a - b :: u32) = unat a - unat b"
  by (simp add: unat_sub word_le_nat_alt)

lemma write_block_ring:
  assumes "length mem = unat sz" "unat sz < 2 ^ 31" "unat w \<le> unat sz" "length d = unat n" "n \<le> sz"
  obtains w' where "dlt_buffer_write_block sz mem w (Some d) n = Ok (w', ring_put mem (unat w) d)"
    "unat w' = ring_next (unat sz) (unat w) (unat n)"
proof -
  have n: "unat n \<le> unat sz" using assms(5) by (simp add: word_le_nat_alt)
  have w: "sint w = int (unat w)" using assms by (intro sint_small) simp
  have sum: "unat (w + n) = unat w + unat n" using assms n by (intro unat_plus_small) simp
  show thesis
  proof (cases "unat w + unat n \<le> unat sz")
    case True
    then show thesis using that [of "w + n"] assms n w sum
      by (simp add: dlt_buffer_write_block_def word_le_nat_alt ring_put_def ring_next_def nat_uint_eq)
  next
    case False
    obtain k l where kl: "unat sz = k + unat w" "unat n = k + l"
      using assms(3) False by (metis add.commute le_add_diff_inverse2 nat_le_iff_add nat_le_linear add_le_cancel_left)
    have *: "n - sz + w = w + n - sz" "w + (n - sz) = w + n - sz" by simp_all
    have d: "unat (sz - w) = k" "unat (w + n - sz) = l" using sum by (simp_all add: kl unat_minus_small)
    have k: "uint sz - sint w = int k" unfolding w uint_nat kl by simp
    have "dlt_buffer_write_block sz mem w (Some d) n = Ok (w + n - sz, ring_put mem (unat w) d)"
      using assms(1,2,4) n False w sum d unfolding dlt_buffer_write_block_def k
      by (simp add: word_le_nat_alt ring_put_def * drop_take nat_uint_eq kl)
    then show thesis using that [of "w + n - sz"] False d(2) by (simp add: ring_next_def kl)
  qed
qed

lemma read_block_ring:
  assumes "length mem = unat sz" "unat sz < 2 ^ 31" "unat r \<le> unat sz" "n \<le> sz" "unat n \<le> length dst"
  obtains r' where "dlt_buffer_read_block sz mem r (Some dst) n = Ok (r', Some (ring mem (unat r) (unat n) @ drop (unat n) dst))"
    "unat r' = ring_next (unat sz) (unat r) (unat n)"
proof -
  have n: "unat n \<le> unat sz" using assms(4) by (simp add: word_le_nat_alt)
  have r: "sint r = int (unat r)" using assms by (intro sint_small) simp
  have sum: "unat (r + n) = unat r + unat n" using assms n by (intro unat_plus_small) simp
  show thesis
  proof (cases "unat r + unat n \<le> unat sz")
    case True
    then show thesis using that [of "r + n"] assms n r sum
      by (simp add: dlt_buffer_read_block_def word_le_nat_alt ring_def ring_next_def nat_uint_eq)
  next
    case False
    obtain k l where kl: "unat sz = k + unat r" "unat n = k + l"
      using assms(3) False by (metis add.commute le_add_diff_inverse2 nat_le_iff_add nat_le_linear add_le_cancel_left)
    have *: "n - sz + r = r + n - sz" "r + (n - sz) = r + n - sz" by simp_all
    have d: "unat (sz - r) = k" "unat (r + n - sz) = l" using sum by (simp_all add: kl unat_minus_small)
    have k: "uint sz - sint r = int k" unfolding r uint_nat kl by simp
    have "dlt_buffer_read_block sz mem r (Some dst) n
        = Ok (r + n - sz, Some (ring mem (unat r) (unat n) @ drop (unat n) dst))"
      using assms(1,2,5) n False r sum d unfolding dlt_buffer_read_block_def k
      by (simp add: word_le_nat_alt ring_def * nat_uint_eq kl add.commute)
    then show thesis using that [of "r + n - sz"] False d(2) by (simp add: ring_next_def kl)
  qed
qed

text \<open>
  \<open>ends_at\<close>: the bytes from the read position \<open>r\<close> up to the write position. Writing a block, a part or
  a message appends to them.
\<close>

definition ends_at :: "nat \<Rightarrow> nat \<Rightarrow> u32 \<times> bytes \<Rightarrow> bytes \<Rightarrow> bool" where
  "ends_at s r = (\<lambda>(w, mem) bs. length mem = s \<and> r \<le> s \<and> length bs \<le> s \<and> unat w = ring_next s r (length bs)
     \<and> ring mem r (length bs) = bs)"

lemma write_block_appends:
  assumes "ends_at (unat sz) r (w, mem) bs" "unat sz < 2 ^ 31" "length bs + length d \<le> unat sz"
  obtains w' mem' where "dlt_buffer_write_block sz mem w (Some d) (of_nat (length d)) = Ok (w', mem')"
    "ends_at (unat sz) r (w', mem') (bs @ d)"
proof -
  have e: "length mem = unat sz" "r \<le> unat sz" "unat w = ring_next (unat sz) r (length bs)" "ring mem r (length bs) = bs"
    "length bs \<le> unat sz" using assms(1) by (simp_all add: ends_at_def)
  have n: "unat (of_nat (length d) :: u32) = length d" using assms(2,3) by (intro unat_u32) simp
  obtain w' where w': "dlt_buffer_write_block sz mem w (Some d) (of_nat (length d)) = Ok (w', ring_put mem (unat w) d)"
    "unat w' = ring_next (unat sz) (unat w) (length d)"
    using write_block_ring [of mem sz w d "of_nat (length d)"] assms(2,3) e n
    by (metis add_leD2 ring_next_le word_le_nat_alt)
  have "ring (ring_put mem (unat w) d) r (length bs + length d) = bs @ d"
    using ring_put_ring [of r mem "unat w" "length bs" d] e assms(3) by simp
  then have "ends_at (unat sz) r (w', ring_put mem (unat w) d) (bs @ d)"
    using w'(2) e assms(3) ring_next_add [of r "unat sz" "length bs" "length d"] ring_next_le [of r "unat sz" "length bs"]
    by (simp add: ends_at_def)
  with w'(1) show thesis by (rule that)
qed

lemma write_part_appends:
  assumes "ends_at (unat sz) r s bs" "unat sz < 2 ^ 31" "length bs + length d \<le> unat sz"
  obtains s' where "write_part sz (Some d) (of_nat (length d)) s = Ok s'" "ends_at (unat sz) r s' (bs @ d)"
proof (cases "d = []")
  case True
  then show thesis using that [of s] assms(1) by (cases s) (simp add: write_part_def)
next
  case False
  have "unat (of_nat (length d) :: u32) = length d" using assms(2,3) by (intro unat_u32) simp
  then have "(of_nat (length d) :: u32) \<noteq> 0" using False by (metis length_0_conv unat_0)
  moreover obtain w mem where s: "s = (w, mem)" by (cases s)
  moreover obtain w' mem' where "dlt_buffer_write_block sz mem w (Some d) (of_nat (length d)) = Ok (w', mem')"
    "ends_at (unat sz) r (w', mem') (bs @ d)" using assms unfolding s by (rule write_block_appends)
  ultimately show thesis using that [of "(w', mem')"] by (simp add: write_part_def)
qed

lemma write_message_appends:
  assumes "ends_at (unat sz) r s bs" "unat sz < 2 ^ 31" "length bs + 12 + length d1 + length d2 + length d3 \<le> unat sz"
  obtains s' where "write_message env (Some d1) (of_nat (length d1)) (Some d2) (of_nat (length d2))
      (Some d3) (of_nat (length d3)) sz s = Ok s'"
    "ends_at (unat sz) r s' (bs @ block_head_bytes (padding env) (of_nat (length (d1 @ d2 @ d3))) @ d1 @ d2 @ d3)"
proof -
  let ?head = "block_head_bytes (padding env) (of_nat (length d1) + of_nat (length d2) + of_nat (length d3))"
  obtain w mem where s: "s = (w, mem)" by (cases s)
  obtain w1 mem1 where 1: "dlt_buffer_write_block sz mem w (Some ?head) (of_nat (length ?head)) = Ok (w1, mem1)"
    "ends_at (unat sz) r (w1, mem1) (bs @ ?head)"
    by (rule write_block_appends [OF assms(1) [unfolded s] assms(2), of ?head]) (use assms(3) in simp_all)
  obtain s2 where 2: "write_part sz (Some d1) (of_nat (length d1)) (w1, mem1) = Ok s2" "ends_at (unat sz) r s2 ((bs @ ?head) @ d1)"
    by (rule write_part_appends [OF 1(2) assms(2), of d1]) (use assms(3) in simp_all)
  obtain s3 where 3: "write_part sz (Some d2) (of_nat (length d2)) s2 = Ok s3" "ends_at (unat sz) r s3 (((bs @ ?head) @ d1) @ d2)"
    by (rule write_part_appends [OF 2(2) assms(2), of d2]) (use assms(3) in simp_all)
  obtain s4 where 4: "write_part sz (Some d3) (of_nat (length d3)) s3 = Ok s4" "ends_at (unat sz) r s4 ((((bs @ ?head) @ d1) @ d2) @ d3)"
    by (rule write_part_appends [OF 3(2) assms(2), of d3]) (use assms(3) in simp_all)
  show thesis
    by (rule that [of s4]) (use 1 2 3 4 in \<open>simp_all add: s write_message_def sizeof_block_head_def add.assoc\<close>)
qed

section \<open>The bytes in a buffer\<close>

definition dlt_limits :: "dlt_buffer \<Rightarrow> bool" where
  "dlt_limits buf \<longleftrightarrow> unat (dlt_max_size buf) < 2 ^ 31 \<and> sizeof_head \<le> unat (dlt_min_size buf)
     \<and> unat (dlt_min_size buf) \<le> unat (dlt_size buf) + sizeof_head
     \<and> unat (dlt_size buf) + sizeof_head \<le> unat (dlt_max_size buf)"

definition raw_holds :: "dlt_buffer \<Rightarrow> u32 \<Rightarrow> bytes \<Rightarrow> bool" where
  "raw_holds buf count bs \<longleftrightarrow> dlt_limits buf
     \<and> (case dlt_shm buf of
          None \<Rightarrow> False
        | Some h \<Rightarrow> ends_at (unat (dlt_size buf)) (unat (head_read h)) (head_write h, shm_mem h) bs \<and> head_count h = count
            \<and> (if bs = [] then count = 0 else count \<noteq> 0 \<or> head_write h \<noteq> head_read h))"

definition same_limits :: "dlt_buffer \<Rightarrow> dlt_buffer \<Rightarrow> bool" where
  "same_limits buf buf' \<longleftrightarrow> dlt_min_size buf' = dlt_min_size buf \<and> dlt_max_size buf' = dlt_max_size buf
     \<and> dlt_step_size buf' = dlt_step_size buf"

lemma same_limits_refl [simp]: "same_limits buf buf"
  by (simp add: same_limits_def)

lemma same_limits_trans: "same_limits a b \<Longrightarrow> same_limits b c \<Longrightarrow> same_limits a c"
  by (simp add: same_limits_def)

lemma raw_holdsE:
  assumes "raw_holds buf count bs"
  obtains h where "dlt_shm buf = Some h" "unat (dlt_size buf) < 2 ^ 31"
    "ends_at (unat (dlt_size buf)) (unat (head_read h)) (head_write h, shm_mem h) bs" "head_count h = count"
    "if bs = [] then count = 0 else count \<noteq> 0 \<or> head_write h \<noteq> head_read h"
  using assms by (auto simp: raw_holds_def dlt_limits_def split: option.splits)

text \<open>The facts about the integers of the head that the operations test.\<close>

lemma ends_at_words:
  assumes "ends_at (unat sz) (unat r) (w, mem) bs" "unat sz < 2 ^ 31"
  shows "unat r \<le> unat sz" "unat w \<le> unat sz" "\<not> r > sz" "\<not> w > sz" "sint r = int (unat r)" "sint w = int (unat w)"
    "unat w = ring_next (unat sz) (unat r) (length bs)" "length mem = unat sz" "length bs \<le> unat sz"
    "ring mem (unat r) (length bs) = bs"
proof -
  show r: "unat r \<le> unat sz" and w: "unat w \<le> unat sz" using assms(1) by (simp_all add: ends_at_def ring_next_le)
  then show "\<not> r > sz" "\<not> w > sz" by (simp_all add: word_less_nat_alt)
  show "sint r = int (unat r)" "sint w = int (unat w)"
    by (rule sint_small, rule le_less_trans [OF r assms(2)], rule sint_small, rule le_less_trans [OF w assms(2)])
qed (use assms(1) in \<open>simp_all add: ends_at_def\<close>)

lemma free_size_ends_at:
  assumes "ends_at (unat sz) (unat r) (w, mem) bs" "unat sz < 2 ^ 31" "if bs = [] then count = 0 else count \<noteq> 0 \<or> w \<noteq> r"
  shows "sint (free_size_of sz w r count) = int (unat sz - length bs)"
proof -
  note e = ends_at_words [OF assms(1,2)]
  have lt: "sint w < sint r \<longleftrightarrow> unat w < unat r" unfolding e(5,6) of_nat_less_iff ..
  have "unat (free_size_of sz w r count) = unat sz - length bs"
  proof (cases "unat w < unat r")
    case True
    then show ?thesis using e(1-4,7-9) by (auto simp: lt free_size_of_def unat_minus_small ring_next_def split: if_splits)
  next
    case False
    show ?thesis
    proof (cases "count \<noteq> 0 \<and> w = r")
      case True
      then show ?thesis using e(1-4,7-9) assms(3) by (auto simp: lt free_size_of_def ring_next_def split: if_splits)
    next
      case neq: False
      have "unat (sz - w + r) = unat (sz - w) + unat r"
        using False assms(2) e(2) by (intro unat_plus_small) (simp add: unat_minus_small)
      moreover have "w \<noteq> r \<longrightarrow> unat w \<noteq> unat r" using word_unat_eq_iff by blast
      ultimately show ?thesis using e(1-4,7-9) assms(3) False neq
        by (auto simp: lt free_size_of_def unat_minus_small ring_next_def split: if_splits)
    qed
  qed
  then show ?thesis using assms(2) by (subst sint_small) simp_all
qed

lemma used_size_ends_at:
  assumes "ends_at (unat sz) (unat r) (w, mem) bs" "unat sz < 2 ^ 31" "bs \<noteq> []"
  shows "sint (used_size_of sz w r) = int (length bs)"
proof -
  note e = ends_at_words [OF assms(1,2)]
  have lt: "sint r < sint w \<longleftrightarrow> unat r < unat w" unfolding e(5,6) of_nat_less_iff ..
  have "unat (used_size_of sz w r) = length bs"
  proof (cases "unat r < unat w")
    case True
    then show ?thesis using e(1-4,7-9) by (auto simp: lt used_size_of_def unat_minus_small ring_next_def split: if_splits)
  next
    case False
    have "unat (sz - r + w) = unat (sz - r) + unat w"
      using False assms(2) e(1) by (intro unat_plus_small) (simp add: unat_minus_small)
    then show ?thesis using e(1-4,7-9) False assms(3)
      by (auto simp: lt used_size_of_def unat_minus_small ring_next_def split: if_splits)
  qed
  then show ?thesis using e(9) assms(2) by (subst sint_small) simp_all
qed

section \<open>Enlarging\<close>

text \<open>A buffer that is not empty keeps its bytes when it is enlarged.\<close>

lemma ring_as_parts:
  assumes "r \<le> length mem" "u \<le> length mem"
  shows "ring mem r u = (if r + u \<le> length mem then take u (drop r mem)
    else drop r mem @ take (r + u - length mem) mem)"
  using assms by (simp add: ring_def algebra_simps)

lemma ring_front: "u \<le> length mem \<Longrightarrow> ring mem 0 u = take u mem"
  by (simp add: ring_def)

lemma increase_size_copies:
  assumes "ends_at (unat sz) (unat (head_read h)) (head_write h, shm_mem h) bs" "bs \<noteq> []" "unat sz < 2 ^ 31"
    and "dlt_size buf = sz" "dlt_shm buf = Some h"
    and "dlt_step_size buf \<noteq> 0" "unat sz + sizeof_head + unat (dlt_step_size buf) \<le> unat (dlt_max_size buf)"
    and "malloc env (unat sz + sizeof_head + unat (dlt_step_size buf)) = Some content"
  obtains w rest where "dlt_buffer_increase_size env buf = Ok (DLT_RETURN_OK, buf\<lparr>dlt_size := sz + dlt_step_size buf,
      dlt_shm := Some \<lparr>head_write = w, head_read = 0, head_count = head_count h, shm_mem = bs @ rest\<rparr>\<rparr>)"
    "length (bs @ rest) = unat sz + unat (dlt_step_size buf)" "unat w = length bs"
proof -
  note e = ends_at_words [OF assms(1,3)]
  let ?r = "unat (head_read h)" and ?w = "unat (head_write h)"
  define new where "new = map content [sizeof_head..<unat sz + sizeof_head + unat (dlt_step_size buf)]"
  have len: "length new = unat sz + unat (dlt_step_size buf)" by (simp add: new_def)
  let ?h = "\<lambda>wr. \<lparr>head_write = wr, head_read = 0, head_count = head_count h, shm_mem = bs @ drop (length bs) new\<rparr>"
  have *: "dlt_buffer_increase_size env buf = Ok (DLT_RETURN_OK, buf\<lparr>dlt_size := sz + dlt_step_size buf, dlt_shm := Some (?h wr)\<rparr>)
      \<and> unat wr = length bs"
    if "wr = (if ?r < ?w then head_write h - head_read h else sz + head_write h - head_read h)" for wr
  proof (cases "?r < ?w")
    case True
    then have u: "?r + length bs \<le> unat sz" "?w = ?r + length bs" using e(1,7,9) assms(2) by (auto simp: ring_next_def split: if_splits)
    have bs: "take (length bs) (drop ?r (shm_mem h)) = bs" using e(1,8,9,10) u by (simp add: ring_as_parts)
    have "nat (sint (head_write h) - sint (head_read h)) = length bs" unfolding e(5,6) using u by simp
    moreover have "sint (head_read h) < sint (head_write h)" unfolding e(5,6) using True by (simp only: of_nat_less_iff)
    moreover have "0 \<le> sint (head_read h)" "nat (sint (head_read h)) = ?r" unfolding e(5,6) by simp_all
    ultimately show ?thesis using assms(4-8) e(8) u len True that bs
      by (simp add: dlt_buffer_increase_size_def Let_def leD unat_minus_small flip: new_def)
  next
    case False
    then have u: "unat sz < ?r + length bs" "?w = ?r + length bs - unat sz" using e(1,7,9) assms(2) by (auto simp: ring_next_def split: if_splits)
    obtain k where "unat sz = k + ?r" using e(1) le_add_diff_inverse2 by metis
    with u have kl: "unat sz = k + ?r" "length bs = k + ?w" by simp_all
    have bs: "drop ?r (shm_mem h) @ take ?w (shm_mem h) = bs" using e(1,8,9,10) u by (simp add: ring_as_parts)
    have "unat (sz + head_write h) = unat sz + ?w" using e(2) assms(3) by (intro unat_plus_small) simp
    then have wr: "unat (sz + head_write h - head_read h) = length bs" using u e(1) by (subst unat_minus_small) simp_all
    have r: "unat (sz - head_read h) = unat sz - ?r" using e(1) by (simp add: unat_minus_small)
    have i: "\<not> sint (head_read h) < sint (head_write h)" unfolding e(5,6) using False by (simp only: of_nat_less_iff) simp
    have k: "uint sz - sint (head_read h) = int k" unfolding e(5) uint_nat kl by simp
    have n: "nat (sint (head_write h)) = ?w" "\<not> sint (head_write h) < 0" "0 \<le> sint (head_read h)" "nat (sint (head_read h)) = ?r"
      unfolding e(5,6) by simp_all
    have "dlt_buffer_increase_size env buf = Ok (DLT_RETURN_OK, buf\<lparr>dlt_size := sz + dlt_step_size buf, dlt_shm :=
        Some \<lparr>head_write = wr, head_read = 0, head_count = head_count h,
          shm_mem = (drop ?r (shm_mem h) @ take ?w (shm_mem h)) @ drop (length bs) new\<rparr>\<rparr>)"
      using assms(4-8) e(2,8) len False that r i n
      by (simp add: dlt_buffer_increase_size_def Let_def leD k kl new_def add.commute)
    then show ?thesis using False that wr unfolding bs by simp
  qed
  show thesis
    by (rule that [of "if ?r < ?w then head_write h - head_read h else sz + head_write h - head_read h"
          "drop (length bs) new"]) (use * [OF refl] e(9) len in simp_all)
qed

lemma increase_size_raw:
  assumes "raw_holds buf count bs" "bs \<noteq> []"
  shows "(\<exists>buf'. dlt_buffer_increase_size env buf = Ok (DLT_RETURN_OK, buf') \<and> raw_holds buf' count bs
        \<and> same_limits buf buf' \<and> unat (dlt_size buf') = unat (dlt_size buf) + unat (dlt_step_size buf))
    \<or> dlt_buffer_increase_size env buf = Ok (DLT_RETURN_ERROR, buf)
      \<and> ((\<forall>n. malloc env n \<noteq> None) \<longrightarrow> dlt_step_size buf = 0
        \<or> unat (dlt_max_size buf) < unat (dlt_size buf) + sizeof_head + unat (dlt_step_size buf))"
proof -
  let ?n = "unat (dlt_size buf) + sizeof_head + unat (dlt_step_size buf)"
  obtain h where h: "dlt_shm buf = Some h" "unat (dlt_size buf) < 2 ^ 31"
    "ends_at (unat (dlt_size buf)) (unat (head_read h)) (head_write h, shm_mem h) bs" "head_count h = count"
    using assms(1) by (rule raw_holdsE)
  show ?thesis
  proof (cases "dlt_step_size buf \<noteq> 0 \<and> ?n \<le> unat (dlt_max_size buf) \<and> malloc env ?n \<noteq> None")
    case True
    then obtain content where "malloc env ?n = Some content" by blast
    from increase_size_copies [OF h(3) assms(2) h(2) refl h(1) _ _ this] True obtain w rest where
      w: "dlt_buffer_increase_size env buf = Ok (DLT_RETURN_OK, buf\<lparr>dlt_size := dlt_size buf + dlt_step_size buf,
        dlt_shm := Some \<lparr>head_write = w, head_read = 0, head_count = head_count h, shm_mem = bs @ rest\<rparr>\<rparr>)"
      "length (bs @ rest) = unat (dlt_size buf) + unat (dlt_step_size buf)" "unat w = length bs" by blast
    have lim: "dlt_limits buf" using assms(1) by (simp add: raw_holds_def)
    have size: "unat (dlt_size buf + dlt_step_size buf) = unat (dlt_size buf) + unat (dlt_step_size buf)"
      using True lim by (intro unat_plus_small) (simp add: dlt_limits_def)
    have "w \<noteq> 0" using w(3) assms(2) by auto
    then have "raw_holds (buf\<lparr>dlt_size := dlt_size buf + dlt_step_size buf, dlt_shm :=
        Some \<lparr>head_write = w, head_read = 0, head_count = head_count h, shm_mem = bs @ rest\<rparr>\<rparr>) count bs"
      using lim True w h(4) assms(2) by (simp add: raw_holds_def dlt_limits_def size ends_at_def ring_front ring_next_def)
    then show ?thesis using w(1) size by (simp add: same_limits_def)
  next
    case False
    then have "dlt_buffer_increase_size env buf = Ok (DLT_RETURN_ERROR, buf)"
      by (auto simp: dlt_buffer_increase_size_def Let_def)
    moreover have "(\<forall>n. malloc env n \<noteq> None) \<longrightarrow> dlt_step_size buf = 0 \<or> unat (dlt_max_size buf) < ?n"
      using False leI by blast
    ultimately show ?thesis by blast
  qed
qed

section \<open>Storing a message\<close>

text \<open>
  The loop leaves the messages as they are. When \<open>malloc\<close> succeeds it makes room exactly when some
  number of steps does so within the maximum. An empty buffer must be large enough already.
\<close>

definition can_grow :: "dlt_buffer \<Rightarrow> nat \<Rightarrow> bool" where
  "can_grow buf n \<longleftrightarrow> (\<exists>k. unat (dlt_size buf) + k * unat (dlt_step_size buf) + sizeof_head \<le> unat (dlt_max_size buf)
     \<and> n \<le> unat (dlt_size buf) + k * unat (dlt_step_size buf))"

lemma can_grow_step:
  assumes "same_limits buf buf'" "unat (dlt_size buf') = unat (dlt_size buf) + unat (dlt_step_size buf)"
    and "unat (dlt_size buf) < n"
  shows "can_grow buf' n \<longleftrightarrow> can_grow buf n"
proof -
  have "can_grow buf' n \<longleftrightarrow> (\<exists>k. unat (dlt_size buf) + Suc k * unat (dlt_step_size buf) + sizeof_head \<le> unat (dlt_max_size buf)
     \<and> n \<le> unat (dlt_size buf) + Suc k * unat (dlt_step_size buf))"
    using assms(1,2) by (simp add: can_grow_def same_limits_def algebra_simps)
  also have "\<dots> \<longleftrightarrow> can_grow buf n"
    unfolding can_grow_def using assms(3) by (metis add.right_neutral mult_zero_left not0_implies_Suc not_less)
  finally show ?thesis .
qed

lemma can_grow_stuck:
  assumes "unat (dlt_size buf) < n" "dlt_step_size buf = 0
    \<or> unat (dlt_max_size buf) < unat (dlt_size buf) + sizeof_head + unat (dlt_step_size buf)"
  shows "\<not> can_grow buf n"
proof
  assume "can_grow buf n"
  then obtain k where k: "unat (dlt_size buf) + k * unat (dlt_step_size buf) + sizeof_head \<le> unat (dlt_max_size buf)"
    "n \<le> unat (dlt_size buf) + k * unat (dlt_step_size buf)" by (auto simp: can_grow_def)
  then obtain j where "k = Suc j" using assms(1) by (cases k) simp_all
  then show False using k assms by auto
qed

lemma push_grow_raw:
  assumes "raw_holds buf count bs" "bs \<noteq> [] \<or> n \<le> unat (dlt_size buf)" "n < 2 ^ 31"
  shows "\<exists>fits buf'. push_grow env (of_nat n) count buf = Ok (fits, buf') \<and> raw_holds buf' count bs
    \<and> same_limits buf buf' \<and> (fits \<longrightarrow> length bs + n \<le> unat (dlt_size buf'))
    \<and> ((\<forall>n. malloc env n \<noteq> None) \<longrightarrow> fits = can_grow buf (length bs + n))"
  using assms
proof (induction "unat (dlt_max_size buf) - unat (dlt_size buf)" arbitrary: buf rule: less_induct)
  case less
  obtain h where h: "dlt_shm buf = Some h" "unat (dlt_size buf) < 2 ^ 31"
    "ends_at (unat (dlt_size buf)) (unat (head_read h)) (head_write h, shm_mem h) bs" "head_count h = count"
    "if bs = [] then count = 0 else count \<noteq> 0 \<or> head_write h \<noteq> head_read h"
    using less.prems(1) by (rule raw_holdsE)
  have n: "sint (of_nat n :: u32) = int n" using less.prems(3) unat_u32 [of n] by (subst sint_small) simp_all
  have free: "sint (free_size_of (dlt_size buf) (head_write h) (head_read h) count) < sint (of_nat n :: u32)
      \<longleftrightarrow> \<not> length bs + n \<le> unat (dlt_size buf)"
    unfolding free_size_ends_at [OF h(3,2,5)] n of_nat_less_iff using ends_at_words(9) [OF h(3,2)] by auto
  show ?case
  proof (cases "length bs + n \<le> unat (dlt_size buf)")
    case True
    then have "push_grow env (of_nat n) count buf = Ok (True, buf)"
      by (subst push_grow.simps) (simp add: h(1) free)
    moreover have "can_grow buf (length bs + n)"
      unfolding can_grow_def using True less.prems(1) by (intro exI [of _ 0]) (simp add: raw_holds_def dlt_limits_def)
    ultimately show ?thesis using True less.prems(1) by auto
  next
    case False
    have step: "push_grow env (of_nat n) count buf = (case dlt_buffer_increase_size env buf of
         Ok (r, buf') \<Rightarrow> if r = DLT_RETURN_OK then push_grow env (of_nat n) count buf' else Ok (False, buf')
       | _ \<Rightarrow> Undefined)"
      using False by (subst push_grow.simps) (simp add: h(1) free)
    have ne: "bs \<noteq> []" using False less.prems(2) by auto
    from increase_size_raw [OF less.prems(1) ne, of env] consider
      buf' where "dlt_buffer_increase_size env buf = Ok (DLT_RETURN_OK, buf')" "raw_holds buf' count bs"
        "same_limits buf buf'" "unat (dlt_size buf') = unat (dlt_size buf) + unat (dlt_step_size buf)"
      | "dlt_buffer_increase_size env buf = Ok (DLT_RETURN_ERROR, buf)"
        "(\<forall>n. malloc env n \<noteq> None) \<longrightarrow> dlt_step_size buf = 0
          \<or> unat (dlt_max_size buf) < unat (dlt_size buf) + sizeof_head + unat (dlt_step_size buf)" by blast
    then show ?thesis
    proof cases
      case 1
      from less.hyps [OF increase_size_nearer [OF 1(1)] 1(2) _ less.prems(3)] ne obtain fits buf2 where
        "push_grow env (of_nat n) count buf' = Ok (fits, buf2)" "raw_holds buf2 count bs" "same_limits buf' buf2"
        "fits \<longrightarrow> length bs + n \<le> unat (dlt_size buf2)"
        "(\<forall>n. malloc env n \<noteq> None) \<longrightarrow> fits = can_grow buf' (length bs + n)" by blast
      then show ?thesis
        using step 1 same_limits_trans [OF 1(3)] can_grow_step [OF 1(3,4), of "length bs + n"] False by simp
    next
      case 2
      then show ?thesis using step less.prems(1) can_grow_stuck [of buf "length bs + n"] False
        by (auto simp: dlt_return_defs)
    qed
  qed
qed

text \<open>A message is appended to the bytes behind its block head, or the bytes stay as they are.\<close>

definition message_block :: "c_platform \<Rightarrow> bytes \<Rightarrow> bytes" where
  "message_block env m = block_head_bytes (padding env) (of_nat (length m)) @ m"

lemma message_block_simps [simp]: "length (message_block env m) = 12 + length m" "message_block env m \<noteq> []"
proof -
  show "length (message_block env m) = 12 + length m" by (simp add: message_block_def)
  then show "message_block env m \<noteq> []" by (metis add_is_0 list.size(3) zero_neq_numeral)
qed

lemma write_message_raw:
  assumes "raw_holds buf count bs" "dlt_shm buf = Some h" "count + 1 \<noteq> 0"
    and "length bs + 12 + length d1 + length d2 + length d3 \<le> unat (dlt_size buf)"
  obtains w mem where "write_message env (Some d1) (of_nat (length d1)) (Some d2) (of_nat (length d2))
      (Some d3) (of_nat (length d3)) (dlt_size buf) (head_write h, shm_mem h) = Ok (w, mem)"
    "raw_holds (buf\<lparr>dlt_shm := Some (h\<lparr>head_write := w, head_count := head_count h + 1, shm_mem := mem\<rparr>)\<rparr>)
      (count + 1) (bs @ message_block env (d1 @ d2 @ d3))"
proof -
  have h: "unat (dlt_size buf) < 2 ^ 31" "ends_at (unat (dlt_size buf)) (unat (head_read h)) (head_write h, shm_mem h) bs"
    "head_count h = count" "dlt_limits buf" using assms(1,2) by (auto simp: raw_holds_def dlt_limits_def)
  obtain s where s: "write_message env (Some d1) (of_nat (length d1)) (Some d2) (of_nat (length d2))
      (Some d3) (of_nat (length d3)) (dlt_size buf) (head_write h, shm_mem h) = Ok s"
    "ends_at (unat (dlt_size buf)) (unat (head_read h)) s (bs @ message_block env (d1 @ d2 @ d3))"
    using write_message_appends [OF h(2,1) assms(4), of env] by (auto simp: message_block_def)
  obtain w mem where "s = (w, mem)" by (cases s)
  then show thesis using that [of w mem] s h(3,4) assms(3) by (simp add: raw_holds_def dlt_limits_def)
qed

lemma push3_raw:
  assumes "raw_holds buf count bs" "bs \<noteq> [] \<or> 12 + length d1 + length d2 + length d3 \<le> unat (dlt_size buf)"
    and "12 + length d1 + length d2 + length d3 < 2 ^ 31" "count + 1 \<noteq> 0"
  obtains r buf' where "dlt_buffer_push3 env (Some d1) (of_nat (length d1)) (Some d2) (of_nat (length d2))
        (Some d3) (of_nat (length d3)) buf = Ok (r, buf')"
    "r = DLT_RETURN_OK \<and> raw_holds buf' (count + 1) (bs @ message_block env (d1 @ d2 @ d3))
      \<or> r = DLT_RETURN_ERROR \<and> raw_holds buf' count bs"
    "same_limits buf buf'"
    "(\<forall>n. malloc env n \<noteq> None) \<longrightarrow> (r = DLT_RETURN_OK \<longleftrightarrow> can_grow buf (length bs + 12 + length (d1 @ d2 @ d3)))"
proof -
  let ?n = "12 + length (d1 @ d2 @ d3)"
  obtain h where h: "dlt_shm buf = Some h" "unat (dlt_size buf) < 2 ^ 31"
    "ends_at (unat (dlt_size buf)) (unat (head_read h)) (head_write h, shm_mem h) bs" "head_count h = count"
    using assms(1) by (rule raw_holdsE)
  note e = ends_at_words [OF h(3,2)]
  have needed: "sizeof_block_head + unat (of_nat (length d1) :: u32) + unat (of_nat (length d2) :: u32)
      + unat (of_nat (length d3) :: u32) = ?n" using assms(3) by (simp add: sizeof_block_head_def unat_u32)
  from push_grow_raw [OF assms(1), of ?n env] assms(2,3) obtain fits buf1 where
    g: "push_grow env (of_nat ?n) count buf = Ok (fits, buf1)" "raw_holds buf1 count bs" "same_limits buf buf1"
    "fits \<longrightarrow> length bs + ?n \<le> unat (dlt_size buf1)" "(\<forall>n. malloc env n \<noteq> None) \<longrightarrow> fits = can_grow buf (length bs + ?n)"
    by (auto simp: add.assoc)
  obtain h1 where h1: "dlt_shm buf1 = Some h1" using g(2) by (rule raw_holdsE)
  note push = dlt_buffer_push3_def [where env = env and buf = buf and ?size1.0 = "of_nat (length d1)" and ?size2.0 = "of_nat (length d2)"
      and ?size3.0 = "of_nat (length d3)", unfolded needed h(1) option.case h(4) g(1)]
  show thesis
  proof (cases fits)
    case False
    then show thesis using g e(3,4) by (intro that [of DLT_RETURN_ERROR buf1]) (simp_all add: push dlt_return_defs add.assoc)
  next
    case True
    have "length bs + 12 + length d1 + length d2 + length d3 \<le> unat (dlt_size buf1)" using True g(4) by simp
    from write_message_raw [OF g(2) h1 assms(4) this, of env] obtain w mem where
      m: "write_message env (Some d1) (of_nat (length d1)) (Some d2) (of_nat (length d2))
        (Some d3) (of_nat (length d3)) (dlt_size buf1) (head_write h1, shm_mem h1) = Ok (w, mem)"
      "raw_holds (buf1\<lparr>dlt_shm := Some (h1\<lparr>head_write := w, head_count := head_count h1 + 1, shm_mem := mem\<rparr>)\<rparr>)
        (count + 1) (bs @ message_block env (d1 @ d2 @ d3))" .
    show thesis
      by (rule that [of DLT_RETURN_OK "buf1\<lparr>dlt_shm := Some (h1\<lparr>head_write := w, head_count := head_count h1 + 1, shm_mem := mem\<rparr>)\<rparr>"])
        (use True g(3,5) m e(3,4) h1 in \<open>simp_all add: push same_limits_def add.assoc\<close>)
  qed
qed

section \<open>The messages in a buffer\<close>

fun stored :: "bytes list \<Rightarrow> bytes \<Rightarrow> bool" where
  "stored [] s \<longleftrightarrow> s = []"
| "stored (m # ms) s \<longleftrightarrow> (\<exists>pad s'. s = block_head_bytes pad (of_nat (length m)) @ m @ s' \<and> stored ms s')"

definition used :: "bytes list \<Rightarrow> nat" where
  "used ms = (\<Sum>m\<leftarrow>ms. sizeof_block_head + length m)"

definition dlt_holds :: "dlt_buffer \<Rightarrow> bytes list \<Rightarrow> bool" where
  "dlt_holds buf ms \<longleftrightarrow> (\<exists>bs. raw_holds buf (of_nat (length ms)) bs \<and> stored ms bs)"

lemma used_simps [simp]: "used [] = 0" "used (m # ms) = 12 + length m + used ms" "used (ms @ ms') = used ms + used ms'"
  by (simp_all add: used_def sizeof_block_head_def)

lemma stored_length: "stored ms s \<Longrightarrow> length s = used ms"
  by (induction ms arbitrary: s) auto

lemma length_le_used: "length ms \<le> used ms"
  by (induction ms) simp_all

lemma stored_empty: "stored ms s \<Longrightarrow> s = [] \<longleftrightarrow> ms = []"
  using stored_length [of ms s] length_le_used [of ms] by (metis le_zero_eq length_0_conv used_simps(1))

lemma stored_snoc: "stored ms s \<Longrightarrow> stored (ms @ [m]) (s @ message_block env m)"
proof (induction ms arbitrary: s)
  case (Cons a ms)
  then obtain p s' where s: "s = block_head_bytes p (of_nat (length a)) @ a @ s'" "stored ms s'" by auto
  then have "s @ message_block env m = block_head_bytes p (of_nat (length a)) @ a @ (s' @ message_block env m)" by simp
  then show ?case using Cons.IH [OF s(2)] by (metis append_Cons stored.simps(2))
next
  case Nil
  then have "s @ message_block env m = block_head_bytes (padding env) (of_nat (length m)) @ m @ []"
    by (simp add: message_block_def)
  then show ?case by (metis append_Nil stored.simps)
qed

lemma stored_count:
  assumes "raw_holds buf (of_nat (length ms)) bs" "stored ms bs"
  shows "length ms < 2 ^ 31" "unat (of_nat (length ms) :: u32) = length ms" "(of_nat (length ms) :: u32) = 0 \<longleftrightarrow> ms = []"
    "\<not> sint (of_nat (length ms) :: u32) < 0" "(of_nat (length ms) :: u32) + 1 \<noteq> 0"
proof -
  obtain h where h: "dlt_shm buf = Some h" "unat (dlt_size buf) < 2 ^ 31" "ends_at (unat (dlt_size buf)) (unat (head_read h)) (head_write h, shm_mem h) bs"
    using assms(1) by (rule raw_holdsE)
  show l: "length ms < 2 ^ 31" using ends_at_words(9) [OF h(3,2)] stored_length [OF assms(2)] length_le_used [of ms] h(2) by simp
  then show c: "unat (of_nat (length ms) :: u32) = length ms" by (simp add: unat_u32)
  then show "(of_nat (length ms) :: u32) = 0 \<longleftrightarrow> ms = []" by (metis length_0_conv unat_eq_zero)
  show "\<not> sint (of_nat (length ms) :: u32) < 0" using sint_small [of "of_nat (length ms)"] c l by simp
  have "unat ((of_nat (length ms) :: u32) + 1) = length ms + 1" using l c by (subst unat_plus_small) simp_all
  then show "(of_nat (length ms) :: u32) + 1 \<noteq> 0" by (metis Suc_eq_plus1 nat.distinct(1) unat_0)
qed

lemma push3_holds:
  assumes "dlt_holds buf ms" "ms \<noteq> [] \<or> 12 + length d1 + length d2 + length d3 \<le> unat (dlt_size buf)"
    and "12 + length d1 + length d2 + length d3 < 2 ^ 31"
  obtains r buf' where "dlt_buffer_push3 env (Some d1) (of_nat (length d1)) (Some d2) (of_nat (length d2))
        (Some d3) (of_nat (length d3)) buf = Ok (r, buf')"
    "r = DLT_RETURN_OK \<and> dlt_holds buf' (ms @ [d1 @ d2 @ d3]) \<or> r = DLT_RETURN_ERROR \<and> dlt_holds buf' ms"
    "same_limits buf buf'"
    "(\<forall>n. malloc env n \<noteq> None) \<longrightarrow> (r = DLT_RETURN_OK \<longleftrightarrow> can_grow buf (used (ms @ [d1 @ d2 @ d3])))"
proof -
  obtain bs where bs: "raw_holds buf (of_nat (length ms)) bs" "stored ms bs" using assms(1) by (auto simp: dlt_holds_def)
  obtain r buf' where r: "dlt_buffer_push3 env (Some d1) (of_nat (length d1)) (Some d2) (of_nat (length d2))
        (Some d3) (of_nat (length d3)) buf = Ok (r, buf')"
    "r = DLT_RETURN_OK \<and> raw_holds buf' (of_nat (length ms) + 1) (bs @ message_block env (d1 @ d2 @ d3))
      \<or> r = DLT_RETURN_ERROR \<and> raw_holds buf' (of_nat (length ms)) bs" "same_limits buf buf'"
    "(\<forall>n. malloc env n \<noteq> None) \<longrightarrow> (r = DLT_RETURN_OK \<longleftrightarrow> can_grow buf (length bs + 12 + length (d1 @ d2 @ d3)))"
    by (rule push3_raw [OF bs(1) _ assms(3) stored_count(5) [OF bs], of env]) (use assms(2) stored_empty [OF bs(2)] in auto)
  have "(of_nat (length ms) :: u32) + 1 = of_nat (length (ms @ [d1 @ d2 @ d3]))" by simp
  then have "r = DLT_RETURN_OK \<and> dlt_holds buf' (ms @ [d1 @ d2 @ d3]) \<or> r = DLT_RETURN_ERROR \<and> dlt_holds buf' ms"
    using r(2) bs(2) stored_snoc [OF bs(2), of "d1 @ d2 @ d3" env] unfolding dlt_holds_def by metis
  moreover have "length bs + 12 + length (d1 @ d2 @ d3) = used (ms @ [d1 @ d2 @ d3])" using stored_length [OF bs(2)] by simp
  ultimately show thesis using that r(1,3,4) by metis
qed

end
