(* ===== verification/Dlt_Fifo.thy ===== *)
theory Dlt_Fifo
  imports Dlt_Queue
begin

text \<open>
  Taking messages out of the ring buffer, and the buffer as a first-in first-out store: every message
  that was accepted is delivered once, in the order in which it was stored. The exception is a message
  that does not fit into an empty buffer: the buffer is enlarged as if it were full, and the message
  is lost.
\<close>

section \<open>The first message\<close>

lemma ends_at_append:
  assumes "ends_at s r (w, mem) (a @ b)"
  shows "ring mem r (length a) = a" "ends_at s (ring_next s r (length a)) (w, mem) b"
proof -
  have e: "length mem = s" "r \<le> s" "length a + length b \<le> s" "unat w = ring_next s r (length a + length b)"
    "ring mem r (length a + length b) = a @ b" using assms by (simp_all add: ends_at_def)
  then have n: "ring_next s r (length a) \<le> s" by (simp add: ring_next_le)
  have "ring mem r (length a) @ ring mem (ring_next s r (length a)) (length b) = a @ b"
    using e ring_append [of r mem "length a" "length b"] by simp
  then have ab: "ring mem r (length a) = a" "ring mem (ring_next s r (length a)) (length b) = b"
    using e n by simp_all
  then show "ring mem r (length a) = a" "ends_at s (ring_next s r (length a)) (w, mem) b"
    using e n ring_next_add [of r s "length a" "length b"] by (simp_all add: ends_at_def)
qed

lemma dlt_holdsE:
  assumes "dlt_holds buf ms"
  obtains h bs where "dlt_shm buf = Some h" "unat (dlt_size buf) < 2 ^ 31" "dlt_limits buf"
    "ends_at (unat (dlt_size buf)) (unat (head_read h)) (head_write h, shm_mem h) bs" "stored ms bs"
    "head_count h = of_nat (length ms)" "raw_holds buf (of_nat (length ms)) bs"
proof -
  obtain bs where bs: "raw_holds buf (of_nat (length ms)) bs" "stored ms bs" using assms by (auto simp: dlt_holds_def)
  have lim: "dlt_limits buf" using bs(1) by (simp add: raw_holds_def)
  from bs(1) show thesis by (rule raw_holdsE) (rule that [OF _ _ lim _ bs(2) _ bs(1)])
qed

lemma block_size_head: "block_size (block_head_bytes pad n) = n"
  by (cases pad) (simp add: block_size_def block_head_bytes_def)

lemma block_head_checks: "take 4 (block_head_bytes pad n) = [0x53, 0x48, 0x4D, 0]" "block_head_bytes pad n ! 4 = 2"
  by (cases pad; simp add: block_head_bytes_def)+

text \<open>On a buffer with a message, every check of \<open>dlt_buffer_get\<close> passes.\<close>

lemma get_first:
  assumes "dlt_holds buf (m # ms)"
  obtains h rest r1 where "dlt_shm buf = Some h" "unat (dlt_size buf) < 2 ^ 31" "dlt_limits buf"
    "head_count h = of_nat (length (m # ms))" "stored ms rest"
    "ends_at (unat (dlt_size buf)) (unat r1) (head_write h, shm_mem h) (m @ rest)" "sint (of_nat (length m) :: u32) = int (length m)"
    "\<And>data max_size delete. dlt_buffer_get env data max_size delete buf = get_block env data max_size delete r1 (of_nat (length m)) h buf"
proof -
  obtain h bs where h: "dlt_shm buf = Some h" "unat (dlt_size buf) < 2 ^ 31" "dlt_limits buf"
    "ends_at (unat (dlt_size buf)) (unat (head_read h)) (head_write h, shm_mem h) bs" "stored (m # ms) bs"
    "head_count h = of_nat (length (m # ms))" "raw_holds buf (of_nat (length (m # ms))) bs" using assms by (rule dlt_holdsE)
  note e = ends_at_words [OF h(4,2)] and c = stored_count [OF h(7,5)]
  obtain pad rest where bs: "bs = block_head_bytes pad (of_nat (length m)) @ m @ rest" "stored ms rest" using h(5) by auto
  note split = ends_at_append [OF h(4) [unfolded bs(1)], unfolded length_block_head_bytes]
  have l: "12 + length m + length rest \<le> unat (dlt_size buf)" using e(9) by (simp add: bs)
  have m: "sint (of_nat (length m) :: u32) = int (length m)" using l h(2) unat_u32 [of "length m"] by (subst sint_small) simp_all
  have used: "sint (used_size_of (dlt_size buf) (head_write h) (head_read h)) = int (12 + length m + length rest)"
    using used_size_ends_at [OF h(4,2)] stored_empty [OF h(5)] by (simp add: bs(1))
  obtain r1 where r1: "dlt_buffer_read_block (dlt_size buf) (shm_mem h) (head_read h) (Some (replicate 12 0)) 12
      = Ok (r1, Some (block_head_bytes pad (of_nat (length m))))" "unat r1 = ring_next (unat (dlt_size buf)) (unat (head_read h)) 12"
    by (rule read_block_ring [OF e(8) h(2) e(1), of 12 "replicate 12 0"]) (use l split(1) in \<open>simp_all add: word_le_nat_alt\<close>)
  have "int 12 + int (length m) < 2 ^ 31" using l h(2) by simp
  then have "dlt_buffer_get env data max_size delete buf = get_block env data max_size delete r1 (of_nat (length m)) h buf"
    for data max_size delete using e(3,4) c(3,4)
    by (simp add: dlt_buffer_get_def h(1,6) Let_def used sizeof_block_head_def r1(1) block_head_checks block_size_head m del: of_nat_Suc)
  then show thesis using that h(1-3,6) bs(2) split(2) m r1(2) by metis
qed

lemma minimize_size_holds:
  assumes "dlt_holds buf []"
  obtains r buf' where "dlt_buffer_minimize_size env buf = Ok (r, buf')" "dlt_holds buf' []" "same_limits buf buf'"
proof (cases "unat (dlt_size buf) + sizeof_head = unat (dlt_min_size buf) \<or> malloc env (unat (dlt_min_size buf)) = None")
  case True
  then have "\<exists>r. dlt_buffer_minimize_size env buf = Ok (r, buf)" by (auto simp: dlt_buffer_minimize_size_def)
  then show thesis using that assms by auto
next
  case False
  let ?n = "dlt_min_size buf - of_nat sizeof_head"
  let ?b = "buf\<lparr>dlt_size := ?n, dlt_shm := Some (new_shm (replicate (unat ?n) 0))\<rparr>"
  have lim: "dlt_limits buf" using assms by (rule dlt_holdsE)
  then have n: "unat ?n = unat (dlt_min_size buf) - 12"
    by (subst unat_minus_small) (simp_all add: dlt_limits_def sizeof_head_def)
  have "dlt_holds ?b []" using lim n
    by (simp add: dlt_holds_def raw_holds_def dlt_limits_def new_shm_def ends_at_def ring_def ring_next_def sizeof_head_def)
  moreover have "dlt_buffer_minimize_size env buf = Ok (DLT_RETURN_OK, ?b)"
    using False lim by (auto simp: dlt_buffer_minimize_size_def dlt_limits_def Let_def)
  ultimately show thesis using that by (simp add: same_limits_def)
qed

lemma take_out_holds:
  assumes "dlt_holds buf (m # ms)" "dlt_shm buf = Some h" "dlt_limits buf" "head_count h = of_nat (length (m # ms))"
    and "ends_at (unat (dlt_size buf)) (unat r2) (head_write h, shm_mem h) rest" "stored ms rest" "sint sz = int (length m)"
  obtains buf' where "take_out env delete sz data (if delete then h\<lparr>head_read := r2\<rparr> else h) buf = Ok (int (length m), data, buf')"
    "dlt_holds buf' (if delete then ms else m # ms)" "same_limits buf buf'" "\<not> delete \<longrightarrow> buf' = buf"
proof (cases delete)
  case True
  let ?b = "buf\<lparr>dlt_shm := Some (h\<lparr>head_read := r2, head_count := of_nat (length ms)\<rparr>)\<rparr>"
  have "length ms < 2 ^ 31" using assms(1) unfolding dlt_holds_def by (metis stored_count(1) Suc_lessD length_Cons)
  then have c: "unat (of_nat (length ms) :: u32) = length ms" by (simp add: unat_u32)
  then have zero: "(of_nat (length ms) :: u32) = 0 \<longleftrightarrow> ms = []" by (metis length_0_conv unat_eq_zero)
  have b: "dlt_holds ?b ms" using assms(3,5,6) zero stored_empty [OF assms(6)]
    by (auto simp: dlt_holds_def raw_holds_def dlt_limits_def)
  have out: "take_out env True sz data (h\<lparr>head_read := r2\<rparr>) buf = (if ms = [] then
      bind_r (dlt_buffer_minimize_size env ?b) (\<lambda>(_, buf2). Ok (sint sz, data, buf2)) else Ok (sint sz, data, ?b))"
    using zero assms(4) by (simp add: take_out_def Let_def)
  show thesis
  proof (cases "ms = []")
    case empty: True
    obtain r buf' where "dlt_buffer_minimize_size env ?b = Ok (r, buf')" "dlt_holds buf' []" "same_limits ?b buf'"
      using b [unfolded empty] by (rule minimize_size_holds) (simp add: empty)
    then show thesis using that [of buf'] True empty out assms(7) by (simp add: same_limits_def)
  next
    case False
    then show thesis using that [of ?b] True b out assms(7) by (simp add: same_limits_def)
  qed
next
  case False
  then show thesis using that [of buf] assms(1,7) by (simp add: take_out_def)
qed

section \<open>What \<open>dlt_buffer_get\<close> returns\<close>

text \<open>With room for the message it is copied to the front of the given memory.\<close>

lemma get_data_holds:
  assumes "dlt_holds buf (m # ms)" "max_size \<noteq> 0" "length m \<le> length dst"
  obtains buf' where "dlt_buffer_get env (Some dst) max_size delete buf = Ok (int (length m), Some (m @ drop (length m) dst), buf')"
    "dlt_holds buf' (if delete then ms else m # ms)" "same_limits buf buf'" "\<not> delete \<longrightarrow> buf' = buf"
proof -
  let ?n = "of_nat (length m) :: u32"
  obtain h rest r1 where h: "dlt_shm buf = Some h" "unat (dlt_size buf) < 2 ^ 31" "dlt_limits buf"
    "head_count h = of_nat (length (m # ms))" "stored ms rest"
    "ends_at (unat (dlt_size buf)) (unat r1) (head_write h, shm_mem h) (m @ rest)" "sint ?n = int (length m)"
    "\<And>data max_size delete. dlt_buffer_get env data max_size delete buf = get_block env data max_size delete r1 ?n h buf"
    using assms(1) by (rule get_first [where env = env]) blast
  note e = ends_at_words [OF h(6,2)] and split = ends_at_append [OF h(6)]
  have n: "unat ?n = length m" using e(9) h(2) by (intro unat_u32) simp
  obtain r2 where r2: "dlt_buffer_read_block (dlt_size buf) (shm_mem h) r1 (Some dst) ?n = Ok (r2, Some (m @ drop (length m) dst))"
    "unat r2 = ring_next (unat (dlt_size buf)) (unat r1) (length m)"
    by (rule read_block_ring [OF e(8) h(2) e(1), of ?n dst]) (use n e(9) assms(3) split(1) in \<open>simp_all add: word_le_nat_alt\<close>)
  obtain buf' where "take_out env delete ?n (Some (m @ drop (length m) dst)) (if delete then h\<lparr>head_read := r2\<rparr> else h) buf
      = Ok (int (length m), Some (m @ drop (length m) dst), buf')"
    "dlt_holds buf' (if delete then ms else m # ms)" "same_limits buf buf'" "\<not> delete \<longrightarrow> buf' = buf"
    using assms(1) h(1,3,4) split(2) [folded r2(2)] h(5,7) by (rule take_out_holds)
  then show thesis using that [of buf'] assms(2) r2(1) by (simp add: h(8) get_block_def)
qed

text \<open>Without a place for the data, or with \<open>max_size\<close> zero, only the length is returned.\<close>

lemma get_length_holds:
  assumes "dlt_holds buf (m # ms)" "data = None \<or> max_size = 0"
  obtains buf' where "dlt_buffer_get env data max_size delete buf = Ok (int (length m), data, buf')"
    "dlt_holds buf' (if delete then ms else m # ms)" "same_limits buf buf'" "\<not> delete \<longrightarrow> buf' = buf"
proof -
  let ?n = "of_nat (length m) :: u32"
  obtain h rest r1 where h: "dlt_shm buf = Some h" "unat (dlt_size buf) < 2 ^ 31" "dlt_limits buf"
    "head_count h = of_nat (length (m # ms))" "stored ms rest"
    "ends_at (unat (dlt_size buf)) (unat r1) (head_write h, shm_mem h) (m @ rest)" "sint ?n = int (length m)"
    "\<And>data max_size delete. dlt_buffer_get env data max_size delete buf = get_block env data max_size delete r1 ?n h buf"
    using assms(1) by (rule get_first [where env = env]) blast
  note e = ends_at_words [OF h(6,2)] and split = ends_at_append [OF h(6)]
  have n: "unat ?n = length m" using e(9) h(2) by (intro unat_u32) simp
  have sum: "unat (r1 + ?n) = unat r1 + length m" using e(1,9) n h(2) by (subst unat_plus_small) simp_all
  define r2 where "r2 = (if r1 + ?n \<le> dlt_size buf then r1 + ?n else r1 + ?n - dlt_size buf)"
  have r2: "unat r2 = ring_next (unat (dlt_size buf)) (unat r1) (length m)"
    using sum by (simp add: r2_def ring_next_def word_le_nat_alt unat_minus_small)
  obtain buf' where "take_out env delete ?n data (if delete then h\<lparr>head_read := r2\<rparr> else h) buf = Ok (int (length m), data, buf')"
    "dlt_holds buf' (if delete then ms else m # ms)" "same_limits buf buf'" "\<not> delete \<longrightarrow> buf' = buf"
    using assms(1) h(1,3,4) split(2) [folded r2] h(5,7) by (rule take_out_holds)
  moreover have "dlt_buffer_get env data max_size delete buf
      = take_out env delete ?n data (if delete then h\<lparr>head_read := r2\<rparr> else h) buf"
    unfolding h(8) get_block_def r2_def using assms(2) by auto
  ultimately show thesis using that [of buf'] by simp
qed

text \<open>The copy does not look at \<open>max_size\<close>: it leaves a place that is too small.\<close>

lemma read_block_overflow:
  assumes "length mem = unat sz" "unat sz < 2 ^ 31" "unat r \<le> unat sz" "n \<le> sz" "length dst < unat n"
  shows "dlt_buffer_read_block sz mem r (Some dst) n = Undefined"
proof -
  have n: "unat n \<le> unat sz" using assms(4) by (simp add: word_le_nat_alt)
  have r: "sint r = int (unat r)" using assms by (intro sint_small) simp
  have sum: "unat (r + n) = unat r + unat n" using assms n by (intro unat_plus_small) simp
  show ?thesis
  proof (cases "unat r + unat n \<le> unat sz")
    case True
    then show ?thesis using assms sum by (simp add: dlt_buffer_read_block_def word_le_nat_alt memcpy_def ptr_read_def ptr_write_def r nat_uint_eq)
  next
    case False
    obtain k where k: "unat sz = k + unat r" using assms(3) le_add_diff_inverse2 by metis
    have "n - sz + r = r + n - sz" by simp
    then have l: "unat (n - sz + r) = unat r + unat n - unat sz" using False sum by (simp only:) (simp add: unat_minus_small)
    have "unat (sz - r) = k" using k by (simp add: unat_minus_small)
    moreover have "uint sz - sint r = int k" unfolding r uint_nat k by simp
    ultimately show ?thesis using assms sum False l k
      by (simp add: dlt_buffer_read_block_def word_le_nat_alt memcpy_def ptr_read_def ptr_write_def r nat_uint_eq)
  qed
qed

lemma get_overflow:
  assumes "dlt_holds buf (m # ms)" "max_size \<noteq> 0" "length dst < length m"
  shows "dlt_buffer_get env (Some dst) max_size delete buf = Undefined"
proof -
  let ?n = "of_nat (length m) :: u32"
  obtain h rest r1 where h: "dlt_shm buf = Some h" "unat (dlt_size buf) < 2 ^ 31" "dlt_limits buf"
    "head_count h = of_nat (length (m # ms))" "stored ms rest"
    "ends_at (unat (dlt_size buf)) (unat r1) (head_write h, shm_mem h) (m @ rest)" "sint ?n = int (length m)"
    "\<And>data max_size delete. dlt_buffer_get env data max_size delete buf = get_block env data max_size delete r1 ?n h buf"
    using assms(1) by (rule get_first [where env = env]) blast
  note e = ends_at_words [OF h(6,2)]
  have n: "unat ?n = length m" using e(9) h(2) by (intro unat_u32) simp
  have "dlt_buffer_read_block (dlt_size buf) (shm_mem h) r1 (Some dst) ?n = Undefined"
    by (rule read_block_overflow [OF e(8) h(2) e(1)]) (use n e(9) assms(3) in \<open>simp_all add: word_le_nat_alt\<close>)
  then show ?thesis using assms(2) by (simp add: h(8) get_block_def)
qed

lemma get_empty:
  assumes "dlt_holds buf []"
  shows "dlt_buffer_get env data max_size delete buf = Ok (DLT_RETURN_ERROR, data, buf)"
proof -
  obtain h bs where h: "dlt_shm buf = Some h" "unat (dlt_size buf) < 2 ^ 31" "dlt_limits buf"
    "ends_at (unat (dlt_size buf)) (unat (head_read h)) (head_write h, shm_mem h) bs" "stored [] bs"
    "head_count h = of_nat (length ([] :: bytes list))" using assms by (rule dlt_holdsE)
  note e = ends_at_words [OF h(4,2)]
  have "head_write h = head_read h" using e(1,7) h(5) by (simp add: ring_next_def word_unat_eq_iff)
  then show ?thesis using e(3,4) h(1,6) by (simp add: dlt_buffer_get_def Let_def)
qed

section \<open>New and cleared buffers\<close>

lemma new_shm_holds:
  assumes "dlt_limits buf" "dlt_shm buf = Some (new_shm mem)" "length mem = unat (dlt_size buf)"
  shows "dlt_holds buf []"
  using assms by (simp add: dlt_holds_def raw_holds_def ends_at_def new_shm_def ring_def ring_next_def)

lemma init_dynamic_holds:
  assumes "dlt_buffer_init_dynamic env lo hi step b0 = Ok (DLT_RETURN_OK, b)" "unat hi < 2 ^ 31"
  shows "dlt_holds b []" "dlt_min_size b = lo" "dlt_max_size b = hi" "dlt_step_size b = step" "step \<noteq> 0"
    "unat (dlt_size b) = unat lo - 12" "12 \<le> unat lo" "dlt_shm b = Some (new_shm (replicate (unat (dlt_size b)) 0))"
proof -
  have lo: "lo \<le> hi" "step \<noteq> 0" "12 \<le> unat lo"
    and b: "b = b0\<lparr>dlt_min_size := lo, dlt_max_size := hi, dlt_step_size := step,
      dlt_shm := Some (new_shm (replicate (unat (lo - 12)) 0)), dlt_size := lo - 12\<rparr>"
    using assms(1) by (auto simp: dlt_buffer_init_dynamic_def dlt_return_defs Let_def sizeof_head_def
        split: if_splits option.splits)
  then show "dlt_min_size b = lo" "dlt_max_size b = hi" "dlt_step_size b = step" "step \<noteq> 0" "12 \<le> unat lo"
    "dlt_shm b = Some (new_shm (replicate (unat (dlt_size b)) 0))" by simp_all
  show size: "unat (dlt_size b) = unat lo - 12" unfolding b using lo(3) by (simp add: unat_minus_small)
  have "dlt_limits b" using lo assms(2) size unfolding dlt_limits_def b by (simp add: sizeof_head_def word_le_nat_alt)
  then show "dlt_holds b []" by (rule new_shm_holds [of _ "replicate (unat (dlt_size b)) 0"]) (simp_all add: b)
qed

lemma reset_holds:
  assumes "dlt_limits buf" "dlt_shm buf = Some h" "length (shm_mem h) = unat (dlt_size buf)"
  obtains buf' where "dlt_buffer_reset buf = Ok (DLT_RETURN_OK, buf')" "dlt_holds buf' []" "same_limits buf buf'"
proof -
  let ?b = "buf\<lparr>dlt_shm := Some (new_shm (replicate (unat (dlt_size buf)) 0))\<rparr>"
  have "dlt_buffer_reset buf = Ok (DLT_RETURN_OK, ?b)"
    using assms by (simp add: dlt_buffer_reset_def memset0_def ptr_write_def)
  moreover have "dlt_holds ?b []" using assms(1)
    by (intro new_shm_holds [of _ "replicate (unat (dlt_size buf)) 0"]) (simp_all add: dlt_limits_def)
  ultimately show thesis using that by (simp add: same_limits_def)
qed

section \<open>Storing and taking out\<close>

definition plain_platform :: c_platform where
  "plain_platform = \<lparr>malloc = (\<lambda>n. Some (\<lambda>i. 0)), padding = (0, 0, 0)\<rparr>"

definition sample_buffer :: dlt_buffer where
  "sample_buffer = \<lparr>dlt_shm = Some (new_shm (replicate 52 0)), dlt_size = 52, dlt_min_size = 64,
     dlt_max_size = 256, dlt_step_size = 64\<rparr>"

lemma sample_init: "dlt_buffer_init_dynamic plain_platform 64 256 64 b = Ok (DLT_RETURN_OK, sample_buffer)"
  by (simp add: dlt_buffer_init_dynamic_def plain_platform_def sample_buffer_def sizeof_head_def)

lemma sample_holds: "dlt_holds sample_buffer []"
  by (rule init_dynamic_holds(1) [OF sample_init]) simp

text \<open>
  [C21] Storing a message made of three parts into a buffer that holds the messages \<open>ms\<close>. The call returns,
  without undefined behaviour, either \<open>DLT_RETURN_OK\<close> with the message behind the others or
  \<open>DLT_RETURN_ERROR\<close> with the messages as they were, wherever the data wraps around the end and
  however often the buffer is enlarged. When no allocation fails it is accepted exactly when some number
  of enlargements within the maximum makes room for it. An empty buffer must already have room.
\<close>

theorem dlt_push3_correct:
  assumes "dlt_holds buf ms" "ms \<noteq> [] \<or> 12 + length (d1 @ d2 @ d3) \<le> unat (dlt_size buf)"
    and "12 + length (d1 @ d2 @ d3) < 2 ^ 31"
  shows "\<exists>r buf'. dlt_buffer_push3 env (Some d1) (of_nat (length d1)) (Some d2) (of_nat (length d2))
      (Some d3) (of_nat (length d3)) buf = Ok (r, buf')
    \<and> (r = DLT_RETURN_OK \<and> dlt_holds buf' (ms @ [d1 @ d2 @ d3]) \<or> r = DLT_RETURN_ERROR \<and> dlt_holds buf' ms)
    \<and> ((\<forall>n. malloc env n \<noteq> None) \<longrightarrow> (r = DLT_RETURN_OK \<longleftrightarrow>
        (\<exists>k. unat (dlt_size buf) + k * unat (dlt_step_size buf) + sizeof_head \<le> unat (dlt_max_size buf)
          \<and> used (ms @ [d1 @ d2 @ d3]) \<le> unat (dlt_size buf) + k * unat (dlt_step_size buf))))"
proof -
  have "12 + length d1 + length d2 + length d3 < 2 ^ 31" "ms \<noteq> [] \<or> 12 + length d1 + length d2 + length d3 \<le> unat (dlt_size buf)"
    using assms(2,3) by (simp_all add: add.assoc)
  from push3_holds [OF assms(1) this(2,1), of env] show ?thesis unfolding can_grow_def by metis
qed

theorem dlt_push3_correct_witness:
  "\<exists>r buf'. dlt_buffer_push3 plain_platform (Some [1, 2]) 2 (Some [3]) 1 (Some []) 0 sample_buffer = Ok (r, buf')
    \<and> (r = DLT_RETURN_OK \<and> dlt_holds buf' [[1, 2, 3]] \<or> r = DLT_RETURN_ERROR \<and> dlt_holds buf' [])"
proof -
  have "12 + length ([1, 2] @ [3] @ [] :: bytes) \<le> unat (dlt_size sample_buffer)" by (simp add: sample_buffer_def)
  then have "\<exists>r buf'. dlt_buffer_push3 plain_platform (Some [1, 2]) (of_nat (length [1, 2 :: byte])) (Some [3])
      (of_nat (length [3 :: byte])) (Some []) (of_nat (length ([] :: bytes))) sample_buffer = Ok (r, buf')
    \<and> (r = DLT_RETURN_OK \<and> dlt_holds buf' ([] @ [[1, 2] @ [3] @ []]) \<or> r = DLT_RETURN_ERROR \<and> dlt_holds buf' [])"
    using dlt_push3_correct [OF sample_holds, of "[1, 2]" "[3]" "[]" plain_platform] by auto
  then show ?thesis by simp
qed

text \<open>
  [C22] Taking out or looking at the first message of a buffer. With a place for at least as many bytes as the
  message has, its data is copied and its length returned; without a place, or with \<open>max_size\<close> zero,
  only the length is returned; with \<open>delete\<close> the other messages remain, in order, otherwise the
  buffer is unchanged. \<open>max_size\<close> is not respected: a place smaller than the message is overrun.
  An empty buffer gives an error and stays as it is.
\<close>

theorem dlt_get_correct:
  "(dlt_holds buf [] \<longrightarrow> dlt_buffer_get env data max_size delete buf = Ok (DLT_RETURN_ERROR, data, buf))
   \<and> (dlt_holds buf (m # ms) \<longrightarrow>
        (if data = None \<or> max_size = 0
         then \<exists>buf'. dlt_buffer_get env data max_size delete buf = Ok (int (length m), data, buf')
           \<and> (if delete then dlt_holds buf' ms else buf' = buf)
         else if length m \<le> length (the data)
         then \<exists>buf'. dlt_buffer_get env data max_size delete buf
             = Ok (int (length m), Some (m @ drop (length m) (the data)), buf')
           \<and> (if delete then dlt_holds buf' ms else buf' = buf)
         else dlt_buffer_get env data max_size delete buf = Undefined))"
proof (intro conjI impI)
  assume first: "dlt_holds buf (m # ms)"
  show "if data = None \<or> max_size = 0
         then \<exists>buf'. dlt_buffer_get env data max_size delete buf = Ok (int (length m), data, buf')
           \<and> (if delete then dlt_holds buf' ms else buf' = buf)
         else if length m \<le> length (the data)
         then \<exists>buf'. dlt_buffer_get env data max_size delete buf
             = Ok (int (length m), Some (m @ drop (length m) (the data)), buf')
           \<and> (if delete then dlt_holds buf' ms else buf' = buf)
         else dlt_buffer_get env data max_size delete buf = Undefined" (is "if ?none then ?A else if ?fits then ?B else ?C")
  proof (cases ?none)
    case True
    have ?A by (rule get_length_holds [OF first True, of env delete]) auto
    then show ?thesis using True by simp
  next
    case False
    then obtain dst where d: "data = Some dst" "max_size \<noteq> 0" by auto
    have ?B if ?fits by (rule get_data_holds [OF first d(2), of dst env delete]) (use that d(1) in auto)
    moreover have ?C if "\<not> ?fits" using get_overflow [OF first d(2), of dst env delete] that d(1) by simp
    ultimately have "if ?fits then ?B else ?C" by (cases ?fits) (simp_all only: if_True if_False simp_thms)
    then show ?thesis unfolding if_not_P [OF False] .
  qed
qed (rule get_empty)

lemma sample_push:
  obtains buf where "dlt_buffer_push3 plain_platform (Some [1, 2]) 2 (Some [3]) 1 (Some []) 0 sample_buffer = Ok (DLT_RETURN_OK, buf)"
    "dlt_holds buf [[1, 2, 3]]"
proof -
  have room: "12 + length ([1, 2] :: bytes) + length ([3] :: bytes) + length ([] :: bytes) \<le> unat (dlt_size sample_buffer)"
    by (simp add: sample_buffer_def)
  have "can_grow sample_buffer (used ([] @ [[1, 2] @ [3] @ []]))"
    unfolding can_grow_def by (rule exI [of _ 0]) (simp add: sample_buffer_def sizeof_head_def)
  then show thesis
    using push3_holds [OF sample_holds, of "[1, 2]" "[3]" "[]" plain_platform] room that
    by (auto simp: plain_platform_def dlt_return_defs)
qed

theorem dlt_get_correct_witness:
  "\<exists>buf buf'. dlt_buffer_push3 plain_platform (Some [1, 2]) 2 (Some [3]) 1 (Some []) 0 sample_buffer = Ok (DLT_RETURN_OK, buf)
    \<and> dlt_buffer_get plain_platform (Some (replicate 8 0)) 8 True buf = Ok (3, Some ([1, 2, 3] @ replicate 5 0), buf')
    \<and> dlt_holds buf' [] \<and> dlt_buffer_get plain_platform None 0 True buf' = Ok (DLT_RETURN_ERROR, None, buf')"
proof -
  obtain buf where buf: "dlt_buffer_push3 plain_platform (Some [1, 2]) 2 (Some [3]) 1 (Some []) 0 sample_buffer = Ok (DLT_RETURN_OK, buf)"
    "dlt_holds buf [[1, 2, 3]]" by (rule sample_push)
  obtain buf' where buf': "dlt_buffer_get plain_platform (Some (replicate 8 0)) 8 True buf = Ok (3, Some ([1, 2, 3] @ replicate 5 0), buf')"
    "dlt_holds buf' []"
    using dlt_get_correct [of buf plain_platform "Some (replicate 8 0)" 8 True "[1, 2, 3]" "[]"] buf(2) by auto
  have "dlt_buffer_get plain_platform None 0 True buf' = Ok (DLT_RETURN_ERROR, None, buf')"
    using dlt_get_correct [of buf' plain_platform None 0 True "[]" "[]"] buf'(2) by blast
  with buf buf' show ?thesis by blast
qed

section \<open>A first-in first-out store\<close>

text \<open>
  The contract of a store with a bounded capacity: \<open>put\<close> accepts a message, behind the others, or refuses it,
  and \<open>get\<close> delivers the first one. The client runs a sequence of both and records the messages that were
  accepted and those that were delivered.
\<close>

datatype 'm store_op = Put 'm | Get

fun run_store :: "('m \<Rightarrow> 'b \<Rightarrow> (bool \<times> 'b) result) \<Rightarrow> ('b \<Rightarrow> ('m option \<times> 'b) result) \<Rightarrow> 'm store_op list \<Rightarrow> 'b
    \<Rightarrow> ('m list \<times> 'm list \<times> 'b) result" where
  "run_store put get [] b = Ok ([], [], b)"
| "run_store put get (Put m # ops) b =
     bind_r (put m b) (\<lambda>(accepted, b1).
     bind_r (run_store put get ops b1) (\<lambda>(ins, outs, b2). Ok (if accepted then m # ins else ins, outs, b2)))"
| "run_store put get (Get # ops) b =
     bind_r (get b) (\<lambda>(delivered, b1).
     bind_r (run_store put get ops b1) (\<lambda>(ins, outs, b2).
       Ok (ins, (case delivered of None \<Rightarrow> outs | Some m \<Rightarrow> m # outs), b2)))"

locale fifo_store =
  fixes holds :: "'b \<Rightarrow> 'm list \<Rightarrow> bool" and admissible :: "'m \<Rightarrow> bool"
    and put :: "'m \<Rightarrow> 'b \<Rightarrow> (bool \<times> 'b) result" and get :: "'b \<Rightarrow> ('m option \<times> 'b) result"
  assumes put_holds: "holds b ms \<Longrightarrow> admissible m \<Longrightarrow>
      \<exists>accepted b'. put m b = Ok (accepted, b') \<and> holds b' (if accepted then ms @ [m] else ms)"
    and get_holds: "holds b ms \<Longrightarrow>
      \<exists>b'. get b = Ok (case ms of [] \<Rightarrow> None | m # _ \<Rightarrow> Some m, b') \<and> holds b' (tl ms)"
begin

lemma run_in_order:
  assumes "holds b ms" "\<forall>m. Put m \<in> set ops \<longrightarrow> admissible m"
  shows "\<exists>ins outs b' rest. run_store put get ops b = Ok (ins, outs, b') \<and> ms @ ins = outs @ rest \<and> holds b' rest"
  using assms
proof (induction ops arbitrary: b ms)
  case (Cons op ops)
  show ?case
  proof (cases op)
    case (Put m)
    then obtain accepted b1 where p: "put m b = Ok (accepted, b1)" "holds b1 (if accepted then ms @ [m] else ms)"
      using put_holds [OF Cons.prems(1), of m] Cons.prems(2) by auto
    then obtain ins outs b' rest where "run_store put get ops b1 = Ok (ins, outs, b')"
      "(if accepted then ms @ [m] else ms) @ ins = outs @ rest" "holds b' rest" using Cons.IH [OF p(2)] Cons.prems(2) by auto
    then show ?thesis using p(1) Put by (cases accepted) auto
  next
    case Get
    obtain b1 where g: "get b = Ok (case ms of [] \<Rightarrow> None | m # _ \<Rightarrow> Some m, b1)" "holds b1 (tl ms)"
      using get_holds [OF Cons.prems(1)] by auto
    then obtain ins outs b' rest where "run_store put get ops b1 = Ok (ins, outs, b')"
      "tl ms @ ins = outs @ rest" "holds b' rest" using Cons.IH [OF g(2)] Cons.prems(2) by auto
    then show ?thesis using g(1) Get by (cases ms) auto
  qed
qed simp

end

text \<open>
  The ring buffer with the calls \<open>dlt_buffer_push\<close> and \<open>dlt_buffer_pull\<close>. Messages are admissible when they
  fit into a buffer of the minimum size \<open>lo\<close>; the reader provides a place of \<open>lo\<close> bytes.
\<close>

definition dlt_put :: "c_platform \<Rightarrow> bytes \<Rightarrow> dlt_buffer \<Rightarrow> (bool \<times> dlt_buffer) result" where
  "dlt_put env m b = bind_r (dlt_buffer_push env (Some m) (of_nat (length m)) b) (\<lambda>(r, b'). Ok (r = DLT_RETURN_OK, b'))"

definition dlt_take :: "c_platform \<Rightarrow> nat \<Rightarrow> dlt_buffer \<Rightarrow> (bytes option \<times> dlt_buffer) result" where
  "dlt_take env n b = bind_r (dlt_buffer_pull env (Some (replicate n 0)) (of_nat n) b)
     (\<lambda>(r, data, b'). Ok (if r < 0 then None else map_option (take (nat r)) data, b'))"

definition dlt_small :: "nat \<Rightarrow> bytes \<Rightarrow> bool" where
  "dlt_small lo m \<longleftrightarrow> length m + 24 \<le> lo"

definition dlt_holds_small :: "nat \<Rightarrow> dlt_buffer \<Rightarrow> bytes list \<Rightarrow> bool" where
  "dlt_holds_small lo b ms \<longleftrightarrow> dlt_holds b ms \<and> unat (dlt_min_size b) = lo \<and> (\<forall>m \<in> set ms. dlt_small lo m)"

lemma dlt_push_push3: "dlt_buffer_push env (Some m) n b = dlt_buffer_push3 env (Some m) n (Some []) 0 (Some []) 0 b"
proof -
  have "write_part sz d 0 = Ok" for sz d by (auto simp: write_part_def)
  then have "write_message env (Some m) n None 0 None 0 = write_message env (Some m) n (Some []) 0 (Some []) 0"
    by (intro ext) (simp add: write_message_def)
  then show ?thesis by (simp only: dlt_buffer_push_def dlt_buffer_push3_def)
qed

lemma dlt_put_holds:
  assumes "dlt_holds_small lo b ms" "dlt_small lo m"
  shows "\<exists>accepted b'. dlt_put env m b = Ok (accepted, b') \<and> dlt_holds_small lo b' (if accepted then ms @ [m] else ms)"
proof -
  have h: "dlt_holds b ms" using assms(1) by (simp add: dlt_holds_small_def)
  have "dlt_limits b" using h by (rule dlt_holdsE)
  then have room: "12 + length m \<le> unat (dlt_size b)" "12 + length m < 2 ^ 31"
    using assms by (simp_all add: dlt_limits_def dlt_holds_small_def dlt_small_def sizeof_head_def)
  obtain r b' where "dlt_buffer_push3 env (Some m) (of_nat (length m)) (Some []) 0 (Some []) 0 b = Ok (r, b')"
    "r = DLT_RETURN_OK \<and> dlt_holds b' (ms @ [m]) \<or> r = DLT_RETURN_ERROR \<and> dlt_holds b' ms" "same_limits b b'"
    by (rule push3_holds [OF h, of m "[]" "[]" env]) (use room in auto)
  then show ?thesis using assms
    by (auto simp: dlt_put_def dlt_push_push3 dlt_holds_small_def same_limits_def dlt_return_defs)
qed

lemma dlt_take_holds:
  assumes "dlt_holds_small lo b ms"
  shows "\<exists>b'. dlt_take env lo b = Ok (case ms of [] \<Rightarrow> None | m # _ \<Rightarrow> Some m, b') \<and> dlt_holds_small lo b' (tl ms)"
proof (cases ms)
  case Nil
  then show ?thesis using assms get_empty [of b env "Some (replicate lo 0)" "of_nat lo" True]
    by (simp add: dlt_take_def dlt_buffer_pull_def dlt_holds_small_def dlt_return_defs)
next
  case (Cons m rest)
  have h: "dlt_holds b (m # rest)" using assms Cons by (simp add: dlt_holds_small_def)
  have "dlt_limits b" using h by (rule dlt_holdsE)
  then have lo: "(of_nat lo :: u32) \<noteq> 0" using assms by (auto simp: dlt_holds_small_def dlt_limits_def sizeof_head_def)
  have "length m \<le> length (replicate lo (0 :: byte))" using assms Cons by (simp add: dlt_holds_small_def dlt_small_def)
  from get_data_holds [OF h lo this, of env True] obtain b' where
    "dlt_buffer_get env (Some (replicate lo 0)) (of_nat lo) True b = Ok (int (length m), Some (m @ drop (length m) (replicate lo 0)), b')"
    "dlt_holds b' rest" "same_limits b b'" by auto
  then show ?thesis using assms Cons
    by (simp add: dlt_take_def dlt_buffer_pull_def dlt_holds_small_def same_limits_def)
qed

interpretation dlt_store: fifo_store "dlt_holds_small lo" "dlt_small lo" "dlt_put env" "dlt_take env lo"
  by unfold_locales (rule dlt_put_holds, assumption+, rule dlt_take_holds)

text \<open>
  [C5] The ring buffer is a first-in first-out store. After any sequence of \<open>dlt_buffer_push\<close> and
  \<open>dlt_buffer_pull\<close> on a new buffer, with messages that fit into the minimum size, whatever
  allocations fail: the messages delivered, followed by those still in the buffer, are exactly the
  messages that were accepted, in the order in which they were stored, and the buffer reports as many
  messages as are left.
\<close>

theorem dlt_fifo:
  assumes "dlt_buffer_init_dynamic env lo hi step b0 = Ok (DLT_RETURN_OK, b)" "unat hi < 2 ^ 31"
    and "\<forall>m. Put m \<in> set ops \<longrightarrow> length m + 24 \<le> unat lo"
  shows "\<exists>accepted delivered left b'. run_store (dlt_put env) (dlt_take env (unat lo)) ops b = Ok (accepted, delivered, b')
    \<and> accepted = delivered @ left \<and> dlt_buffer_get_message_count b' = int (length left)"
proof -
  have "dlt_holds_small (unat lo) b []" using init_dynamic_holds [OF assms(1,2)] by (simp add: dlt_holds_small_def)
  moreover have "\<forall>m. Put m \<in> set ops \<longrightarrow> dlt_small (unat lo) m" using assms(3) by (simp add: dlt_small_def)
  ultimately obtain ins outs b' rest where r: "run_store (dlt_put env) (dlt_take env (unat lo)) ops b = Ok (ins, outs, b')"
    "[] @ ins = outs @ rest" "dlt_holds_small (unat lo) b' rest" using dlt_store.run_in_order by meson
  have "dlt_holds b' rest" using r(3) by (simp add: dlt_holds_small_def)
  then obtain h bs where "dlt_shm b' = Some h" "stored rest bs" "head_count h = of_nat (length rest)"
    "raw_holds b' (of_nat (length rest)) bs" using dlt_holdsE by metis
  then have "dlt_buffer_get_message_count b' = int (length rest)"
    using stored_count(1,2) [of b' rest bs] sint_small [of "of_nat (length rest)"] by (simp add: dlt_buffer_get_message_count_def)
  with r show ?thesis by auto
qed

theorem dlt_fifo_witness:
  "\<exists>accepted delivered left b'. run_store (dlt_put plain_platform) (dlt_take plain_platform 64)
      [Put [1, 2, 3], Put [4], Get, Put [5, 6], Get] sample_buffer = Ok (accepted, delivered, b')
    \<and> accepted = delivered @ left \<and> dlt_buffer_get_message_count b' = int (length left)"
  using dlt_fifo [OF sample_init, of "[Put [1, 2, 3], Put [4], Get, Put [5, 6], Get]"] by auto

section \<open>Enlarging an empty buffer\<close>

text \<open>
  The loop of \<open>dlt_buffer_push3\<close> enlarges an empty buffer like a full one: the old content is copied and
  the write position is set behind it, while the number of messages stays zero.
\<close>

lemma increase_size_empty:
  assumes "dlt_limits b" "dlt_shm b = Some (new_shm mem)" "length mem = unat (dlt_size b)" "mem \<noteq> []"
    and "dlt_step_size b \<noteq> 0" "unat (dlt_size b) + sizeof_head + unat (dlt_step_size b) \<le> unat (dlt_max_size b)"
    and "\<forall>n. malloc env n \<noteq> None"
  obtains b1 where "dlt_buffer_increase_size env b = Ok (DLT_RETURN_OK, b1)" "raw_holds b1 0 mem" "same_limits b b1"
    "unat (dlt_size b1) = unat (dlt_size b) + unat (dlt_step_size b)"
proof -
  let ?s = "dlt_size b" and ?n = "unat (dlt_size b) + sizeof_head + unat (dlt_step_size b)"
  obtain content where c: "malloc env ?n = Some content" using assms(7) by fast
  let ?new = "map content [sizeof_head..<?n]"
  let ?h = "\<lparr>head_write = ?s, head_read = 0, head_count = 0, shm_mem = mem @ drop (unat ?s) ?new\<rparr>"
  let ?b = "b\<lparr>dlt_size := ?s + dlt_step_size b, dlt_shm := Some ?h\<rparr>"
  have size: "unat (?s + dlt_step_size b) = unat ?s + unat (dlt_step_size b)"
    using assms(1,6) by (intro unat_plus_small) (simp add: dlt_limits_def)
  have "dlt_buffer_increase_size env b = Ok (DLT_RETURN_OK, ?b)"
    using assms(2,3,5,6) c by (simp add: dlt_buffer_increase_size_def Let_def new_shm_def leD nat_uint_eq)
  moreover have "?s \<noteq> 0" using assms(3,4) by auto
  then have "raw_holds ?b 0 mem"
    using assms(1,3,4,6) by (simp add: raw_holds_def dlt_limits_def size ends_at_def ring_front ring_next_def)
  ultimately show thesis using that size by (simp add: same_limits_def)
qed

lemma push_empty_too_large:
  assumes "dlt_holds b []" "dlt_shm b = Some (new_shm mem)" "mem \<noteq> []"
    and "unat (dlt_size b) < 12 + length m" "12 + length m < 2 ^ 31"
    and "dlt_buffer_increase_size env b = Ok (DLT_RETURN_OK, b1)" "raw_holds b1 0 mem"
  shows "dlt_buffer_push env (Some m) (of_nat (length m)) b = dlt_buffer_push env (Some m) (of_nat (length m)) b1"
proof -
  obtain h bs where h: "dlt_shm b = Some h" "unat (dlt_size b) < 2 ^ 31" "dlt_limits b"
    "ends_at (unat (dlt_size b)) (unat (head_read h)) (head_write h, shm_mem h) bs" "stored [] bs" using assms(1) by (rule dlt_holdsE)
  have "h = new_shm mem" using h(1) assms(2) by simp
  then have hd: "bs = []" "head_write h = 0" "head_read h = 0" "head_count h = 0" using h(5) by (simp_all add: new_shm_def)
  obtain h1 where h1: "dlt_shm b1 = Some h1" "unat (dlt_size b1) < 2 ^ 31"
    "ends_at (unat (dlt_size b1)) (unat (head_read h1)) (head_write h1, shm_mem h1) mem" "head_count h1 = 0"
    using assms(7) by (rule raw_holdsE)
  note e1 = ends_at_words [OF h1(3,2)]
  have n: "sint (of_nat (12 + length m) :: u32) = int (12 + length m)"
    using assms(5) unat_u32 [of "12 + length m"] by (subst sint_small) simp_all
  have free: "sint (free_size_of (dlt_size b) 0 0 0) = int (unat (dlt_size b))"
    using free_size_ends_at [OF h(4,2)] by (simp add: hd)
  have "sint (free_size_of (dlt_size b) 0 0 0) < sint (of_nat (12 + length m) :: u32)"
    unfolding free n of_nat_less_iff by (rule assms(4))
  then have "push_grow env (of_nat (12 + length m)) 0 b = push_grow env (of_nat (12 + length m)) 0 b1"
    using assms(6) by (subst push_grow.simps) (simp add: h(1) hd del: of_nat_add)
  moreover have "unat (of_nat (length m) :: u32) = length m" using assms(5) by (simp add: unat_u32)
  ultimately show ?thesis using e1(3,4)
    by (simp add: dlt_buffer_push_def dlt_buffer_push3_def h(1) h1(1,4) hd sizeof_block_head_def)
qed

text \<open>What is read first is then the old content, which is not a block head.\<close>

lemma get_no_block:
  assumes "raw_holds b 1 bs" "12 \<le> length bs" "bs ! 0 \<noteq> 0x53"
  obtains b' where "\<And>data max_size delete. dlt_buffer_get env data max_size delete b = Ok (DLT_RETURN_ERROR, data, b')"
    "dlt_holds b' []"
proof -
  obtain h where h: "dlt_shm b = Some h" "unat (dlt_size b) < 2 ^ 31"
    "ends_at (unat (dlt_size b)) (unat (head_read h)) (head_write h, shm_mem h) bs" "head_count h = 1"
    using assms(1) by (rule raw_holdsE)
  note e = ends_at_words [OF h(3,2)]
  have split: "ring (shm_mem h) (unat (head_read h)) 12 = take 12 bs"
    using ends_at_append(1) [of "unat (dlt_size b)" "unat (head_read h)" "head_write h" "shm_mem h" "take 12 bs" "drop 12 bs"] h(3) assms(2) by simp
  obtain r1 where r1: "dlt_buffer_read_block (dlt_size b) (shm_mem h) (head_read h) (Some (replicate 12 0)) 12 = Ok (r1, Some (take 12 bs))"
    by (rule read_block_ring [OF e(8) h(2) e(1), of 12 "replicate 12 0"])
      (use e(9) assms(2) split in \<open>simp_all add: word_le_nat_alt\<close>)
  obtain x xs where bs: "bs = x # xs" using assms(2) by (cases bs) simp_all
  have used: "\<not> sint (used_size_of (dlt_size b) (head_write h) (head_read h)) < 12"
    using used_size_ends_at [OF h(3,2)] assms(2) bs by simp
  have lim: "dlt_limits b" using assms(1) by (simp add: raw_holds_def)
  obtain b' where b': "dlt_buffer_reset b = Ok (DLT_RETURN_OK, b')" "dlt_holds b' []" using lim h(1) e(8) by (rule reset_holds)
  have "dlt_buffer_get env data max_size delete b = Ok (DLT_RETURN_ERROR, data, b')" for data max_size delete
    using e(3,4) used r1 b'(1) assms(3) bs
    by (simp add: dlt_buffer_get_def h(1,4) Let_def sizeof_block_head_def reset_error_def)
  then show thesis using b'(2) by (rule that)
qed

text \<open>
  [C35] A message that does not fit into a new, empty buffer is lost. \<open>dlt_buffer_push\<close> enlarges the buffer and
  returns \<open>DLT_RETURN_OK\<close>, and the buffer reports one message, but the next attempt to take out a
  message finds no block head, clears the buffer and returns an error.
\<close>

theorem dlt_large_first_message_lost:
  assumes "dlt_buffer_init_dynamic env lo hi step b0 = Ok (DLT_RETURN_OK, b)" "unat hi < 2 ^ 31"
    and "12 < unat lo" "unat lo < length m + 24"
    and "unat lo + k * unat step \<le> unat hi" "12 + length m \<le> k * unat step" "\<forall>n. malloc env n \<noteq> None"
  shows "\<exists>b1 b2. dlt_buffer_push env (Some m) (of_nat (length m)) b = Ok (DLT_RETURN_OK, b1)
    \<and> dlt_buffer_get_message_count b1 = 1
    \<and> (\<forall>data max_size. dlt_buffer_pull env data max_size b1 = Ok (DLT_RETURN_ERROR, data, b2)) \<and> dlt_holds b2 []"
proof -
  note b = init_dynamic_holds [OF assms(1,2)]
  let ?mem = "replicate (unat (dlt_size b)) (0 :: byte)"
  obtain j where k: "k = Suc j" using assms(6) by (cases k) auto
  have lim: "dlt_limits b" using b(1) by (rule dlt_holdsE)
  have small: "12 + length m < 2 ^ 31" using assms(2,5,6) by simp
  have fit1: "unat (dlt_size b) + sizeof_head + unat (dlt_step_size b) \<le> unat (dlt_max_size b)"
    using assms(5) b(3,4,6,7) k by (simp add: sizeof_head_def)
  have mem: "?mem \<noteq> []" "length ?mem = unat (dlt_size b)" "dlt_step_size b \<noteq> 0" using assms(3) b(4-6) by simp_all
  obtain b1 where b1: "dlt_buffer_increase_size env b = Ok (DLT_RETURN_OK, b1)" "raw_holds b1 0 ?mem" "same_limits b b1"
    "unat (dlt_size b1) = unat (dlt_size b) + unat (dlt_step_size b)"
    by (rule increase_size_empty [OF lim b(8) mem(2,1,3) fit1 assms(7)])
  have grow: "can_grow b1 (length ?mem + 12 + length m)"
    unfolding can_grow_def using assms(5,6) b(3,4,6,7) b1(3,4) k
    by (intro exI [of _ j]) (simp add: same_limits_def sizeof_head_def)
  obtain b2 where b2: "dlt_buffer_push env (Some m) (of_nat (length m)) b1 = Ok (DLT_RETURN_OK, b2)"
    "raw_holds b2 1 (?mem @ message_block env m)"
    by (rule push3_raw [OF b1(2), of m "[]" "[]" env])
      (use grow mem small assms(7) in \<open>auto simp: dlt_push_push3 dlt_return_defs\<close>)
  have "dlt_buffer_push env (Some m) (of_nat (length m)) b = Ok (DLT_RETURN_OK, b2)"
    using push_empty_too_large [OF b(1,8) mem(1) _ small b1(1,2)] assms(4) b(6) b2(1) by simp
  moreover have "dlt_buffer_get_message_count b2 = 1"
    using b2(2) by (auto simp: dlt_buffer_get_message_count_def elim: raw_holdsE)
  moreover have "(?mem @ message_block env m) ! 0 \<noteq> 0x53" "12 \<le> length (?mem @ message_block env m)"
    using mem(1) by (simp_all add: nth_append)
  then obtain b3 where "\<And>data max_size delete. dlt_buffer_get env data max_size delete b2 = Ok (DLT_RETURN_ERROR, data, b3)"
    "dlt_holds b3 []" using get_no_block [OF b2(2), of env] by blast
  ultimately show ?thesis by (auto simp: dlt_buffer_pull_def)
qed

theorem dlt_large_first_message_lost_witness:
  "\<exists>b1 b2. dlt_buffer_push plain_platform (Some (replicate 50 7)) 50 sample_buffer = Ok (DLT_RETURN_OK, b1)
    \<and> dlt_buffer_get_message_count b1 = 1
    \<and> (\<forall>data max_size. dlt_buffer_pull plain_platform data max_size b1 = Ok (DLT_RETURN_ERROR, data, b2)) \<and> dlt_holds b2 []"
  using dlt_large_first_message_lost [OF sample_init, of "replicate 50 7" 1] by (simp add: plain_platform_def)

end
