(* ===== verification/Dlt_Text.thy ===== *)
theory Dlt_Text
  imports Dlt_Buffer
begin

text \<open>
  Text output of \<open>dlt-daemon/src/shared/dlt_common.c\<close>: bytes in hexadecimal, mixed and character form,
  identifiers of four characters, and the cleaning of strings. The conversions of \<open>snprintf\<close> and the string
  functions of the C library that the code uses come first. Text is an area of bytes; a pointer into it is
  an offset. Areas are not null.
\<close>

section \<open>The C library\<close>

definition ascii :: "string \<Rightarrow> bytes" where
  "ascii s = map of_char s"

text \<open>The conversions \<open>%u\<close>, \<open>%d\<close> and \<open>%x\<close>, and filling up with zeros.\<close>

fun decimal :: "nat \<Rightarrow> bytes" where
  "decimal n = (if n < 10 then [48 + of_nat n] else decimal (n div 10) @ [48 + of_nat (n mod 10)])"

declare decimal.simps [simp del]

definition decimal_int :: "int \<Rightarrow> bytes" where
  "decimal_int i = (if i < 0 then 45 # decimal (nat (- i)) else decimal (nat i))"

definition hex_digit :: "nat \<Rightarrow> byte" where
  "hex_digit n = (if n < 10 then 48 + of_nat n else 87 + of_nat n)"

fun hexadecimal :: "nat \<Rightarrow> bytes" where
  "hexadecimal n = (if n < 16 then [hex_digit n] else hexadecimal (n div 16) @ [hex_digit (n mod 16)])"

declare hexadecimal.simps [simp del]

definition zero_pad :: "nat \<Rightarrow> bytes \<Rightarrow> bytes" where
  "zero_pad k s = replicate (k - length s) 48 @ s"

text \<open>\<open>snprintf(text + off, n, ...)\<close> with the formatted output \<open>out\<close>; \<open>strlen\<close> and the string it measures.\<close>

definition c_snprintf :: "int \<Rightarrow> nat \<Rightarrow> bytes \<Rightarrow> bytes \<Rightarrow> bytes result" where
  "c_snprintf off n out mem = (if n = 0 then Ok mem else ptr_write off (take (n - 1) out @ [0]) mem)"

definition c_string :: "int \<Rightarrow> bytes \<Rightarrow> bytes result" where
  "c_string off mem =
     (if 0 \<le> off \<and> 0 \<in> set (drop (nat off) mem) then Ok (takeWhile (\<lambda>b. b \<noteq> 0) (drop (nat off) mem)) else Undefined)"

definition c_strlen :: "int \<Rightarrow> bytes \<Rightarrow> nat result" where
  "c_strlen off mem = bind_r (c_string off mem) (\<lambda>s. Ok (length s))"

text \<open>
  \<open>snprintf(text + strlen(text), textlength - strlen(text), ...)\<close>, where \<open>textlength\<close> is a \<open>size_t\<close>.
\<close>

definition append_text :: "u64 \<Rightarrow> bytes \<Rightarrow> bytes \<Rightarrow> bytes result" where
  "append_text textlength out mem =
     bind_r (c_strlen 0 mem) (\<lambda>n. c_snprintf (int n) (unat (textlength - of_nat n)) out mem)"

section \<open>Hexadecimal text\<close>

primrec print_hex_loop :: "byte \<Rightarrow> bool \<Rightarrow> bytes \<Rightarrow> int \<Rightarrow> bytes \<Rightarrow> bytes result" where
  "print_hex_loop delim first [] off mem = Ok mem"
| "print_hex_loop delim first (x # xs) off mem =
     bind_r (if first then Ok (off, mem)
             else bind_r (c_snprintf off 2 [delim] mem) (\<lambda>mem1. Ok (off + 1, mem1)))
       (\<lambda>(off1, mem1). bind_r (c_snprintf off1 3 (zero_pad 2 (hexadecimal (unat x))) mem1)
         (\<lambda>mem2. print_hex_loop delim False xs (off1 + 2) mem2))"

text \<open>
  The bytes are read from \<open>data\<close> at \<open>pos\<close>; an overflow of \<open>size * 3\<close> is undefined behaviour.
\<close>

definition dlt_print_hex_string_delim ::
  "int \<Rightarrow> int \<Rightarrow> bytes \<Rightarrow> int \<Rightarrow> int \<Rightarrow> byte \<Rightarrow> bytes \<Rightarrow> (int \<times> bytes) result" where
  "dlt_print_hex_string_delim off textlength data pos sz delim mem =
     (if textlength \<le> 0 \<or> sz < 0 \<or> delim = 0 then Ok (DLT_RETURN_WRONG_PARAMETER, mem)
      else if sz * 3 \<ge> 2 ^ 31 then Undefined
      else if textlength < sz * 3 then Ok (DLT_RETURN_ERROR, mem)
      else bind_r (ptr_read pos (nat sz) data) (\<lambda>xs.
        bind_r (print_hex_loop delim True xs off mem) (\<lambda>mem1. Ok (DLT_RETURN_OK, mem1))))"

definition dlt_print_hex_string :: "int \<Rightarrow> int \<Rightarrow> bytes \<Rightarrow> int \<Rightarrow> int \<Rightarrow> bytes \<Rightarrow> (int \<times> bytes) result" where
  "dlt_print_hex_string off textlength data pos sz mem = dlt_print_hex_string_delim off textlength data pos sz 32 mem"

section \<open>Characters and mixed text\<close>

definition DLT_COMMON_HEX_CHARS :: int where "DLT_COMMON_HEX_CHARS = 16"
definition DLT_COMMON_HEX_LINELEN :: int where "DLT_COMMON_HEX_LINELEN = 8"
definition DLT_COMMON_CHARLEN :: int where "DLT_COMMON_CHARLEN = 1"

lemmas dlt_common_cfg_defs = DLT_COMMON_HEX_CHARS_def DLT_COMMON_HEX_LINELEN_def DLT_COMMON_CHARLEN_def

text \<open>Characters are signed, so bytes from 128 on are below the space.\<close>

definition printed_char :: "byte \<Rightarrow> byte" where
  "printed_char c = (if sint c < 32 \<or> sint c > 126 then 46 else if c \<noteq> 60 then c else 46)"

primrec print_char_loop :: "bytes \<Rightarrow> int \<Rightarrow> bytes \<Rightarrow> (int \<times> bytes) result" where
  "print_char_loop [] off mem = Ok (off, mem)"
| "print_char_loop (c # cs) off mem =
     bind_r (c_snprintf off 2 [printed_char c] mem) (\<lambda>mem1. print_char_loop cs (off + 1) mem1)"

definition dlt_print_char_string :: "int \<Rightarrow> int \<Rightarrow> bytes \<Rightarrow> int \<Rightarrow> int \<Rightarrow> bytes \<Rightarrow> (int \<times> int \<times> bytes) result" where
  "dlt_print_char_string off textlength data pos sz mem =
     (if textlength \<le> 0 \<or> sz < 0 then Ok (DLT_RETURN_WRONG_PARAMETER, off, mem)
      else if textlength < sz then Ok (DLT_RETURN_WRONG_PARAMETER, off, mem)
      else bind_r (ptr_read pos (nat sz) data) (\<lambda>cs.
        bind_r (print_char_loop cs off mem) (\<lambda>(off1, mem1). Ok (DLT_RETURN_OK, off1, mem1))))"

text \<open>The line number and the hexadecimal digits of \<open>n\<close> bytes; the new position is behind them.\<close>

definition mixed_line_start ::
  "bytes \<Rightarrow> int \<Rightarrow> int \<Rightarrow> int \<Rightarrow> int \<Rightarrow> int \<Rightarrow> bytes \<Rightarrow> (int \<times> bytes) result" where
  "mixed_line_start data pos textlength line n off mem =
     bind_r (c_snprintf off 9 (zero_pad 6 (hexadecimal (nat (line * DLT_COMMON_HEX_CHARS))) @ [58, 32]) mem) (\<lambda>mem1.
     let off1 = off + DLT_COMMON_HEX_LINELEN in
     bind_r (dlt_print_hex_string off1 textlength data (pos + line * DLT_COMMON_HEX_CHARS) n mem1)
       (\<lambda>(_, mem2). Ok (off1 + (2 * n + (n - 1)), mem2)))"

function mixed_lines ::
  "bytes \<Rightarrow> int \<Rightarrow> int \<Rightarrow> bool \<Rightarrow> int \<Rightarrow> int \<Rightarrow> int \<Rightarrow> bytes \<Rightarrow> (int \<times> bytes) result" where
  "mixed_lines data pos textlength html lines full off mem =
     (if lines < full then
        bind_r (mixed_line_start data pos textlength lines DLT_COMMON_HEX_CHARS off mem) (\<lambda>(off1, mem1).
        bind_r (c_snprintf off1 2 [32] mem1) (\<lambda>mem2.
        bind_r (dlt_print_char_string (off1 + DLT_COMMON_CHARLEN) textlength data (pos + lines * DLT_COMMON_HEX_CHARS)
                  DLT_COMMON_HEX_CHARS mem2) (\<lambda>(_, off2, mem3).
        bind_r (if html then bind_r (c_snprintf off2 5 (ascii ''<BR>'') mem3) (\<lambda>m. Ok (off2 + 4 * DLT_COMMON_CHARLEN, m))
                else bind_r (c_snprintf off2 2 [10] mem3) (\<lambda>m. Ok (off2 + DLT_COMMON_CHARLEN, m))) (\<lambda>(off3, mem4).
        mixed_lines data pos textlength html (lines + 1) full off3 mem4))))
      else Ok (off, mem))"
  by pat_completeness auto
termination
  by (relation "measure (\<lambda>(data, pos, textlength, html, lines, full, off, mem). nat (full - lines))") auto

declare mixed_lines.simps [simp del]

primrec mixed_fill :: "nat \<Rightarrow> int \<Rightarrow> bytes \<Rightarrow> (int \<times> bytes) result" where
  "mixed_fill 0 off mem = Ok (off, mem)"
| "mixed_fill (Suc i) off mem =
     bind_r (c_snprintf off 4 (ascii '' xx'') mem) (mixed_fill i (off + 3 * DLT_COMMON_CHARLEN))"

definition mixed_required :: "bool \<Rightarrow> int \<Rightarrow> int" where
  "mixed_required html sz =
     (DLT_COMMON_HEX_LINELEN + (2 * DLT_COMMON_HEX_CHARS + (DLT_COMMON_HEX_CHARS - 1)) + DLT_COMMON_CHARLEN +
      DLT_COMMON_HEX_CHARS + (if html then 4 * DLT_COMMON_CHARLEN else DLT_COMMON_CHARLEN)) *
     (sz div DLT_COMMON_HEX_CHARS + 1)"

definition dlt_print_mixed_string :: "int \<Rightarrow> bytes \<Rightarrow> int \<Rightarrow> int \<Rightarrow> bool \<Rightarrow> bytes \<Rightarrow> (int \<times> bytes) result" where
  "dlt_print_mixed_string textlength data pos sz html mem =
     (if textlength \<le> 0 \<or> sz < 0 then Ok (DLT_RETURN_WRONG_PARAMETER, mem)
      else if mixed_required html sz \<ge> 2 ^ 31 then Undefined
      else if textlength < mixed_required html sz then Ok (DLT_RETURN_ERROR, mem)
      else
        let full = sz div DLT_COMMON_HEX_CHARS; rest = sz mod DLT_COMMON_HEX_CHARS in
        bind_r (mixed_lines data pos textlength html 0 full 0 mem) (\<lambda>(off, mem1).
        if rest > 0 then
          bind_r (mixed_line_start data pos textlength full rest off mem1) (\<lambda>(off1, mem2).
          bind_r (mixed_fill (nat (DLT_COMMON_HEX_CHARS - rest)) off1 mem2) (\<lambda>(off2, mem3).
          bind_r (c_snprintf off2 2 [32] mem3) (\<lambda>mem4.
          bind_r (dlt_print_char_string (off2 + DLT_COMMON_CHARLEN) textlength data (pos + full * DLT_COMMON_HEX_CHARS) rest mem4)
            (\<lambda>(_, _, mem5). Ok (DLT_RETURN_OK, mem5)))))
        else Ok (DLT_RETURN_OK, mem1)))"

section \<open>Identifiers and strings\<close>

definition DLT_ID_SIZE :: nat where "DLT_ID_SIZE = 4"

text \<open>\<open>dlt_strnlen_s\<close> reads up to the zero byte or \<open>maxsize\<close> bytes.\<close>

definition dlt_strnlen_s :: "bytes \<Rightarrow> nat \<Rightarrow> nat result" where
  "dlt_strnlen_s str maxsize =
     (let n = length (takeWhile (\<lambda>b. b \<noteq> 0) (take maxsize str)) in
      if n < maxsize \<and> length str \<le> n then Undefined else Ok n)"

definition dlt_print_id :: "int \<Rightarrow> bytes \<Rightarrow> bytes \<Rightarrow> bytes result" where
  "dlt_print_id off ident mem =
     bind_r (ptr_write off (replicate DLT_ID_SIZE 45 @ [0]) mem) (\<lambda>mem1.
     bind_r (dlt_strnlen_s ident DLT_ID_SIZE) (\<lambda>n. ptr_write off (take n ident) mem1))"

text \<open>
  \<open>dlt_set_id\<close> copies up to four characters and stops at a zero byte; a byte is read only when those before
  it are not zero.
\<close>

fun set_id_from :: "nat \<Rightarrow> bytes \<Rightarrow> bytes result" where
  "set_id_from 0 text = Ok []"
| "set_id_from (Suc n) [] = Undefined"
| "set_id_from (Suc n) (c # cs) =
     (if c = 0 then Ok (replicate (Suc n) 0) else bind_r (set_id_from n cs) (\<lambda>r. Ok (c # r)))"

definition dlt_set_id :: "bytes \<Rightarrow> bytes result" where
  "dlt_set_id text = set_id_from DLT_ID_SIZE text"

definition clean_char :: "byte \<Rightarrow> byte" where
  "clean_char c = (if c = 13 \<or> c = 10 then 32 else c)"

definition dlt_clean_string :: "int \<Rightarrow> int \<Rightarrow> bytes \<Rightarrow> bytes result" where
  "dlt_clean_string off len mem =
     bind_r (ptr_read off (nat len) mem) (\<lambda>cs. ptr_write off (map clean_char cs) mem)"

end
