(* ===== verification/Dlt_Log.thy ===== *)
theory Dlt_Log
  imports Dlt_Buffer
begin

text \<open>
  Building log messages in an application, the \<open>dlt_user_log_write_*\<close> functions of
  \<open>dlt-daemon/src/lib/dlt_user.c\<close>. A message under construction is a buffer of \<open>log_buf_len\<close> bytes, the
  number of bytes used and the number of arguments. In verbose mode an argument is written with a
  description of its type (and, for the functions \<open>_attr\<close>, with a name and a unit); in non-verbose mode
  only with its data.

  Sizes are of type \<open>size_t\<close>; the used size is an \<open>int32_t\<close>, which is extended with its sign. Strings
  that end with a zero byte are given without it; \<open>None\<close> is the null pointer. The message structure itself
  is not null. Numbers are stored in the byte order of a little-endian host. The build option that turns a
  fatal message into a crash (\<open>WITH_DLT_FATAL_LOG_TRAP\<close>) is off, its default.
\<close>

section \<open>State\<close>

definition DLT_RETURN_LOGGING_DISABLED :: int where "DLT_RETURN_LOGGING_DISABLED = -7"
definition DLT_RETURN_USER_BUFFER_FULL :: int where "DLT_RETURN_USER_BUFFER_FULL = -6"
definition DLT_RETURN_TRUE :: int where "DLT_RETURN_TRUE = 1"

lemmas dlt_log_return_defs = dlt_return_defs DLT_RETURN_LOGGING_DISABLED_def DLT_RETURN_USER_BUFFER_FULL_def
  DLT_RETURN_TRUE_def

definition DLT_TYPE_INFO_BOOL :: u32 where "DLT_TYPE_INFO_BOOL = 0x10"
definition DLT_TYPE_INFO_SINT :: u32 where "DLT_TYPE_INFO_SINT = 0x20"
definition DLT_TYPE_INFO_UINT :: u32 where "DLT_TYPE_INFO_UINT = 0x40"
definition DLT_TYPE_INFO_FLOA :: u32 where "DLT_TYPE_INFO_FLOA = 0x80"
definition DLT_TYPE_INFO_STRG :: u32 where "DLT_TYPE_INFO_STRG = 0x200"
definition DLT_TYPE_INFO_RAWD :: u32 where "DLT_TYPE_INFO_RAWD = 0x400"
definition DLT_TYPE_INFO_VARI :: u32 where "DLT_TYPE_INFO_VARI = 0x800"
definition DLT_TYLE_8BIT :: u32 where "DLT_TYLE_8BIT = 1"
definition DLT_TYLE_16BIT :: u32 where "DLT_TYLE_16BIT = 2"
definition DLT_TYLE_32BIT :: u32 where "DLT_TYLE_32BIT = 3"
definition DLT_TYLE_64BIT :: u32 where "DLT_TYLE_64BIT = 4"
definition DLT_SCOD_ASCII :: u32 where "DLT_SCOD_ASCII = 0"
definition DLT_SCOD_UTF8 :: u32 where "DLT_SCOD_UTF8 = 0x8000"
definition DLT_SCOD_HEX :: u32 where "DLT_SCOD_HEX = 0x10000"
definition DLT_SCOD_BIN :: u32 where "DLT_SCOD_BIN = 0x18000"

definition DLT_USER_DEFAULT_MSGID :: u32 where "DLT_USER_DEFAULT_MSGID = 0xffff"

lemmas type_info_defs = DLT_TYPE_INFO_BOOL_def DLT_TYPE_INFO_SINT_def DLT_TYPE_INFO_UINT_def DLT_TYPE_INFO_FLOA_def
  DLT_TYPE_INFO_STRG_def DLT_TYPE_INFO_RAWD_def DLT_TYPE_INFO_VARI_def DLT_TYLE_8BIT_def DLT_TYLE_16BIT_def
  DLT_TYLE_32BIT_def DLT_TYLE_64BIT_def DLT_SCOD_ASCII_def DLT_SCOD_UTF8_def DLT_SCOD_HEX_def DLT_SCOD_BIN_def

definition DLT_FORMAT_DEFAULT :: u32 where "DLT_FORMAT_DEFAULT = 0"
definition DLT_FORMAT_HEX8 :: u32 where "DLT_FORMAT_HEX8 = 1"
definition DLT_FORMAT_HEX32 :: u32 where "DLT_FORMAT_HEX32 = 3"
definition DLT_FORMAT_HEX64 :: u32 where "DLT_FORMAT_HEX64 = 4"
definition DLT_FORMAT_BIN8 :: u32 where "DLT_FORMAT_BIN8 = 5"
definition DLT_FORMAT_BIN16 :: u32 where "DLT_FORMAT_BIN16 = 6"
definition DLT_FORMAT_MAX :: u32 where "DLT_FORMAT_MAX = 7"

lemmas dlt_format_defs = DLT_FORMAT_DEFAULT_def DLT_FORMAT_HEX8_def DLT_FORMAT_HEX32_def DLT_FORMAT_HEX64_def DLT_FORMAT_BIN8_def
  DLT_FORMAT_BIN16_def DLT_FORMAT_MAX_def

type_synonym cstr = "bytes option"

text \<open>A context with its log level, the parts of \<open>dlt_user\<close> the functions read, and a message.\<close>

record dlt_context =
  ctx_log_level :: "byte option"

record dlt_user =
  user_initialised :: bool
  user_is_child :: bool
  user_has_contexts :: bool
  user_verbose_mode :: byte
  user_log_buf_len :: u16

record dlt_log =
  log_handle :: "dlt_context option"
  log_buffer :: "bytes option"
  log_size :: u32
  log_level :: u32
  log_args_num :: u32
  log_auto_timestamp :: bool
  log_verbose_mode :: bool

record var_info =
  vi_name :: cstr
  vi_unit :: cstr
  vi_with_unit :: bool

definition is_verbose_mode :: "dlt_user \<Rightarrow> dlt_log \<Rightarrow> bool" where
  "is_verbose_mode u l \<longleftrightarrow> user_verbose_mode u = 1 \<or> log_verbose_mode l"

definition le16 :: "u16 \<Rightarrow> bytes" where
  "le16 x = [WORD_BYTE0 x, WORD_BYTE1 x]"

definition le32 :: "u32 \<Rightarrow> bytes" where
  "le32 x = [LONG_BYTE0 x, LONG_BYTE1 x, LONG_BYTE2 x, LONG_BYTE3 x]"

definition le64 :: "u64 \<Rightarrow> bytes" where
  "le64 x = le32 (ucast x) @ le32 (ucast (drop_bit 32 x))"

lemma length_le [simp]: "length (le16 x) = 2" "length (le32 y) = 4" "length (le64 z) = 8"
  by (simp_all add: le16_def le32_def le64_def)

text \<open>
  \<open>memcpy(log->buffer + log->size, d, n); log->size += n\<close>, and a sequence of such steps. \<open>log_exceeds\<close> is
  the test \<open>(log->size + needed_size) > dlt_user.log_buf_len\<close>.
\<close>

definition log_put :: "bytes \<Rightarrow> dlt_log \<Rightarrow> dlt_log result" where
  "log_put d l =
     (case log_buffer l of
        None \<Rightarrow> Undefined
      | Some b \<Rightarrow> bind_r (ptr_write (sint (log_size l)) d b)
          (\<lambda>b1. Ok (l\<lparr>log_buffer := Some b1, log_size := log_size l + of_nat (length d)\<rparr>)))"

primrec log_puts :: "bytes list \<Rightarrow> dlt_log \<Rightarrow> dlt_log result" where
  "log_puts [] l = Ok l"
| "log_puts (d # ds) l = bind_r (log_put d l) (log_puts ds)"

definition log_exceeds :: "dlt_user \<Rightarrow> dlt_log \<Rightarrow> nat \<Rightarrow> bool" where
  "log_exceeds u l needed_size \<longleftrightarrow> (scast (log_size l) + of_nat needed_size :: u64) > ucast (user_log_buf_len u)"

definition cstr_size :: "cstr \<Rightarrow> u16" where
  "cstr_size s = (case s of None \<Rightarrow> 0 | Some t \<Rightarrow> of_nat (length t + 1))"

definition cstr_part :: "cstr \<Rightarrow> bytes list" where
  "cstr_part s = (if cstr_size s \<noteq> 0 then [take (unat (cstr_size s)) (the s @ [0])] else [])"

definition log_argument :: "bytes list \<Rightarrow> dlt_log \<Rightarrow> (int \<times> dlt_log) result" where
  "log_argument ds l =
     bind_r (log_puts ds l) (\<lambda>l1. Ok (DLT_RETURN_OK, l1\<lparr>log_args_num := log_args_num l1 + 1\<rparr>))"

section \<open>Starting a message\<close>

text \<open>\<open>init\<close> stands for \<open>dlt_init\<close>, which connects to the daemon, and \<open>alloc\<close> for the outcome of \<open>calloc\<close>.\<close>

definition dlt_user_is_logLevel_enabled :: "dlt_context option \<Rightarrow> u32 \<Rightarrow> int" where
  "dlt_user_is_logLevel_enabled handle loglevel =
     (if sint loglevel < -1 \<or> sint loglevel \<ge> 7 then DLT_RETURN_WRONG_PARAMETER
      else case handle of
        None \<Rightarrow> DLT_RETURN_WRONG_PARAMETER
      | Some c \<Rightarrow>
          (case ctx_log_level c of
             None \<Rightarrow> DLT_RETURN_WRONG_PARAMETER
           | Some level \<Rightarrow>
               if sint loglevel \<le> sint level \<and> loglevel \<noteq> 0 then DLT_RETURN_TRUE else DLT_RETURN_LOGGING_DISABLED))"

definition dlt_user_log_init ::
  "(dlt_user \<Rightarrow> int \<times> dlt_user) \<Rightarrow> dlt_context \<Rightarrow> dlt_user \<Rightarrow> dlt_log \<Rightarrow> int \<times> dlt_user \<times> dlt_log" where
  "dlt_user_log_init init handle u l =
     (let (ret, u1) = (if \<not> user_initialised u then init u else (DLT_RETURN_OK, u)) in
      if ret < DLT_RETURN_OK then (ret, u1, l)
      else (ret, u1, l\<lparr>log_handle := Some handle, log_buffer := None\<rparr>))"

definition dlt_user_log_write_start_init ::
  "(dlt_user \<Rightarrow> int \<times> dlt_user) \<Rightarrow> dlt_context \<Rightarrow> u32 \<Rightarrow> bool \<Rightarrow> dlt_user \<Rightarrow> dlt_log \<Rightarrow> int \<times> dlt_user \<times> dlt_log" where
  "dlt_user_log_write_start_init init handle loglevel is_verbose u l =
     (let (ret, u1, l1) = dlt_user_log_init init handle u l in
      if ret < DLT_RETURN_OK \<or> \<not> user_has_contexts u1 then (DLT_RETURN_ERROR, u1, l1)
      else (DLT_RETURN_TRUE, u1, l1\<lparr>log_args_num := 0, log_level := loglevel, log_size := 0,
        log_auto_timestamp := True, log_verbose_mode := is_verbose\<rparr>))"

definition dlt_user_log_write_start_internal ::
  "(dlt_user \<Rightarrow> int \<times> dlt_user) \<Rightarrow> bool \<Rightarrow> dlt_context option \<Rightarrow> u32 \<Rightarrow> u32 \<Rightarrow> bool \<Rightarrow> dlt_user \<Rightarrow> dlt_log
     \<Rightarrow> (int \<times> dlt_user \<times> dlt_log) result" where
  "dlt_user_log_write_start_internal init alloc handle loglevel messageid is_verbose u l =
     (case handle of
        None \<Rightarrow> Ok (DLT_RETURN_WRONG_PARAMETER, u, l)
      | Some c \<Rightarrow>
          if user_is_child u then Ok (DLT_RETURN_ERROR, u, l)
          else let ret = dlt_user_is_logLevel_enabled handle loglevel in
            if ret = DLT_RETURN_WRONG_PARAMETER then Ok (ret, u, l)
            else if ret = DLT_RETURN_LOGGING_DISABLED then Ok (DLT_RETURN_OK, u, l\<lparr>log_handle := None\<rparr>)
            else let (ret, u1, l1) = dlt_user_log_write_start_init init c loglevel is_verbose u l in
              if ret \<noteq> DLT_RETURN_TRUE then Ok (ret, u1, l1)
              else if log_buffer l1 = None \<and> \<not> alloc then Ok (DLT_RETURN_ERROR, u1, l1)
              else
                let l2 = (if log_buffer l1 = None
                          then l1\<lparr>log_buffer := Some (replicate (unat (user_log_buf_len u1)) 0)\<rparr> else l1)
                in if is_verbose_mode u1 l2 then Ok (ret, u1, l2)
                   else if 4 > unat (user_log_buf_len u1) then Ok (DLT_RETURN_USER_BUFFER_FULL, u1, l2)
                   else bind_r (ptr_write 0 (le32 messageid) (the (log_buffer l2)))
                     (\<lambda>b. Ok (ret, u1, l2\<lparr>log_buffer := Some b, log_size := 4\<rparr>)))"

definition dlt_user_log_write_start ::
  "(dlt_user \<Rightarrow> int \<times> dlt_user) \<Rightarrow> bool \<Rightarrow> dlt_context option \<Rightarrow> u32 \<Rightarrow> dlt_user \<Rightarrow> dlt_log
     \<Rightarrow> (int \<times> dlt_user \<times> dlt_log) result" where
  "dlt_user_log_write_start init alloc handle loglevel =
     dlt_user_log_write_start_internal init alloc handle loglevel DLT_USER_DEFAULT_MSGID True"

definition dlt_user_log_write_start_id ::
  "(dlt_user \<Rightarrow> int \<times> dlt_user) \<Rightarrow> bool \<Rightarrow> dlt_context option \<Rightarrow> u32 \<Rightarrow> u32 \<Rightarrow> dlt_user \<Rightarrow> dlt_log
     \<Rightarrow> (int \<times> dlt_user \<times> dlt_log) result" where
  "dlt_user_log_write_start_id init alloc handle loglevel messageid =
     dlt_user_log_write_start_internal init alloc handle loglevel messageid False"

definition dlt_user_log_write_start_w_given_buffer ::
  "(dlt_user \<Rightarrow> int \<times> dlt_user) \<Rightarrow> dlt_context option \<Rightarrow> u32 \<Rightarrow> bytes option \<Rightarrow> u64 \<Rightarrow> u32 \<Rightarrow> dlt_user \<Rightarrow> dlt_log
     \<Rightarrow> int \<times> dlt_user \<times> dlt_log" where
  "dlt_user_log_write_start_w_given_buffer init handle loglevel buffer bsize args_num u l =
     (case (handle, buffer) of
        (Some c, Some b) \<Rightarrow>
          if bsize = 0 \<or> bsize > ucast (user_log_buf_len u) \<or> sint args_num \<le> 0 then (DLT_RETURN_WRONG_PARAMETER, u, l)
          else if user_is_child u then (DLT_RETURN_ERROR, u, l)
          else if user_verbose_mode u = 0 then (DLT_RETURN_ERROR, u, l)
          else let (ret, u1, l1) = dlt_user_log_write_start_init init c loglevel True u l in
            if ret = DLT_RETURN_TRUE
            then (ret, u1, l1\<lparr>log_buffer := Some b, log_size := ucast bsize, log_args_num := args_num\<rparr>)
            else (ret, u1, l1)
      | _ \<Rightarrow> (DLT_RETURN_WRONG_PARAMETER, u, l))"

section \<open>Raw data and numbers\<close>

text \<open>\<open>(int16_t) type < DLT_FORMAT_DEFAULT || type >= DLT_FORMAT_MAX\<close>.\<close>

definition format_invalid :: "u32 \<Rightarrow> bool" where
  "format_invalid type \<longleftrightarrow> sint (ucast type :: u16) < sint DLT_FORMAT_DEFAULT \<or> type \<ge> DLT_FORMAT_MAX"

definition dlt_user_log_write_raw_internal ::
  "bytes option \<Rightarrow> u16 \<Rightarrow> u32 \<Rightarrow> cstr \<Rightarrow> bool \<Rightarrow> dlt_user \<Rightarrow> dlt_log \<Rightarrow> (int \<times> dlt_log) result" where
  "dlt_user_log_write_raw_internal data len type name with_var_info u l =
     (if data = None \<and> len \<noteq> 0 then Ok (DLT_RETURN_WRONG_PARAMETER, l)
      else if format_invalid type then Ok (DLT_RETURN_WRONG_PARAMETER, l)
      else if \<not> user_initialised u then Ok (DLT_RETURN_ERROR, l)
      else
        let name_size = cstr_size name; needed_size = unat len + 2 in
        if log_exceeds u l needed_size then Ok (DLT_RETURN_USER_BUFFER_FULL, l)
        else
          let verbose = is_verbose_mode u l;
              needed_size = needed_size + 4 + (if with_var_info then 2 + unat name_size else 0);
              type_info = (if with_var_info then DLT_TYPE_INFO_RAWD OR DLT_TYPE_INFO_VARI else DLT_TYPE_INFO_RAWD);
              type_info =
                (if type \<ge> DLT_FORMAT_HEX8 \<and> type \<le> DLT_FORMAT_HEX64 then (type_info OR DLT_SCOD_HEX) + type
                 else if type \<ge> DLT_FORMAT_BIN8 \<and> type \<le> DLT_FORMAT_BIN16
                 then (type_info OR DLT_SCOD_BIN) + (type - DLT_FORMAT_BIN8 + 1)
                 else type_info)
          in if verbose \<and> log_exceeds u l needed_size then Ok (DLT_RETURN_USER_BUFFER_FULL, l)
             else if unat len > length (case data of None \<Rightarrow> [] | Some d \<Rightarrow> d) then Undefined
             else log_argument
               ((if verbose then [le32 type_info] else []) @ [le16 len] @
                (if verbose \<and> with_var_info then le16 name_size # cstr_part name else []) @
                [take (unat len) (case data of None \<Rightarrow> [] | Some d \<Rightarrow> d)]) l)"

definition dlt_user_log_write_raw where
  "dlt_user_log_write_raw data len = dlt_user_log_write_raw_internal data len DLT_FORMAT_DEFAULT None False"

definition dlt_user_log_write_raw_formatted where
  "dlt_user_log_write_raw_formatted data len type = dlt_user_log_write_raw_internal data len type None False"

definition dlt_user_log_write_raw_attr where
  "dlt_user_log_write_raw_attr data len name = dlt_user_log_write_raw_internal data len DLT_FORMAT_DEFAULT name True"

definition dlt_user_log_write_raw_formatted_attr where
  "dlt_user_log_write_raw_formatted_attr data len type name = dlt_user_log_write_raw_internal data len type name True"

text \<open>
  Simple types. The unit is written whenever it is not empty, but counted only with \<open>with_unit\<close>.
\<close>

definition dlt_user_log_write_generic_attr ::
  "bytes \<Rightarrow> u32 \<Rightarrow> var_info option \<Rightarrow> dlt_user \<Rightarrow> dlt_log \<Rightarrow> (int \<times> dlt_log) result" where
  "dlt_user_log_write_generic_attr datap type_info varinfo u l =
     (if \<not> user_initialised u then Ok (DLT_RETURN_ERROR, l)
      else if log_exceeds u l (length datap) then Ok (DLT_RETURN_USER_BUFFER_FULL, l)
      else if is_verbose_mode u l then
        (case varinfo of
           None \<Rightarrow>
             if log_exceeds u l (length datap + 4) then Ok (DLT_RETURN_USER_BUFFER_FULL, l)
             else log_argument [le32 type_info, datap] l
         | Some v \<Rightarrow>
             let name_size = cstr_size (vi_name v); unit_size = cstr_size (vi_unit v);
                 needed_size = length datap + 4 + 2 + unat name_size + (if vi_with_unit v then 2 + unat unit_size else 0)
             in if log_exceeds u l needed_size then Ok (DLT_RETURN_USER_BUFFER_FULL, l)
                else log_argument
                  ([le32 (type_info OR DLT_TYPE_INFO_VARI), le16 name_size] @
                   (if vi_with_unit v then [le16 unit_size] else []) @
                   cstr_part (vi_name v) @ cstr_part (vi_unit v) @ [datap]) l)
      else log_argument [datap] l)"

definition dlt_user_log_write_generic_formatted ::
  "bytes \<Rightarrow> u32 \<Rightarrow> u32 \<Rightarrow> dlt_user \<Rightarrow> dlt_log \<Rightarrow> (int \<times> dlt_log) result" where
  "dlt_user_log_write_generic_formatted datap type_info type u l =
     (if format_invalid type then Ok (DLT_RETURN_WRONG_PARAMETER, l)
      else if \<not> user_initialised u then Ok (DLT_RETURN_ERROR, l)
      else if log_exceeds u l (length datap) then Ok (DLT_RETURN_USER_BUFFER_FULL, l)
      else if is_verbose_mode u l then
        (if log_exceeds u l (length datap + 4) then Ok (DLT_RETURN_USER_BUFFER_FULL, l)
         else
           let type_info =
             (if type \<ge> DLT_FORMAT_HEX8 \<and> type \<le> DLT_FORMAT_HEX64 then type_info OR DLT_SCOD_HEX
              else if type \<ge> DLT_FORMAT_BIN8 \<and> type \<le> DLT_FORMAT_BIN16 then type_info OR DLT_SCOD_BIN
              else type_info)
           in log_argument [le32 type_info, datap] l)
      else log_argument [datap] l)"

text \<open>The typed functions. \<open>int\<close> has four bytes and a pointer eight; a float is given by its representation.\<close>

abbreviation with_unit_info :: "cstr \<Rightarrow> cstr \<Rightarrow> var_info option" where
  "with_unit_info name unit \<equiv> Some \<lparr>vi_name = name, vi_unit = unit, vi_with_unit = True\<rparr>"

definition dlt_user_log_write_float32 :: "u32 \<Rightarrow> dlt_user \<Rightarrow> dlt_log \<Rightarrow> (int \<times> dlt_log) result" where
  "dlt_user_log_write_float32 data =
     dlt_user_log_write_generic_attr (le32 data) (DLT_TYPE_INFO_FLOA OR DLT_TYLE_32BIT) None"

definition dlt_user_log_write_float64 :: "u64 \<Rightarrow> dlt_user \<Rightarrow> dlt_log \<Rightarrow> (int \<times> dlt_log) result" where
  "dlt_user_log_write_float64 data =
     dlt_user_log_write_generic_attr (le64 data) (DLT_TYPE_INFO_FLOA OR DLT_TYLE_64BIT) None"

definition dlt_user_log_write_float32_attr ::
  "u32 \<Rightarrow> cstr \<Rightarrow> cstr \<Rightarrow> dlt_user \<Rightarrow> dlt_log \<Rightarrow> (int \<times> dlt_log) result" where
  "dlt_user_log_write_float32_attr data name unit =
     dlt_user_log_write_generic_attr (le32 data) (DLT_TYPE_INFO_FLOA OR DLT_TYLE_32BIT) (with_unit_info name unit)"

definition dlt_user_log_write_float64_attr ::
  "u64 \<Rightarrow> cstr \<Rightarrow> cstr \<Rightarrow> dlt_user \<Rightarrow> dlt_log \<Rightarrow> (int \<times> dlt_log) result" where
  "dlt_user_log_write_float64_attr data name unit =
     dlt_user_log_write_generic_attr (le64 data) (DLT_TYPE_INFO_FLOA OR DLT_TYLE_64BIT) (with_unit_info name unit)"

definition dlt_user_log_write_uint8 :: "byte \<Rightarrow> dlt_user \<Rightarrow> dlt_log \<Rightarrow> (int \<times> dlt_log) result" where
  "dlt_user_log_write_uint8 data =
     dlt_user_log_write_generic_attr ([data]) (DLT_TYPE_INFO_UINT OR DLT_TYLE_8BIT) None"

definition dlt_user_log_write_uint16 :: "u16 \<Rightarrow> dlt_user \<Rightarrow> dlt_log \<Rightarrow> (int \<times> dlt_log) result" where
  "dlt_user_log_write_uint16 data =
     dlt_user_log_write_generic_attr (le16 data) (DLT_TYPE_INFO_UINT OR DLT_TYLE_16BIT) None"

definition dlt_user_log_write_uint32 :: "u32 \<Rightarrow> dlt_user \<Rightarrow> dlt_log \<Rightarrow> (int \<times> dlt_log) result" where
  "dlt_user_log_write_uint32 data =
     dlt_user_log_write_generic_attr (le32 data) (DLT_TYPE_INFO_UINT OR DLT_TYLE_32BIT) None"

definition dlt_user_log_write_uint64 :: "u64 \<Rightarrow> dlt_user \<Rightarrow> dlt_log \<Rightarrow> (int \<times> dlt_log) result" where
  "dlt_user_log_write_uint64 data =
     dlt_user_log_write_generic_attr (le64 data) (DLT_TYPE_INFO_UINT OR DLT_TYLE_64BIT) None"

definition dlt_user_log_write_uint ::
  "u32 \<Rightarrow> dlt_user \<Rightarrow> dlt_log \<Rightarrow> (int \<times> dlt_log) result" where
  "dlt_user_log_write_uint data u l =
     (if \<not> user_initialised u then Ok (DLT_RETURN_ERROR, l) else dlt_user_log_write_uint32 data u l)"

definition dlt_user_log_write_uint8_attr ::
  "byte \<Rightarrow> cstr \<Rightarrow> cstr \<Rightarrow> dlt_user \<Rightarrow> dlt_log \<Rightarrow> (int \<times> dlt_log) result" where
  "dlt_user_log_write_uint8_attr data name unit =
     dlt_user_log_write_generic_attr ([data]) (DLT_TYPE_INFO_UINT OR DLT_TYLE_8BIT) (with_unit_info name unit)"

definition dlt_user_log_write_uint16_attr ::
  "u16 \<Rightarrow> cstr \<Rightarrow> cstr \<Rightarrow> dlt_user \<Rightarrow> dlt_log \<Rightarrow> (int \<times> dlt_log) result" where
  "dlt_user_log_write_uint16_attr data name unit =
     dlt_user_log_write_generic_attr (le16 data) (DLT_TYPE_INFO_UINT OR DLT_TYLE_16BIT) (with_unit_info name unit)"

definition dlt_user_log_write_uint32_attr ::
  "u32 \<Rightarrow> cstr \<Rightarrow> cstr \<Rightarrow> dlt_user \<Rightarrow> dlt_log \<Rightarrow> (int \<times> dlt_log) result" where
  "dlt_user_log_write_uint32_attr data name unit =
     dlt_user_log_write_generic_attr (le32 data) (DLT_TYPE_INFO_UINT OR DLT_TYLE_32BIT) (with_unit_info name unit)"

definition dlt_user_log_write_uint64_attr ::
  "u64 \<Rightarrow> cstr \<Rightarrow> cstr \<Rightarrow> dlt_user \<Rightarrow> dlt_log \<Rightarrow> (int \<times> dlt_log) result" where
  "dlt_user_log_write_uint64_attr data name unit =
     dlt_user_log_write_generic_attr (le64 data) (DLT_TYPE_INFO_UINT OR DLT_TYLE_64BIT) (with_unit_info name unit)"

definition dlt_user_log_write_uint_attr ::
  "u32 \<Rightarrow> cstr \<Rightarrow> cstr \<Rightarrow> dlt_user \<Rightarrow> dlt_log \<Rightarrow> (int \<times> dlt_log) result" where
  "dlt_user_log_write_uint_attr data name unit u l =
     (if \<not> user_initialised u then Ok (DLT_RETURN_ERROR, l) else dlt_user_log_write_uint32_attr data name unit u l)"

definition dlt_user_log_write_uint8_formatted ::
  "byte \<Rightarrow> u32 \<Rightarrow> dlt_user \<Rightarrow> dlt_log \<Rightarrow> (int \<times> dlt_log) result" where
  "dlt_user_log_write_uint8_formatted data type =
     dlt_user_log_write_generic_formatted ([data]) (DLT_TYPE_INFO_UINT OR DLT_TYLE_8BIT) type"

definition dlt_user_log_write_uint16_formatted ::
  "u16 \<Rightarrow> u32 \<Rightarrow> dlt_user \<Rightarrow> dlt_log \<Rightarrow> (int \<times> dlt_log) result" where
  "dlt_user_log_write_uint16_formatted data type =
     dlt_user_log_write_generic_formatted (le16 data) (DLT_TYPE_INFO_UINT OR DLT_TYLE_16BIT) type"

definition dlt_user_log_write_uint32_formatted ::
  "u32 \<Rightarrow> u32 \<Rightarrow> dlt_user \<Rightarrow> dlt_log \<Rightarrow> (int \<times> dlt_log) result" where
  "dlt_user_log_write_uint32_formatted data type =
     dlt_user_log_write_generic_formatted (le32 data) (DLT_TYPE_INFO_UINT OR DLT_TYLE_32BIT) type"

definition dlt_user_log_write_uint64_formatted ::
  "u64 \<Rightarrow> u32 \<Rightarrow> dlt_user \<Rightarrow> dlt_log \<Rightarrow> (int \<times> dlt_log) result" where
  "dlt_user_log_write_uint64_formatted data type =
     dlt_user_log_write_generic_formatted (le64 data) (DLT_TYPE_INFO_UINT OR DLT_TYLE_64BIT) type"

definition dlt_user_log_write_int8 :: "byte \<Rightarrow> dlt_user \<Rightarrow> dlt_log \<Rightarrow> (int \<times> dlt_log) result" where
  "dlt_user_log_write_int8 data =
     dlt_user_log_write_generic_attr ([data]) (DLT_TYPE_INFO_SINT OR DLT_TYLE_8BIT) None"

definition dlt_user_log_write_int16 :: "u16 \<Rightarrow> dlt_user \<Rightarrow> dlt_log \<Rightarrow> (int \<times> dlt_log) result" where
  "dlt_user_log_write_int16 data =
     dlt_user_log_write_generic_attr (le16 data) (DLT_TYPE_INFO_SINT OR DLT_TYLE_16BIT) None"

definition dlt_user_log_write_int32 :: "u32 \<Rightarrow> dlt_user \<Rightarrow> dlt_log \<Rightarrow> (int \<times> dlt_log) result" where
  "dlt_user_log_write_int32 data =
     dlt_user_log_write_generic_attr (le32 data) (DLT_TYPE_INFO_SINT OR DLT_TYLE_32BIT) None"

definition dlt_user_log_write_int64 :: "u64 \<Rightarrow> dlt_user \<Rightarrow> dlt_log \<Rightarrow> (int \<times> dlt_log) result" where
  "dlt_user_log_write_int64 data =
     dlt_user_log_write_generic_attr (le64 data) (DLT_TYPE_INFO_SINT OR DLT_TYLE_64BIT) None"

definition dlt_user_log_write_int ::
  "u32 \<Rightarrow> dlt_user \<Rightarrow> dlt_log \<Rightarrow> (int \<times> dlt_log) result" where
  "dlt_user_log_write_int data u l =
     (if \<not> user_initialised u then Ok (DLT_RETURN_ERROR, l) else dlt_user_log_write_int32 data u l)"

definition dlt_user_log_write_int8_attr ::
  "byte \<Rightarrow> cstr \<Rightarrow> cstr \<Rightarrow> dlt_user \<Rightarrow> dlt_log \<Rightarrow> (int \<times> dlt_log) result" where
  "dlt_user_log_write_int8_attr data name unit =
     dlt_user_log_write_generic_attr ([data]) (DLT_TYPE_INFO_SINT OR DLT_TYLE_8BIT) (with_unit_info name unit)"

definition dlt_user_log_write_int16_attr ::
  "u16 \<Rightarrow> cstr \<Rightarrow> cstr \<Rightarrow> dlt_user \<Rightarrow> dlt_log \<Rightarrow> (int \<times> dlt_log) result" where
  "dlt_user_log_write_int16_attr data name unit =
     dlt_user_log_write_generic_attr (le16 data) (DLT_TYPE_INFO_SINT OR DLT_TYLE_16BIT) (with_unit_info name unit)"

definition dlt_user_log_write_int32_attr ::
  "u32 \<Rightarrow> cstr \<Rightarrow> cstr \<Rightarrow> dlt_user \<Rightarrow> dlt_log \<Rightarrow> (int \<times> dlt_log) result" where
  "dlt_user_log_write_int32_attr data name unit =
     dlt_user_log_write_generic_attr (le32 data) (DLT_TYPE_INFO_SINT OR DLT_TYLE_32BIT) (with_unit_info name unit)"

definition dlt_user_log_write_int64_attr ::
  "u64 \<Rightarrow> cstr \<Rightarrow> cstr \<Rightarrow> dlt_user \<Rightarrow> dlt_log \<Rightarrow> (int \<times> dlt_log) result" where
  "dlt_user_log_write_int64_attr data name unit =
     dlt_user_log_write_generic_attr (le64 data) (DLT_TYPE_INFO_SINT OR DLT_TYLE_64BIT) (with_unit_info name unit)"

definition dlt_user_log_write_int_attr ::
  "u32 \<Rightarrow> cstr \<Rightarrow> cstr \<Rightarrow> dlt_user \<Rightarrow> dlt_log \<Rightarrow> (int \<times> dlt_log) result" where
  "dlt_user_log_write_int_attr data name unit u l =
     (if \<not> user_initialised u then Ok (DLT_RETURN_ERROR, l) else dlt_user_log_write_int32_attr data name unit u l)"

definition dlt_user_log_write_ptr :: "u64 \<Rightarrow> dlt_user \<Rightarrow> dlt_log \<Rightarrow> (int \<times> dlt_log) result" where
  "dlt_user_log_write_ptr data u l =
     (if \<not> user_initialised u then Ok (DLT_RETURN_ERROR, l)
      else dlt_user_log_write_uint64_formatted data DLT_FORMAT_HEX64 u l)"

definition dlt_user_log_write_bool :: "byte \<Rightarrow> dlt_user \<Rightarrow> dlt_log \<Rightarrow> (int \<times> dlt_log) result" where
  "dlt_user_log_write_bool data =
     dlt_user_log_write_generic_attr [data] (DLT_TYPE_INFO_BOOL OR DLT_TYLE_8BIT) None"

definition dlt_user_log_write_bool_attr ::
  "byte \<Rightarrow> cstr \<Rightarrow> dlt_user \<Rightarrow> dlt_log \<Rightarrow> (int \<times> dlt_log) result" where
  "dlt_user_log_write_bool_attr data name =
     dlt_user_log_write_generic_attr [data] (DLT_TYPE_INFO_BOOL OR DLT_TYLE_8BIT)
       (Some \<lparr>vi_name = name, vi_unit = None, vi_with_unit = False\<rparr>)"

section \<open>Strings\<close>

datatype StringType = ASCII_STRING | UTF8_STRING

text \<open>The truncation notice, with the zero byte at its end.\<close>

definition STR_TRUNCATED_MESSAGE :: bytes where
  "STR_TRUNCATED_MESSAGE =
     [46, 46, 46, 32, 60, 60, 77, 101, 115, 115, 97, 103, 101, 32, 116, 114, 117, 110, 99, 97, 116, 101, 100, 44, 32, 116, 111, 111, 32, 108, 111, 110, 103, 62, 62, 0]"

text \<open>
  How many bytes of an incomplete character end the first \<open>max_payload_str_msg\<close> bytes of the text. The bytes
  are read at \<open>text + max_payload_str_msg - 3 + i\<close>, each only when the tests before it ask for it. What counts
  as undefined is a byte read outside the text; the pointer \<open>text + max_payload_str_msg - 3\<close> itself, which lies
  before the text when the room is one or two bytes, does not.
\<close>

definition utf8_reduce_size :: "bytes \<Rightarrow> int \<Rightarrow> u16 result" where
  "utf8_reduce_size text max_payload_str_msg =
     (let tmp = (\<lambda>i. bind_r (ptr_read (max_payload_str_msg - 3 + i) 1 text) (\<lambda>bs. Ok (hd bs))) in
      bind_r (tmp 2) (\<lambda>t2.
        if t2 AND 0x80 \<noteq> 0 then
          (if t2 AND 0x40 \<noteq> 0 then Ok 1
           else bind_r (tmp 1) (\<lambda>t1.
             if t1 AND 0xe0 = 0xe0 then Ok 2
             else bind_r (tmp 0) (\<lambda>t0. if t0 AND 0xf0 = 0xf0 then Ok 3 else Ok 0)))
        else Ok 0))"

text \<open>What is written before the text: the type, the size of the text and its name.\<close>

definition string_description :: "bool \<Rightarrow> StringType \<Rightarrow> cstr \<Rightarrow> bool \<Rightarrow> u16 \<Rightarrow> bytes list" where
  "string_description verbose type name with_var_info arg_size =
     (let type_info =
        (if with_var_info then DLT_TYPE_INFO_VARI else 0) OR
        (case type of ASCII_STRING \<Rightarrow> DLT_TYPE_INFO_STRG OR DLT_SCOD_ASCII
         | UTF8_STRING \<Rightarrow> DLT_TYPE_INFO_STRG OR DLT_SCOD_UTF8)
      in (if verbose then [le32 type_info] else []) @ [le16 arg_size] @
         (if verbose \<and> with_var_info then le16 (cstr_size name) # cstr_part name else []))"

definition dlt_user_log_write_sized_string_utils_attr ::
  "bytes option \<Rightarrow> u16 \<Rightarrow> StringType \<Rightarrow> cstr \<Rightarrow> bool \<Rightarrow> dlt_user \<Rightarrow> dlt_log \<Rightarrow> (int \<times> dlt_log) result" where
  "dlt_user_log_write_sized_string_utils_attr text_ptr len type name with_var_info u l =
     (case text_ptr of
        None \<Rightarrow> Ok (DLT_RETURN_WRONG_PARAMETER, l)
      | Some text \<Rightarrow>
          if \<not> user_initialised u then Ok (DLT_RETURN_ERROR, l)
          else
            let name_size = cstr_size name;
                verbose = is_verbose_mode u l;
                arg_size = len + 1;
                description_size =
                  (if verbose then 4 + (if with_var_info then 2 + ucast name_size else 0) else 0 :: u64);
                new_log_size = scast (log_size l) + ucast arg_size + 2 + description_size;
                description = string_description verbose type name with_var_info
            in
            if new_log_size > ucast (user_log_buf_len u) then
              let arg_size = user_log_buf_len u - ucast (log_size l) - 2 - ucast description_size;
                  min_payload_str_truncate_msg =
                    scast (log_size l) + of_nat (length STR_TRUNCATED_MESSAGE) + 2 + description_size
              in if min_payload_str_truncate_msg > ucast (user_log_buf_len u) then Ok (DLT_RETURN_USER_BUFFER_FULL, l)
              else
                let max_payload_str_msg = ucast (user_log_buf_len u) - min_payload_str_truncate_msg in
                bind_r (case type of UTF8_STRING \<Rightarrow> utf8_reduce_size text (uint max_payload_str_msg)
                        | ASCII_STRING \<Rightarrow> Ok 0) (\<lambda>reduce_size.
                bind_r (ptr_read 0 (unat (max_payload_str_msg - ucast reduce_size)) text) (\<lambda>part.
                bind_r (log_puts (description (arg_size - reduce_size) @ [part, STR_TRUNCATED_MESSAGE]) l) (\<lambda>l1.
                  Ok (DLT_RETURN_USER_BUFFER_FULL, l1\<lparr>log_args_num := log_args_num l1 + 1\<rparr>))))
            else
              bind_r (ptr_read 0 (unat len) text) (\<lambda>whole.
              bind_r (log_puts (description arg_size) l) (\<lambda>l1.
              bind_r (ptr_write (sint (log_size l1)) whole (the (log_buffer l1))) (\<lambda>b1.
              bind_r (ptr_write (sint (log_size l1) + uint len) [0] b1) (\<lambda>b2.
                Ok (DLT_RETURN_OK, l1\<lparr>log_buffer := Some b2, log_size := log_size l1 + ucast arg_size,
                  log_args_num := log_args_num l1 + 1\<rparr>))))))"

definition dlt_user_log_write_string_utils_attr ::
  "cstr \<Rightarrow> StringType \<Rightarrow> cstr \<Rightarrow> bool \<Rightarrow> dlt_user \<Rightarrow> dlt_log \<Rightarrow> (int \<times> dlt_log) result" where
  "dlt_user_log_write_string_utils_attr text type name with_var_info u l =
     (case text of
        None \<Rightarrow> Ok (DLT_RETURN_WRONG_PARAMETER, l)
      | Some t \<Rightarrow>
          dlt_user_log_write_sized_string_utils_attr (Some (t @ [0])) (of_nat (length t)) type name with_var_info u l)"

definition dlt_user_log_write_string where
  "dlt_user_log_write_string text =
     dlt_user_log_write_string_utils_attr text ASCII_STRING None False"

definition dlt_user_log_write_constant_string where
  "dlt_user_log_write_constant_string text u l =
     (if is_verbose_mode u l then dlt_user_log_write_string text u l else Ok (DLT_RETURN_OK, l))"

definition dlt_user_log_write_string_attr where
  "dlt_user_log_write_string_attr text name =
     dlt_user_log_write_string_utils_attr text ASCII_STRING name True"

definition dlt_user_log_write_constant_string_attr where
  "dlt_user_log_write_constant_string_attr text name u l =
     (if is_verbose_mode u l then dlt_user_log_write_string_attr text name u l else Ok (DLT_RETURN_OK, l))"

definition dlt_user_log_write_sized_string where
  "dlt_user_log_write_sized_string text len =
     dlt_user_log_write_sized_string_utils_attr text len ASCII_STRING None False"

definition dlt_user_log_write_sized_constant_string where
  "dlt_user_log_write_sized_constant_string text len u l =
     (if is_verbose_mode u l then dlt_user_log_write_sized_string text len u l else Ok (DLT_RETURN_OK, l))"

definition dlt_user_log_write_sized_string_attr where
  "dlt_user_log_write_sized_string_attr text len name =
     dlt_user_log_write_sized_string_utils_attr text len ASCII_STRING name True"

definition dlt_user_log_write_sized_constant_string_attr where
  "dlt_user_log_write_sized_constant_string_attr text len name u l =
     (if is_verbose_mode u l then dlt_user_log_write_sized_string_attr text len name u l else Ok (DLT_RETURN_OK, l))"

definition dlt_user_log_write_utf8_string where
  "dlt_user_log_write_utf8_string text =
     dlt_user_log_write_string_utils_attr text UTF8_STRING None False"

definition dlt_user_log_write_constant_utf8_string where
  "dlt_user_log_write_constant_utf8_string text u l =
     (if is_verbose_mode u l then dlt_user_log_write_utf8_string text u l else Ok (DLT_RETURN_OK, l))"

definition dlt_user_log_write_utf8_string_attr where
  "dlt_user_log_write_utf8_string_attr text name =
     dlt_user_log_write_string_utils_attr text UTF8_STRING name True"

definition dlt_user_log_write_constant_utf8_string_attr where
  "dlt_user_log_write_constant_utf8_string_attr text name u l =
     (if is_verbose_mode u l then dlt_user_log_write_utf8_string_attr text name u l else Ok (DLT_RETURN_OK, l))"

definition dlt_user_log_write_sized_utf8_string where
  "dlt_user_log_write_sized_utf8_string text len =
     dlt_user_log_write_sized_string_utils_attr text len UTF8_STRING None False"

definition dlt_user_log_write_sized_constant_utf8_string where
  "dlt_user_log_write_sized_constant_utf8_string text len u l =
     (if is_verbose_mode u l then dlt_user_log_write_sized_utf8_string text len u l else Ok (DLT_RETURN_OK, l))"

definition dlt_user_log_write_sized_utf8_string_attr where
  "dlt_user_log_write_sized_utf8_string_attr text len name =
     dlt_user_log_write_sized_string_utils_attr text len UTF8_STRING name True"

definition dlt_user_log_write_sized_constant_utf8_string_attr where
  "dlt_user_log_write_sized_constant_utf8_string_attr text len name u l =
     (if is_verbose_mode u l then dlt_user_log_write_sized_utf8_string_attr text len name u l else Ok (DLT_RETURN_OK, l))"

end
