(* ===== verification/Dlt_Message.thy ===== *)
theory Dlt_Message
  imports Dlt_Text Dlt_Log
begin

text \<open>
  Messages of the log protocol: their headers, the reading of a message from received bytes
  (\<open>dlt_message_read\<close> and its neighbours in \<open>dlt-daemon/src/shared/dlt_common.c\<close>), and the header an
  application puts before the arguments of a log message (the first part of \<open>dlt_user_log_send_log\<close> in
  \<open>dlt_user.c\<close>). The headers are stored in a buffer of 42 bytes; a pointer to one of them is its offset there.
  The host is little-endian.
\<close>

section \<open>Byte order\<close>

definition DLT_SWAP_16 :: "u16 \<Rightarrow> u16" where
  "DLT_SWAP_16 x = ((drop_bit 8 x) AND 0xff) OR ((push_bit 8 x) AND 0xff00)"

definition DLT_SWAP_32 :: "u32 \<Rightarrow> u32" where
  "DLT_SWAP_32 x = ((drop_bit 24 x) AND 0xff) OR ((push_bit 8 x) AND 0xff0000) OR ((drop_bit 8 x) AND 0xff00) OR
     ((push_bit 24 x) AND 0xff000000)"

definition DLT_SWAP_64 :: "u64 \<Rightarrow> u64" where
  "DLT_SWAP_64 x = (push_bit 32 (ucast (DLT_SWAP_32 (ucast (x AND 0xffffffff))))) OR ucast (DLT_SWAP_32 (ucast (drop_bit 32 x)))"

definition DLT_HTYP_UEH :: byte where "DLT_HTYP_UEH = 0x01"
definition DLT_HTYP_MSBF :: byte where "DLT_HTYP_MSBF = 0x02"
definition DLT_HTYP_WEID :: byte where "DLT_HTYP_WEID = 0x04"
definition DLT_HTYP_WSID :: byte where "DLT_HTYP_WSID = 0x08"
definition DLT_HTYP_WTMS :: byte where "DLT_HTYP_WTMS = 0x10"
definition DLT_HTYP_PROTOCOL_VERSION1 :: byte where "DLT_HTYP_PROTOCOL_VERSION1 = 0x20"

lemmas htyp_defs = DLT_HTYP_UEH_def DLT_HTYP_MSBF_def DLT_HTYP_WEID_def DLT_HTYP_WSID_def DLT_HTYP_WTMS_def
  DLT_HTYP_PROTOCOL_VERSION1_def

definition DLT_ENDIAN_GET_16 :: "byte \<Rightarrow> u16 \<Rightarrow> u16" where
  "DLT_ENDIAN_GET_16 htyp x = (if htyp AND DLT_HTYP_MSBF > 0 then DLT_SWAP_16 x else x)"

definition DLT_ENDIAN_GET_32 :: "byte \<Rightarrow> u32 \<Rightarrow> u32" where
  "DLT_ENDIAN_GET_32 htyp x = (if htyp AND DLT_HTYP_MSBF > 0 then DLT_SWAP_32 x else x)"

definition DLT_ENDIAN_GET_64 :: "byte \<Rightarrow> u64 \<Rightarrow> u64" where
  "DLT_ENDIAN_GET_64 htyp x = (if htyp AND DLT_HTYP_MSBF > 0 then DLT_SWAP_64 x else x)"

text \<open>The number that is stored in bytes, lowest first.\<close>

definition le_nat :: "bytes \<Rightarrow> nat" where
  "le_nat bs = foldr (\<lambda>b n. unat b + 256 * n) bs 0"

section \<open>Messages\<close>

definition sizeof_storage :: nat where "sizeof_storage = 16"
definition sizeof_standard :: nat where "sizeof_standard = 4"
definition sizeof_extended :: nat where "sizeof_extended = 10"
definition sizeof_headerbuffer :: nat where "sizeof_headerbuffer = 42"

lemmas dlt_sizeof_defs = sizeof_storage_def sizeof_standard_def sizeof_extended_def sizeof_headerbuffer_def

record dlt_message =
  found_serialheader :: bool
  resync_offset :: int
  headersize :: u32
  datasize :: u32
  headerbuffer :: bytes
  databuffer :: "bytes option"
  databuffersize :: u32
  standardheader :: "nat option"
  extendedheader :: "nat option"
  extra_ecu :: bytes
  extra_seid :: u32
  extra_tmsp :: u32

definition DLT_STANDARD_HEADER_EXTRA_SIZE :: "byte \<Rightarrow> nat" where
  "DLT_STANDARD_HEADER_EXTRA_SIZE htyp =
     (if htyp AND DLT_HTYP_WEID \<noteq> 0 then 4 else 0) + (if htyp AND DLT_HTYP_WSID \<noteq> 0 then 4 else 0) +
     (if htyp AND DLT_HTYP_WTMS \<noteq> 0 then 4 else 0)"

text \<open>Reading a field of a header through its pointer.\<close>

definition header_byte :: "nat option \<Rightarrow> nat \<Rightarrow> dlt_message \<Rightarrow> byte result" where
  "header_byte ptr i m =
     (case ptr of None \<Rightarrow> Undefined
      | Some p \<Rightarrow> bind_r (ptr_read (int (p + i)) 1 (headerbuffer m)) (\<lambda>d. Ok (hd d)))"

definition msg_htyp :: "dlt_message \<Rightarrow> byte result" where
  "msg_htyp m = header_byte (standardheader m) 0 m"

definition msg_msin :: "dlt_message \<Rightarrow> byte result" where
  "msg_msin m = header_byte (extendedheader m) 0 m"

definition msg_noar :: "dlt_message \<Rightarrow> byte result" where
  "msg_noar m = header_byte (extendedheader m) 1 m"

definition dlt_message_init :: "dlt_message \<Rightarrow> int \<times> dlt_message" where
  "dlt_message_init m =
     (DLT_RETURN_OK, m\<lparr>headersize := 0, datasize := 0, databuffer := None, databuffersize := 0,
        standardheader := None, extendedheader := None, found_serialheader := False\<rparr>)"

definition dlt_message_free :: "dlt_message \<Rightarrow> int \<times> dlt_message" where
  "dlt_message_free m =
     (DLT_RETURN_OK, if databuffer m \<noteq> None then m\<lparr>databuffer := None, databuffersize := 0\<rparr> else m)"

text \<open>The parameters behind the standard header, each in big-endian order.\<close>

definition extra_pos :: nat where "extra_pos = sizeof_storage + sizeof_standard"

definition dlt_message_get_extraparameters :: "dlt_message \<Rightarrow> (int \<times> dlt_message) result" where
  "dlt_message_get_extraparameters m =
     bind_r (msg_htyp m) (\<lambda>htyp.
     let weid = (if htyp AND DLT_HTYP_WEID \<noteq> 0 then 4 else 0); wsid = (if htyp AND DLT_HTYP_WSID \<noteq> 0 then 4 else 0) in
     bind_r (if htyp AND DLT_HTYP_WEID \<noteq> 0
             then bind_r (ptr_read (int extra_pos) 4 (headerbuffer m)) (\<lambda>d. Ok (m\<lparr>extra_ecu := d\<rparr>)) else Ok m) (\<lambda>m1.
     bind_r (if htyp AND DLT_HTYP_WSID \<noteq> 0
             then bind_r (ptr_read (int (extra_pos + weid)) 4 (headerbuffer m))
               (\<lambda>d. Ok (m1\<lparr>extra_seid := DLT_SWAP_32 (of_nat (le_nat d))\<rparr>)) else Ok m1) (\<lambda>m2.
     bind_r (if htyp AND DLT_HTYP_WTMS \<noteq> 0
             then bind_r (ptr_read (int (extra_pos + weid + wsid)) 4 (headerbuffer m))
               (\<lambda>d. Ok (m2\<lparr>extra_tmsp := DLT_SWAP_32 (of_nat (le_nat d))\<rparr>)) else Ok m2) (\<lambda>m3.
     Ok (DLT_RETURN_OK, m3)))))"

definition put_header :: "nat \<Rightarrow> bytes \<Rightarrow> dlt_message \<Rightarrow> dlt_message result" where
  "put_header pos d m = bind_r (ptr_write (int pos) d (headerbuffer m)) (\<lambda>h. Ok (m\<lparr>headerbuffer := h\<rparr>))"

definition dlt_message_set_extraparameters :: "dlt_message \<Rightarrow> (int \<times> dlt_message) result" where
  "dlt_message_set_extraparameters m =
     bind_r (msg_htyp m) (\<lambda>htyp.
     let weid = (if htyp AND DLT_HTYP_WEID \<noteq> 0 then 4 else 0); wsid = (if htyp AND DLT_HTYP_WSID \<noteq> 0 then 4 else 0) in
     bind_r (if htyp AND DLT_HTYP_WEID \<noteq> 0 then put_header extra_pos (take 4 (extra_ecu m)) m else Ok m) (\<lambda>m1.
     bind_r (if htyp AND DLT_HTYP_WSID \<noteq> 0
             then (let seid = DLT_SWAP_32 (extra_seid m1) in
                   put_header (extra_pos + weid) (le32 seid) (m1\<lparr>extra_seid := seid\<rparr>)) else Ok m1) (\<lambda>m2.
     bind_r (if htyp AND DLT_HTYP_WTMS \<noteq> 0
             then (let tmsp = DLT_SWAP_32 (extra_tmsp m2) in
                   put_header (extra_pos + weid + wsid) (le32 tmsp) (m2\<lparr>extra_tmsp := tmsp\<rparr>)) else Ok m2) (\<lambda>m3.
     Ok (DLT_RETURN_OK, m3)))))"

section \<open>Reading a message\<close>

definition DLT_MESSAGE_ERROR_OK :: int where "DLT_MESSAGE_ERROR_OK = 0"
definition DLT_MESSAGE_ERROR_UNKNOWN :: int where "DLT_MESSAGE_ERROR_UNKNOWN = -1"
definition DLT_MESSAGE_ERROR_SIZE :: int where "DLT_MESSAGE_ERROR_SIZE = -2"
definition DLT_MESSAGE_ERROR_CONTENT :: int where "DLT_MESSAGE_ERROR_CONTENT = -3"

lemmas dlt_message_error_defs = DLT_MESSAGE_ERROR_OK_def DLT_MESSAGE_ERROR_UNKNOWN_def DLT_MESSAGE_ERROR_SIZE_def
  DLT_MESSAGE_ERROR_CONTENT_def

definition dltSerialHeader :: bytes where "dltSerialHeader = [68, 76, 83, 1]"

text \<open>
  The search for a serial header, from the offset on. The result says whether it was found and the offset at
  the end. The offset is an \<open>int32_t\<close>.
\<close>

function resync_loop :: "bytes \<Rightarrow> nat \<Rightarrow> nat \<Rightarrow> (bool \<times> nat) result" where
  "resync_loop buffer len off =
     bind_r (ptr_read (int off) 4 buffer) (\<lambda>d.
     if d = dltSerialHeader then Ok (True, off)
     else if 2 ^ 31 \<le> off + 1 then Undefined
     else if 4 + (off + 1) \<le> len then resync_loop buffer len (off + 1)
     else Ok (False, off + 1))"
  by pat_completeness auto
termination
  by (relation "measure (\<lambda>(buffer, len, off). len - off)") auto

declare resync_loop.simps [simp del]

text \<open>
  Skipping the serial header, and what is before it when \<open>resync\<close> is set. The result is the position in the
  buffer and the length that is left.
\<close>

definition skip_serial_header :: "bytes \<Rightarrow> nat \<Rightarrow> bool \<Rightarrow> dlt_message \<Rightarrow> (nat \<times> nat \<times> dlt_message) result" where
  "skip_serial_header buffer len resync m =
     bind_r (ptr_read 0 4 buffer) (\<lambda>d.
     if d = dltSerialHeader then Ok (4, len - 4, m\<lparr>found_serialheader := True\<rparr>)
     else if resync
     then bind_r (resync_loop buffer len 0) (\<lambda>(found, off).
       let skipped = (if found then 4 else 0) + off in
       Ok (skipped, len - skipped, m\<lparr>found_serialheader := found, resync_offset := int off\<rparr>))
     else Ok (0, len, m\<lparr>found_serialheader := False\<rparr>))"

text \<open>
  Room for the payload: the old buffer, when it is large enough, or a new one. \<open>env\<close> gives the outcome of
  \<open>malloc\<close>.
\<close>

definition payload_room :: "c_platform \<Rightarrow> dlt_message \<Rightarrow> dlt_message" where
  "payload_room env m =
     (if databuffer m = None \<or> sint (datasize m) > sint (databuffersize m)
      then m\<lparr>databuffer := map_option (\<lambda>content. map content [0..<unat (datasize m)]) (malloc env (unat (datasize m))),
             databuffersize := datasize m\<rparr>
      else m)"

definition read_payload :: "c_platform \<Rightarrow> bytes \<Rightarrow> nat \<Rightarrow> nat \<Rightarrow> dlt_message \<Rightarrow> (int \<times> dlt_message) result" where
  "read_payload env buffer pos len m =
     (let headers = unat (headersize m) - sizeof_storage in
      if len < headers + unat (datasize m) then Ok (DLT_MESSAGE_ERROR_SIZE, m)
      else let m1 = payload_room env m in
        case databuffer m1 of
          None \<Rightarrow> Ok (DLT_MESSAGE_ERROR_UNKNOWN, m1)
        | Some area \<Rightarrow>
            bind_r (memcpy area 0 buffer (int (pos + headers)) (unat (datasize m1)))
              (\<lambda>area1. Ok (DLT_MESSAGE_ERROR_OK, m1\<lparr>databuffer := Some area1\<rparr>)))"

text \<open>The extra parameters and the extended header, \<open>extra_size\<close> bytes behind the standard header.\<close>

definition read_extra :: "bytes \<Rightarrow> nat \<Rightarrow> nat \<Rightarrow> byte \<Rightarrow> nat \<Rightarrow> dlt_message \<Rightarrow> (bool \<times> dlt_message) result" where
  "read_extra buffer pos len htyp extra_size m =
     (if extra_size > 0
      then if len < unat (headersize m) - sizeof_storage then Ok (False, m)
        else bind_r (ptr_read (int (pos + sizeof_standard)) extra_size buffer) (\<lambda>d.
          bind_r (put_header (sizeof_storage + sizeof_standard) d m) (\<lambda>m1.
          bind_r (dlt_message_get_extraparameters (m1\<lparr>extendedheader :=
              if htyp AND DLT_HTYP_UEH \<noteq> 0
              then Some (sizeof_storage + sizeof_standard + DLT_STANDARD_HEADER_EXTRA_SIZE htyp) else None\<rparr>))
            (\<lambda>(_, m2). Ok (True, m2))))
      else Ok (True, m))"

definition dlt_message_read ::
  "c_platform \<Rightarrow> bytes option \<Rightarrow> u32 \<Rightarrow> bool \<Rightarrow> dlt_message \<Rightarrow> (int \<times> dlt_message) result" where
  "dlt_message_read env buffer_ptr len resync m =
     (case buffer_ptr of
        None \<Rightarrow> Ok (DLT_MESSAGE_ERROR_UNKNOWN, m)
      | Some buffer \<Rightarrow>
          if len \<le> 0 then Ok (DLT_MESSAGE_ERROR_UNKNOWN, m)
          else let m0 = m\<lparr>resync_offset := 0\<rparr> in
          if unat len < length dltSerialHeader then Ok (DLT_MESSAGE_ERROR_SIZE, m0)
          else bind_r (skip_serial_header buffer (unat len) resync m0) (\<lambda>(pos, left, m1).
          if left < sizeof_standard then Ok (DLT_MESSAGE_ERROR_SIZE, m1)
          else bind_r (ptr_read (int pos) sizeof_standard buffer) (\<lambda>std.
          bind_r (put_header sizeof_storage std m1) (\<lambda>m2.
          let htyp = std ! 0;
              total = int (unat (DLT_SWAP_16 (of_nat (le_nat (drop 2 std)))));
              extra_size = DLT_STANDARD_HEADER_EXTRA_SIZE htyp + (if htyp AND DLT_HTYP_UEH \<noteq> 0 then sizeof_extended else 0);
              temp_datasize = total - int (sizeof_standard + extra_size);
              m3 = m2\<lparr>standardheader := Some sizeof_storage,
                headersize := of_nat (sizeof_storage + sizeof_standard + extra_size), datasize := of_int temp_datasize\<rparr>
          in if temp_datasize < 0 then Ok (DLT_MESSAGE_ERROR_CONTENT, m3)
             else bind_r (read_extra buffer pos left htyp extra_size m3) (\<lambda>(fits, m4).
               if \<not> fits then Ok (DLT_MESSAGE_ERROR_SIZE, m4) else read_payload env buffer pos left m4)))))"

section \<open>The header of a log message\<close>

text \<open>
  What \<open>dlt_user_log_send_log\<close> takes from \<open>dlt_user\<close>, from the context and from the system: identifiers (areas
  of four bytes), the counter of messages, options, process identifier, clock and time of day.
\<close>

record send_env =
  se_ecuID :: bytes
  se_appID :: bytes
  se_contextID :: bytes
  se_mcnt :: byte
  se_trace_status :: u32
  se_user_timestamp :: u32
  se_with_ecu_id :: bool
  se_with_timestamp :: bool
  se_with_session_id :: bool
  se_extended_non_verbose :: bool
  se_pid :: u32
  se_uptime :: u32
  se_seconds :: u32
  se_microseconds :: u32

definition dlt_set_storageheader :: "nat \<Rightarrow> bytes \<Rightarrow> u32 \<Rightarrow> u32 \<Rightarrow> dlt_message \<Rightarrow> (int \<times> dlt_message) result" where
  "dlt_set_storageheader pos ecu sec usec m =
     bind_r (dlt_set_id ecu) (\<lambda>d.
     bind_r (put_header pos ([68, 76, 84, 1] @ le32 sec @ le32 usec @ d) m) (\<lambda>m1. Ok (DLT_RETURN_OK, m1)))"

definition DLT_TYPE_LOG :: u32 where "DLT_TYPE_LOG = 0"
definition DLT_TYPE_NW_TRACE :: u32 where "DLT_TYPE_NW_TRACE = 2"
definition DLT_TYPE_CONTROL :: u32 where "DLT_TYPE_CONTROL = 3"
definition DLT_MSIN_VERB :: byte where "DLT_MSIN_VERB = 1"

lemmas dlt_type_defs = DLT_TYPE_LOG_def DLT_TYPE_NW_TRACE_def DLT_TYPE_CONTROL_def DLT_MSIN_VERB_def

definition log_htyp :: "send_env \<Rightarrow> bool \<Rightarrow> byte" where
  "log_htyp se verbose =
     DLT_HTYP_PROTOCOL_VERSION1 OR (if se_with_ecu_id se then DLT_HTYP_WEID else 0) OR
     (if se_with_timestamp se then DLT_HTYP_WTMS else 0) OR (if se_with_session_id se then DLT_HTYP_WSID else 0) OR
     (if verbose \<or> se_extended_non_verbose se then DLT_HTYP_UEH else 0)"

text \<open>\<open>msin\<close>, or no value for a type that has none.\<close>

definition log_msin :: "send_env \<Rightarrow> bool \<Rightarrow> u32 \<Rightarrow> dlt_log \<Rightarrow> byte option" where
  "log_msin se verbose mtype l =
     (let msin = (\<lambda>info. (ucast (push_bit 1 mtype OR (push_bit 4 info AND 0xf0)) :: byte) OR
                    (if verbose then DLT_MSIN_VERB else 0))
      in if mtype = DLT_TYPE_LOG then Some (msin (log_level l))
         else if mtype = DLT_TYPE_NW_TRACE then Some (msin (se_trace_status se))
         else None)"

definition log_extended :: "send_env \<Rightarrow> bool \<Rightarrow> u32 \<Rightarrow> dlt_log \<Rightarrow> nat \<Rightarrow> dlt_message \<Rightarrow> (int \<times> dlt_message) result" where
  "log_extended se verbose mtype l pos m =
     (case log_msin se verbose mtype l of
        None \<Rightarrow> Ok (DLT_RETURN_ERROR, m\<lparr>extendedheader := Some pos\<rparr>)
      | Some msin \<Rightarrow>
          bind_r (dlt_set_id (se_appID se)) (\<lambda>apid. bind_r (dlt_set_id (se_contextID se)) (\<lambda>ctid.
          bind_r (put_header pos ([msin, ucast (log_args_num l)] @ apid @ ctid) (m\<lparr>extendedheader := Some pos\<rparr>))
            (\<lambda>m1. Ok (DLT_RETURN_OK, m1)))))"

text \<open>
  The header up to the point where the message is printed, stored or sent; \<open>m\<close> is the local variable before
  its initialisation. The result has the new value of the context's message counter.
\<close>

definition dlt_user_log_send_header ::
  "send_env \<Rightarrow> u32 \<Rightarrow> dlt_user \<Rightarrow> dlt_log \<Rightarrow> dlt_message \<Rightarrow> (int \<times> byte \<times> dlt_message) result" where
  "dlt_user_log_send_header se mtype u l m =
     (if \<not> user_initialised u then Ok (DLT_RETURN_ERROR, se_mcnt se, m)
      else if log_handle l = None \<or> se_contextID se ! 0 = 0 \<or> sint mtype < sint DLT_TYPE_LOG \<or>
              sint mtype > sint DLT_TYPE_CONTROL
      then Ok (DLT_RETURN_WRONG_PARAMETER, se_mcnt se, m)
      else
        let verbose = is_verbose_mode u l; htyp = log_htyp se verbose;
            ext = sizeof_storage + sizeof_standard + DLT_STANDARD_HEADER_EXTRA_SIZE htyp;
            m0 = snd (dlt_message_init m)
        in
        bind_r (dlt_set_storageheader 0 (se_ecuID se) (se_seconds se) (se_microseconds se) m0) (\<lambda>(_, m1).
        bind_r (put_header sizeof_storage [htyp, se_mcnt se] (m1\<lparr>standardheader := Some sizeof_storage\<rparr>)) (\<lambda>m2.
        bind_r (dlt_set_id (se_ecuID se)) (\<lambda>ecu.
        bind_r (dlt_message_set_extraparameters (m2\<lparr>extra_ecu := ecu,
            extra_seid := if se_with_session_id se then se_pid se else extra_seid m2,
            extra_tmsp := if log_auto_timestamp l then se_uptime se else se_user_timestamp se\<rparr>)) (\<lambda>(_, m3).
        bind_r (if htyp AND DLT_HTYP_UEH \<noteq> 0 then log_extended se verbose mtype l ext m3
                else Ok (DLT_RETURN_OK, m3)) (\<lambda>(ret, m4).
        if ret = DLT_RETURN_ERROR then Ok (DLT_RETURN_ERROR, se_mcnt se + 1, m4)
        else
          let n = ext + (if htyp AND DLT_HTYP_UEH \<noteq> 0 then sizeof_extended else 0);
              len = int (n - sizeof_storage) + sint (log_size l);
              m5 = m4\<lparr>headersize := of_nat n\<rparr>
          in if len > 65535 then Ok (DLT_RETURN_ERROR, se_mcnt se + 1, m5)
             else bind_r (put_header (sizeof_storage + 2) (le16 (DLT_SWAP_16 (of_int len))) m5)
               (\<lambda>m6. Ok (DLT_RETURN_OK, se_mcnt se + 1, m6))))))))"

text \<open>
  The frame of a message: the headers without the storage header, and the arguments. What is written to the
  daemon has a user header in front; \<open>dlt_user_set_userheader\<close> is \<open>None\<close> where it returns an error.
\<close>

definition frame_bytes :: "dlt_message \<Rightarrow> dlt_log \<Rightarrow> bytes" where
  "frame_bytes m l =
     take (unat (headersize m) - sizeof_storage) (drop sizeof_storage (headerbuffer m)) @
     take (unat (log_size l)) (the (log_buffer l))"

definition DLT_USER_MESSAGE_LOG :: u32 where "DLT_USER_MESSAGE_LOG = 1"
definition sizeof_userheader :: nat where "sizeof_userheader = 8"

definition dlt_user_set_userheader :: "u32 \<Rightarrow> bytes option" where
  "dlt_user_set_userheader mtype = (if mtype \<le> 0 then None else Some (ascii ''DUH'' @ [1] @ le32 mtype))"

definition sent_bytes :: "dlt_message \<Rightarrow> dlt_log \<Rightarrow> bytes" where
  "sent_bytes m l = the (dlt_user_set_userheader DLT_USER_MESSAGE_LOG) @ frame_bytes m l"

text \<open>
  The daemon reads the message behind the user header, \<open>bytesRcvd\<close> bytes being in its buffer
  (\<open>dlt_daemon_process_user_message_log\<close>, without shared memory).
\<close>

definition daemon_read_log :: "c_platform \<Rightarrow> bytes \<Rightarrow> u32 \<Rightarrow> dlt_message \<Rightarrow> (int \<times> dlt_message) result" where
  "daemon_read_log env buf bytesRcvd m =
     dlt_message_read env (Some (drop sizeof_userheader buf)) (bytesRcvd - of_nat sizeof_userheader) False m"

end
