(* ===== verification/Dlt_Record.thy ===== *)
theory Dlt_Record
  imports Dlt_Log Dlt_Queue
begin

text \<open>
  What the argument functions of \<open>Dlt_Log\<close> do to the message under construction, stated over its content (the
  bytes used so far) and its number of arguments: \<open>record_argument\<close> is the protocol's view of an argument, and
  the functions of \<open>dlt_user.c\<close> refine it.
\<close>

section \<open>The buffer of a message\<close>

definition log_wf :: "dlt_user \<Rightarrow> dlt_log \<Rightarrow> bool" where
  "log_wf u l \<longleftrightarrow> (case log_buffer l of None \<Rightarrow> False | Some b \<Rightarrow>
     length b = unat (user_log_buf_len u) \<and> unat (log_size l) \<le> unat (user_log_buf_len u))"

definition log_bytes :: "dlt_log \<Rightarrow> bytes" where
  "log_bytes l = take (unat (log_size l)) (the (log_buffer l))"

definition log_ext :: "dlt_user \<Rightarrow> dlt_log \<Rightarrow> bytes \<Rightarrow> dlt_log \<Rightarrow> bool" where
  "log_ext u l d l' \<longleftrightarrow> log_wf u l' \<and> log_bytes l' = log_bytes l @ d \<and>
     log_args_num l' = log_args_num l \<and> log_verbose_mode l' = log_verbose_mode l"

lemma buf_len_less: "unat (user_log_buf_len u) < 65536"
  using unsigned_less [of "user_log_buf_len u", where 'a = nat] by simp

lemma log_wf_obtain:
  assumes "log_wf u l"
  obtains b where "log_buffer l = Some b" "length b = unat (user_log_buf_len u)"
    "unat (log_size l) \<le> unat (user_log_buf_len u)" "sint (log_size l) = int (unat (log_size l))"
    "unat (log_size l) < 65536" "length (log_bytes l) = unat (log_size l)"
proof -
  obtain b where b: "log_buffer l = Some b" "length b = unat (user_log_buf_len u)"
    "unat (log_size l) \<le> unat (user_log_buf_len u)"
    using assms by (auto simp: log_wf_def split: option.splits)
  have lt: "unat (log_size l) < 65536"
    using b(3) buf_len_less [of u] by simp
  have "sint (log_size l) = int (unat (log_size l))"
    using sint_small [of "log_size l"] lt by simp
  with b lt show thesis using that by (simp add: log_bytes_def)
qed

lemma log_put_ext:
  assumes "log_wf u l" "length (log_bytes l) + length d \<le> unat (user_log_buf_len u)"
  shows "\<exists>l'. log_put d l = Ok l' \<and> log_ext u l d l'"
proof -
  obtain b where b: "log_buffer l = Some b" "length b = unat (user_log_buf_len u)"
    "sint (log_size l) = int (unat (log_size l))" "unat (log_size l) < 65536" "length (log_bytes l) = unat (log_size l)"
    using assms(1) by (rule log_wf_obtain)
  have n: "unat (log_size l + of_nat (length d)) = unat (log_size l) + length d"
    using buf_len_less [of u] assms(2) b(5) by (simp add: unat_word_ariths unat_of_nat)
  show ?thesis
    using assms b n by (simp add: log_put_def ptr_write_def log_ext_def log_wf_def log_bytes_def)
qed

lemma log_ext_trans: "log_ext u l d l1 \<Longrightarrow> log_ext u l1 e l2 \<Longrightarrow> log_ext u l (d @ e) l2"
  by (simp add: log_ext_def)

lemma log_ext_refl: "log_wf u l \<Longrightarrow> log_ext u l [] l"
  by (simp add: log_ext_def)

lemma log_puts_ext:
  assumes "log_wf u l" "length (log_bytes l) + length (concat ds) \<le> unat (user_log_buf_len u)"
  shows "\<exists>l'. log_puts ds l = Ok l' \<and> log_ext u l (concat ds) l'"
  using assms
proof (induction ds arbitrary: l)
  case Nil
  then show ?case by (simp add: log_ext_refl)
next
  case (Cons d ds)
  obtain l1 where l1: "log_put d l = Ok l1" "log_ext u l d l1"
    using log_put_ext [of u l d] Cons.prems by auto
  then obtain l2 where "log_puts ds l1 = Ok l2" "log_ext u l1 (concat ds) l2"
    using Cons.IH [of l1] Cons.prems by (auto simp: log_ext_def)
  with l1 show ?case using log_ext_trans by auto
qed

lemma scast_log_size: "log_wf u l \<Longrightarrow> (scast (log_size l) :: u64) = of_nat (length (log_bytes l))"
  by (erule log_wf_obtain) (metis of_int_of_nat_eq of_int_sint)

lemma buf_len_u64: "n < 2 ^ 64 \<Longrightarrow> (ucast (user_log_buf_len u) < (of_nat n :: u64)) \<longleftrightarrow> unat (user_log_buf_len u) < n"
  using buf_len_less [of u]
  by (simp add: word_less_nat_alt unsigned_ucast_eq take_bit_nat_eq_self unat_of_nat)

lemma log_bytes_less: "log_wf u l \<Longrightarrow> length (log_bytes l) < 65536"
  by (erule log_wf_obtain) simp

lemma log_exceeds_iff:
  assumes "log_wf u l" "n < 2 ^ 32"
  shows "log_exceeds u l n \<longleftrightarrow> unat (user_log_buf_len u) < length (log_bytes l) + n"
  using buf_len_u64 [of "length (log_bytes l) + n" u] log_bytes_less [OF assms(1)] assms
  by (simp add: log_exceeds_def scast_log_size)

lemma length_cstr_part [simp]: "length (concat (cstr_part s)) = unat (cstr_size s)"
proof (cases s)
  case (Some t)
  have "unat (cstr_size s) \<le> length t + 1"
    using Some by (simp add: cstr_size_def unat_of_nat take_bit_eq_mod del: of_nat_Suc)
  then show ?thesis using Some by (auto simp: cstr_part_def)
qed (simp add: cstr_part_def cstr_size_def)

section \<open>What an argument is\<close>

datatype dlt_argument =
    Raw_arg "bytes option" u16 u32 cstr bool
  | Value_arg bytes u32 "var_info option"
  | Formatted_arg bytes u32 u32
  | String_arg "bytes option" u16 StringType cstr bool

fun write_argument :: "dlt_argument \<Rightarrow> dlt_user \<Rightarrow> dlt_log \<Rightarrow> (int \<times> dlt_log) result" where
  "write_argument (Raw_arg data len type name var) = dlt_user_log_write_raw_internal data len type name var"
| "write_argument (Value_arg d type_info v) = dlt_user_log_write_generic_attr d type_info v"
| "write_argument (Formatted_arg d type_info type) = dlt_user_log_write_generic_formatted d type_info type"
| "write_argument (String_arg text len type name var) =
     dlt_user_log_write_sized_string_utils_attr text len type name var"

text \<open>
  The bytes an argument adds, from the layout of the protocol: a type description (verbose mode only), the
  length of data of variable length, name and unit, the data.
\<close>

definition name_field :: "cstr \<Rightarrow> bytes" where
  "name_field name = le16 (cstr_size name) @ concat (cstr_part name)"

definition raw_type :: "u32 \<Rightarrow> bool \<Rightarrow> u32" where
  "raw_type type var =
     (let t = (if var then DLT_TYPE_INFO_RAWD OR DLT_TYPE_INFO_VARI else DLT_TYPE_INFO_RAWD) in
      if 1 \<le> type \<and> type \<le> 4 then (t OR DLT_SCOD_HEX) + type
      else if 5 \<le> type \<and> type \<le> 6 then (t OR DLT_SCOD_BIN) + (type - 4) else t)"

definition formatted_type :: "u32 \<Rightarrow> u32 \<Rightarrow> u32" where
  "formatted_type type_info type =
     (if 1 \<le> type \<and> type \<le> 4 then type_info OR DLT_SCOD_HEX
      else if 5 \<le> type \<and> type \<le> 6 then type_info OR DLT_SCOD_BIN else type_info)"

definition string_type :: "StringType \<Rightarrow> bool \<Rightarrow> u32" where
  "string_type type var =
     (if var then DLT_TYPE_INFO_VARI else 0) OR DLT_TYPE_INFO_STRG OR (if type = UTF8_STRING then DLT_SCOD_UTF8 else 0)"

definition sized_field :: "bool \<Rightarrow> u32 \<Rightarrow> cstr \<Rightarrow> bool \<Rightarrow> nat \<Rightarrow> bytes" where
  "sized_field verbose type_info name var n =
     (if verbose then le32 type_info else []) @ le16 (of_nat n) @ (if verbose \<and> var then name_field name else [])"

fun value_field :: "bool \<Rightarrow> u32 \<Rightarrow> var_info option \<Rightarrow> bytes" where
  "value_field False type_info v = []"
| "value_field True type_info None = le32 type_info"
| "value_field True type_info (Some v) = le32 (type_info OR DLT_TYPE_INFO_VARI) @ le16 (cstr_size (vi_name v)) @
     (if vi_with_unit v then le16 (cstr_size (vi_unit v)) else []) @ concat (cstr_part (vi_name v)) @
     concat (cstr_part (vi_unit v))"

text \<open>
  An argument is recorded as a whole or not at all, except for a string, of which a part and the truncation
  notice are recorded when these fit. The state is the content and the number of arguments; \<open>cap\<close> is the size
  of the buffer.
\<close>

definition record_whole :: "nat \<Rightarrow> bytes \<Rightarrow> bytes \<times> u32 \<Rightarrow> int \<times> bytes \<times> u32" where
  "record_whole cap d acc =
     (if length (fst acc) + length d \<le> cap then (DLT_RETURN_OK, fst acc @ d, snd acc + 1)
      else (DLT_RETURN_USER_BUFFER_FULL, acc))"

fun record_argument :: "nat \<Rightarrow> bool \<Rightarrow> dlt_argument \<Rightarrow> bytes \<times> u32 \<Rightarrow> int \<times> bytes \<times> u32" where
  "record_argument cap verbose (Raw_arg data len type name var) acc =
     (if (data = None \<and> len \<noteq> 0) \<or> 7 \<le> type then (DLT_RETURN_WRONG_PARAMETER, acc)
      else record_whole cap (sized_field verbose (raw_type type var) name var (unat len) @
             take (unat len) (case data of None \<Rightarrow> [] | Some d \<Rightarrow> d)) acc)"
| "record_argument cap verbose (Value_arg d type_info v) acc =
     record_whole cap (value_field verbose type_info v @ d) acc"
| "record_argument cap verbose (Formatted_arg d type_info type) acc =
     (if 7 \<le> type then (DLT_RETURN_WRONG_PARAMETER, acc)
      else record_whole cap (value_field verbose (formatted_type type_info type) None @ d) acc)"
| "record_argument cap verbose (String_arg None len type name var) acc = (DLT_RETURN_WRONG_PARAMETER, acc)"
| "record_argument cap verbose (String_arg (Some text) len type name var) acc =
     (let field = sized_field verbose (string_type type var) name var;
          whole = field (unat len + 1) @ take (unat len) text @ [0];
          room = cap - (length (fst acc) + length (field 0) + length STR_TRUNCATED_MESSAGE)
      in if length (fst acc) + length whole \<le> cap then (DLT_RETURN_OK, fst acc @ whole, snd acc + 1)
         else if cap < length (fst acc) + length (field 0) + length STR_TRUNCATED_MESSAGE
         then (DLT_RETURN_USER_BUFFER_FULL, acc)
         else (DLT_RETURN_USER_BUFFER_FULL,
           fst acc @ field (room + length STR_TRUNCATED_MESSAGE) @ take room text @ STR_TRUNCATED_MESSAGE, snd acc + 1))"

text \<open>
  The memory of an argument is readable, units are written only by functions that count them, and strings are
  of type ASCII and not of length 65535.
\<close>

fun arg_ok :: "dlt_argument \<Rightarrow> bool" where
  "arg_ok (Raw_arg data len type name var) \<longleftrightarrow> (case data of None \<Rightarrow> True | Some d \<Rightarrow> unat len \<le> length d)"
| "arg_ok (Value_arg d type_info v) \<longleftrightarrow> length d \<le> 8 \<and>
     (case v of None \<Rightarrow> True | Some i \<Rightarrow> vi_with_unit i \<or> vi_unit i = None)"
| "arg_ok (Formatted_arg d type_info type) \<longleftrightarrow> length d \<le> 8"
| "arg_ok (String_arg text len type name var) \<longleftrightarrow> len \<noteq> 0xffff \<and> type = ASCII_STRING \<and>
     (case text of None \<Rightarrow> True | Some t \<Rightarrow> unat len \<le> length t)"

text \<open>The result \<open>r\<close> of a write to \<open>l\<close> is the code and the state of \<open>spec\<close>.\<close>

definition log_abs :: "dlt_log \<Rightarrow> bytes \<times> u32" where
  "log_abs l = (log_bytes l, log_args_num l)"

definition records :: "dlt_user \<Rightarrow> dlt_log \<Rightarrow> (int \<times> dlt_log) result \<Rightarrow> int \<times> bytes \<times> u32 \<Rightarrow> bool" where
  "records u l r spec \<longleftrightarrow>
     (\<exists>l'. r = Ok (fst spec, l') \<and> log_wf u l' \<and> log_abs l' = snd spec \<and> log_verbose_mode l' = log_verbose_mode l)"

lemma log_wf_args [simp]: "log_wf u (l\<lparr>log_args_num := n\<rparr>) = log_wf u l"
  by (auto simp: log_wf_def split: option.splits)

lemma log_abs_args [simp]: "log_abs (l\<lparr>log_args_num := n\<rparr>) = (log_bytes l, n)"
  by (simp add: log_abs_def log_bytes_def)

lemma records_if:
  assumes "log_wf u l" "concat ds = d" "n = length d" "n < 2 ^ 32"
  shows "records u l (if log_exceeds u l n then Ok (DLT_RETURN_USER_BUFFER_FULL, l) else log_argument ds l)
    (record_whole (unat (user_log_buf_len u)) d (log_abs l))"
proof (cases "log_exceeds u l n")
  case True
  then show ?thesis using assms by (simp add: log_exceeds_iff records_def record_whole_def log_abs_def)
next
  case False
  then have fits: "length (log_bytes l) + length d \<le> unat (user_log_buf_len u)"
    using assms by (simp add: log_exceeds_iff)
  obtain l' where "log_puts ds l = Ok l'" "log_ext u l d l'"
    using log_puts_ext [of u l ds] assms fits by auto
  then show ?thesis
    using False fits by (simp add: records_def record_whole_def log_argument_def log_ext_def log_abs_def [of l])
qed

lemma records_if2:
  assumes "log_wf u l" "concat ds = d" "n = length d" "n < 2 ^ 32" "m \<le> n"
  shows "records u l
    (if log_exceeds u l m then Ok (DLT_RETURN_USER_BUFFER_FULL, l)
     else if log_exceeds u l n then Ok (DLT_RETURN_USER_BUFFER_FULL, l) else log_argument ds l)
    (record_whole (unat (user_log_buf_len u)) d (log_abs l))"
proof -
  have "log_exceeds u l m \<Longrightarrow> log_exceeds u l n" using assms by (simp add: log_exceeds_iff)
  then show ?thesis using records_if [OF assms(1-4)] by (cases "log_exceeds u l n") auto
qed

lemma format_invalid_iff: "format_invalid type \<longleftrightarrow> 7 \<le> type"
proof (cases "7 \<le> type")
  case False
  then have t: "uint type < 7" by (simp add: word_less_def not_le)
  then have "uint (ucast type :: u16) = uint type"
    by (simp add: unsigned_ucast_eq take_bit_int_eq_self)
  moreover have "signed_take_bit 15 (uint type) = uint type"
    using t by (intro signed_take_bit_int_eq_self) (auto intro: order_trans [OF _ uint_ge_0])
  ultimately have "sint (ucast type :: u16) = uint type" by (simp add: sint_uint)
  with False show ?thesis by (simp add: format_invalid_def dlt_format_defs)
qed (simp add: format_invalid_def dlt_format_defs)

lemma cstr_size_less: "unat (cstr_size s) < 65536"
  using unat_u16_less [of "cstr_size s"] by simp

lemma generic_attr_records:
  assumes "log_wf u l" "user_initialised u" "arg_ok (Value_arg d type_info v)"
  shows "records u l (dlt_user_log_write_generic_attr d type_info v u l)
    (record_argument (unat (user_log_buf_len u)) (is_verbose_mode u l) (Value_arg d type_info v) (log_abs l))"
proof (cases "is_verbose_mode u l")
  case False
  then show ?thesis
    using assms by (simp add: dlt_user_log_write_generic_attr_def cong: if_cong split del: if_split)
      (rule records_if, simp_all)
next
  case True
  show ?thesis
  proof (cases v)
    case None
    then show ?thesis
      using assms True by (simp add: dlt_user_log_write_generic_attr_def cong: if_cong split del: if_split)
        (rule records_if2, simp_all)
  next
    case (Some i)
    have "vi_with_unit i \<or> cstr_size (vi_unit i) = 0 \<and> cstr_part (vi_unit i) = []"
      using assms(3) Some by (auto simp: cstr_size_def cstr_part_def)
    then show ?thesis
      using assms True Some cstr_size_less [of "vi_name i"] cstr_size_less [of "vi_unit i"]
      by (simp add: dlt_user_log_write_generic_attr_def Let_def cong: if_cong split del: if_split)
        (rule records_if2, auto)
  qed
qed

lemma generic_formatted_records:
  assumes "log_wf u l" "user_initialised u" "arg_ok (Formatted_arg d type_info type)"
  shows "records u l (dlt_user_log_write_generic_formatted d type_info type u l)
    (record_argument (unat (user_log_buf_len u)) (is_verbose_mode u l) (Formatted_arg d type_info type) (log_abs l))"
proof (cases "7 \<le> type")
  case True
  then show ?thesis
    using assms(1) by (simp add: dlt_user_log_write_generic_formatted_def format_invalid_iff records_def)
next
  case valid: False
  have type: "(if DLT_FORMAT_HEX8 \<le> type \<and> type \<le> DLT_FORMAT_HEX64 then type_info OR DLT_SCOD_HEX
       else if DLT_FORMAT_BIN8 \<le> type \<and> type \<le> DLT_FORMAT_BIN16 then type_info OR DLT_SCOD_BIN
       else type_info) = formatted_type type_info type"
    by (simp add: formatted_type_def dlt_format_defs)
  show ?thesis
  proof (cases "is_verbose_mode u l")
    case False
    with valid show ?thesis
      using assms by (simp add: dlt_user_log_write_generic_formatted_def format_invalid_iff cong: if_cong
        split del: if_split) (rule records_if, simp_all)
  next
    case True
    with valid show ?thesis
      using assms by (simp add: dlt_user_log_write_generic_formatted_def format_invalid_iff type Let_def cong: if_cong
        split del: if_split) (rule records_if2, simp_all)
  qed
qed

lemma raw_internal_records:
  assumes "log_wf u l" "user_initialised u" "arg_ok (Raw_arg data len type name var)"
  shows "records u l (dlt_user_log_write_raw_internal data len type name var u l)
    (record_argument (unat (user_log_buf_len u)) (is_verbose_mode u l) (Raw_arg data len type name var) (log_abs l))"
proof (cases "(data = None \<and> len \<noteq> 0) \<or> 7 \<le> type")
  case True
  then show ?thesis
    using assms(1) by (auto simp: dlt_user_log_write_raw_internal_def format_invalid_iff records_def)
next
  case valid: False
  define d where "d = (case data of None \<Rightarrow> [] | Some d \<Rightarrow> d)"
  have d: "unat len \<le> length d"
    using assms(3) valid by (auto simp: d_def split: option.splits)
  have type: "(let t = (if var then DLT_TYPE_INFO_RAWD OR DLT_TYPE_INFO_VARI else DLT_TYPE_INFO_RAWD) in
       if DLT_FORMAT_HEX8 \<le> type \<and> type \<le> DLT_FORMAT_HEX64 then (t OR DLT_SCOD_HEX) + type
       else if DLT_FORMAT_BIN8 \<le> type \<and> type \<le> DLT_FORMAT_BIN16
       then (t OR DLT_SCOD_BIN) + (type - DLT_FORMAT_BIN8 + 1) else t) = raw_type type var"
    by (simp add: raw_type_def dlt_format_defs Let_def)
  have len: "unat len < 65536" using unat_u16_less [of len] by simp
  have given: "(data = None \<and> len \<noteq> 0) = False" using valid by simp
  note unfolded = dlt_user_log_write_raw_internal_def [of data len type name var u l, folded d_def]
  show ?thesis
  proof (cases "is_verbose_mode u l")
    case False
    with valid d len show ?thesis
      using assms(1,2) by (simp add: unfolded given format_invalid_iff Let_def sized_field_def d_def [symmetric] not_less cong: if_cong
        split del: if_split) (rule records_if, simp_all)
  next
    case True
    with valid d len show ?thesis
      using assms(1,2) cstr_size_less [of name] type
      by (simp add: unfolded given format_invalid_iff Let_def sized_field_def name_field_def d_def [symmetric] not_less cong: if_cong
        split del: if_split) (rule records_if2, auto)
  qed
qed

section \<open>Strings\<close>

lemma concat_string_description:
  "concat (string_description verbose type name var (of_nat k)) = sized_field verbose (string_type type var) name var k"
  by (cases type) (simp_all add: string_description_def sized_field_def string_type_def name_field_def type_info_defs Let_def)

text \<open>The size of the description, without the two bytes for the size of the text.\<close>

definition desc_len :: "bool \<Rightarrow> cstr \<Rightarrow> bool \<Rightarrow> nat" where
  "desc_len verbose name var = (if verbose then 4 + (if var then 2 + unat (cstr_size name) else 0) else 0)"

lemma desc_len_word:
  "(if verbose then 4 + (if var then 2 + ucast (cstr_size name) else 0) else 0 :: u64) = of_nat (desc_len verbose name var)"
  by (simp add: desc_len_def)

lemma desc_len_less: "desc_len verbose name var < 65542"
  using cstr_size_less [of name] by (simp add: desc_len_def)

lemma length_sized_field [simp]: "length (sized_field verbose t name var k) = desc_len verbose name var + 2"
  by (simp add: sized_field_def name_field_def desc_len_def)

lemma length_notice: "length STR_TRUNCATED_MESSAGE = 36"
  by (simp add: STR_TRUNCATED_MESSAGE_def)

definition cut_by :: "StringType \<Rightarrow> bytes \<Rightarrow> nat \<Rightarrow> u16 result" where
  "cut_by type text room = (case type of UTF8_STRING \<Rightarrow> utf8_reduce_size text (int room) | ASCII_STRING \<Rightarrow> Ok 0)"

lemma unat_succ_u16: "len \<noteq> 0xffff \<Longrightarrow> unat (len + 1 :: u16) = unat len + 1"
proof -
  assume "len \<noteq> 0xffff"
  then have "unat len \<noteq> 65535" by (simp add: word_unat_eq_iff)
  then show ?thesis using unat_u16_less [of len] by (simp add: unat_word_ariths)
qed

lemma new_log_size_iff:
  fixes len :: u16
  assumes wf: "log_wf u l" and len: "len \<noteq> 0xffff" and D: "D < 65542"
  shows "(ucast (user_log_buf_len u) < (scast (log_size l) + ucast (len + 1) + 2 + of_nat D :: u64)) \<longleftrightarrow>
    unat (user_log_buf_len u) < length (log_bytes l) + unat len + 1 + 2 + D"
proof -
  have "(ucast (len + 1) :: u64) = of_nat (unat len + 1)" by (metis of_nat_unat unat_succ_u16 [OF len])
  then have "(scast (log_size l) + ucast (len + 1) + 2 + of_nat D :: u64) =
      of_nat (length (log_bytes l) + unat len + 1 + 2 + D)"
    unfolding scast_log_size [OF wf] by simp
  moreover have "length (log_bytes l) + unat len + 1 + 2 + D < 2 ^ 64"
    using log_bytes_less [OF wf] unat_u16_less [of len] D by simp
  ultimately show ?thesis by (simp only: buf_len_u64)
qed

lemma least_log_size_iff:
  assumes wf: "log_wf u l" and D: "D < 65542"
  shows "(ucast (user_log_buf_len u) < (scast (log_size l) + of_nat (length STR_TRUNCATED_MESSAGE) + 2 + of_nat D :: u64)) \<longleftrightarrow>
    unat (user_log_buf_len u) < length (log_bytes l) + 36 + 2 + D"
  using buf_len_u64 [of "length (log_bytes l) + 36 + 2 + D" u] log_bytes_less [OF wf] D
  by (simp add: scast_log_size [OF wf] length_notice ac_simps)

lemma truncated_sizes:
  assumes wf: "log_wf u l" and D: "D < 65542"
    and room: "unat (user_log_buf_len u) = room + (length (log_bytes l) + 36 + 2 + D)"
  shows "(ucast (user_log_buf_len u) - (scast (log_size l) + of_nat (length STR_TRUNCATED_MESSAGE) + 2 + of_nat D) :: u64)
      = of_nat room" (is ?max)
    and "user_log_buf_len u - ucast (log_size l) - 2 - ucast (of_nat D :: u64) = of_nat (room + 36)" (is ?arg)
    and "uint (of_nat room :: u64) = int room"
proof -
  have cap: "user_log_buf_len u = of_nat (room + (length (log_bytes l) + 36 + 2 + D))"
    "(ucast (user_log_buf_len u) :: u64) = of_nat (room + (length (log_bytes l) + 36 + 2 + D))"
    unfolding room [symmetric] by simp_all
  show ?max unfolding cap(2) scast_log_size [OF wf] by (simp add: length_notice)
  have "unat (of_nat D :: u64) = D" using D by (simp add: unat_of_nat take_bit_nat_eq_self)
  then have "(ucast (of_nat D :: u64) :: u16) = of_nat D" by (metis of_nat_unat)
  moreover have "(ucast (log_size l) :: u16) = of_nat (length (log_bytes l))"
    using wf by (rule log_wf_obtain) (metis of_nat_unat)
  ultimately show ?arg unfolding cap(1) by simp
  show "uint (of_nat room :: u64) = int room"
    using room buf_len_less [of u] by (simp add: unsigned_of_nat take_bit_nat_eq_self)
qed

lemma string_full:
  fixes u l name var
  assumes wf: "log_wf u l" and init: "user_initialised u" and len: "len \<noteq> 0xffff"
  defines "D \<equiv> desc_len (is_verbose_mode u l) name var"
  assumes full: "unat (user_log_buf_len u) < length (log_bytes l) + unat len + 1 + 2 + D"
  shows "unat (user_log_buf_len u) < length (log_bytes l) + 36 + 2 + D \<Longrightarrow>
      dlt_user_log_write_sized_string_utils_attr (Some text) len type name var u l = Ok (DLT_RETURN_USER_BUFFER_FULL, l)"
    and "unat (user_log_buf_len u) = room + (length (log_bytes l) + 36 + 2 + D) \<Longrightarrow>
      dlt_user_log_write_sized_string_utils_attr (Some text) len type name var u l =
       bind_r (cut_by type text room) (\<lambda>r.
       bind_r (ptr_read 0 (unat (of_nat room - ucast r :: u64)) text) (\<lambda>part.
       bind_r (log_puts (string_description (is_verbose_mode u l) type name var (of_nat (room + 36) - r) @
           [part, STR_TRUNCATED_MESSAGE]) l)
         (\<lambda>l1. Ok (DLT_RETURN_USER_BUFFER_FULL, l1\<lparr>log_args_num := log_args_num l1 + 1\<rparr>))))"
proof -
  have D: "D < 65542" by (simp add: D_def desc_len_less)
  note sizes = new_log_size_iff [OF wf len D] least_log_size_iff [OF wf D]
  note unfolded = dlt_user_log_write_sized_string_utils_attr_def option.case Let_def desc_len_word D_def [symmetric] sizes
  show "unat (user_log_buf_len u) < length (log_bytes l) + 36 + 2 + D \<Longrightarrow>
      dlt_user_log_write_sized_string_utils_attr (Some text) len type name var u l = Ok (DLT_RETURN_USER_BUFFER_FULL, l)"
    using full init unfolding unfolded by simp
  assume room: "unat (user_log_buf_len u) = room + (length (log_bytes l) + 36 + 2 + D)"
  show "dlt_user_log_write_sized_string_utils_attr (Some text) len type name var u l =
       bind_r (cut_by type text room) (\<lambda>r.
       bind_r (ptr_read 0 (unat (of_nat room - ucast r :: u64)) text) (\<lambda>part.
       bind_r (log_puts (string_description (is_verbose_mode u l) type name var (of_nat (room + 36) - r) @
           [part, STR_TRUNCATED_MESSAGE]) l)
         (\<lambda>l1. Ok (DLT_RETURN_USER_BUFFER_FULL, l1\<lparr>log_args_num := log_args_num l1 + 1\<rparr>))))"
    using full init room unfolding unfolded truncated_sizes [OF wf D room] cut_by_def
    by (simp cong: StringType.case_cong)
qed

lemma string_truncated:
  fixes field :: "nat \<Rightarrow> bytes" and u l type name var
  defines "field \<equiv> sized_field (is_verbose_mode u l) (string_type type var) name var"
  assumes wf: "log_wf u l" and init: "user_initialised u" and len: "len \<noteq> 0xffff" "unat len \<le> length text"
    and full: "unat (user_log_buf_len u) < length (log_bytes l) + length (field 0) + unat len + 1"
    and room: "unat (user_log_buf_len u) = room + (length (log_bytes l) + length (field 0) + 36)"
    and cut: "cut_by type text room = Ok r" "unat r \<le> room"
  shows "records u l (dlt_user_log_write_sized_string_utils_attr (Some text) len type name var u l)
    (DLT_RETURN_USER_BUFFER_FULL,
     log_bytes l @ field (room - unat r + 36) @ take (room - unat r) text @ STR_TRUNCATED_MESSAGE, log_args_num l + 1)"
proof -
  obtain k where k: "room = k + unat r" using cut(2) by (metis le_add_diff_inverse2)
  have "room < 65536" using room buf_len_less [of u] by linarith
  then have ks: "k < 2 ^ 64" using k by simp
  have "(of_nat room - ucast r :: u64) = of_nat k" by (simp add: k)
  then have part: "unat (of_nat room - ucast r :: u64) = k" using ks by (simp add: unat_of_nat take_bit_nat_eq_self)
  have size: "(of_nat (room + 36) - r :: u16) = of_nat (k + 36)" by (simp add: k)
  have enough: "k \<le> length text" using full room len k by simp
  have parts: "concat (string_description (is_verbose_mode u l) type name var (of_nat (k + 36)) @
      [take k text, STR_TRUNCATED_MESSAGE]) = field (k + 36) @ take k text @ STR_TRUNCATED_MESSAGE"
    by (simp add: concat_string_description field_def del: of_nat_add)
  have "length (field (k + 36)) = length (field 0)" by (simp add: field_def)
  then have "length (log_bytes l) + length (field (k + 36) @ take k text @ STR_TRUNCATED_MESSAGE)
      \<le> unat (user_log_buf_len u)"
    using room enough k by (simp add: length_notice)
  then obtain l1 where l1: "log_puts (string_description (is_verbose_mode u l) type name var (of_nat (k + 36)) @
      [take k text, STR_TRUNCATED_MESSAGE]) l = Ok l1"
    "log_ext u l (field (k + 36) @ take k text @ STR_TRUNCATED_MESSAGE) l1"
    using log_puts_ext [OF wf, of "string_description (is_verbose_mode u l) type name var (of_nat (k + 36)) @
      [take k text, STR_TRUNCATED_MESSAGE]"] unfolding parts by blast
  have "dlt_user_log_write_sized_string_utils_attr (Some text) len type name var u l =
      Ok (DLT_RETURN_USER_BUFFER_FULL, l1\<lparr>log_args_num := log_args_num l1 + 1\<rparr>)"
    using string_full(2) [OF wf init len(1), of name var room "text" type] full room cut(1) enough l1(1)
    by (simp add: field_def part size ptr_read_def del: of_nat_add)
  then show ?thesis
    using l1(2) k by (simp add: records_def log_ext_def)
qed

lemma string_whole:
  fixes field :: "nat \<Rightarrow> bytes" and u l type name var
  defines "field \<equiv> sized_field (is_verbose_mode u l) (string_type type var) name var"
  assumes wf: "log_wf u l" and init: "user_initialised u" and len: "len \<noteq> 0xffff" "unat len \<le> length text"
    and fits: "length (log_bytes l) + length (field 0) + unat len + 1 \<le> unat (user_log_buf_len u)"
  shows "records u l (dlt_user_log_write_sized_string_utils_attr (Some text) len type name var u l)
    (DLT_RETURN_OK, log_bytes l @ field (unat len + 1) @ take (unat len) text @ [0], log_args_num l + 1)"
proof -
  let ?desc = "string_description (is_verbose_mode u l) type name var (len + 1)"
  have arg: "len + 1 = of_nat (unat len + 1)" by simp
  have desc: "concat ?desc = field (unat len + 1)"
    unfolding arg field_def by (rule concat_string_description)
  obtain l1 where l1: "log_puts ?desc l = Ok l1" "log_ext u l (field (unat len + 1)) l1"
    using log_puts_ext [OF wf, of ?desc] fits unfolding desc by (auto simp: field_def)
  obtain b where b: "log_buffer l1 = Some b" "length b = unat (user_log_buf_len u)"
    "sint (log_size l1) = int (unat (log_size l1))" "length (log_bytes l1) = unat (log_size l1)"
    using l1(2) log_wf_obtain unfolding log_ext_def by metis
  let ?w = "take (unat len) text @ [0]"
  have room: "unat (log_size l1) + length ?w \<le> length b"
    using l1(2) b fits len by (simp add: log_ext_def field_def)
  obtain l2 where l2: "log_put ?w l1 = Ok l2" "log_ext u l1 ?w l2"
    using log_put_ext [of u l1 ?w] l1(2) b room by (auto simp: log_ext_def)
  have l2': "l2 = l1\<lparr>log_buffer := Some (take (unat (log_size l1)) b @ ?w @ drop (unat (log_size l1) + length ?w) b),
      log_size := log_size l1 + of_nat (length ?w)\<rparr>"
    using l2(1) b room by (simp add: log_put_def ptr_write_def del: length_append)
  have size: "(ucast (len + 1) :: u32) = of_nat (length ?w)"
    using len unat_succ_u16 [of len] by (simp add: min_absorb2) (metis of_nat_Suc of_nat_unat)
  have "dlt_user_log_write_sized_string_utils_attr (Some text) len type name var u l =
      Ok (DLT_RETURN_OK, l2\<lparr>log_args_num := log_args_num l1 + 1\<rparr>)"
    using init fits l1(1) b len room
    unfolding dlt_user_log_write_sized_string_utils_attr_def option.case Let_def desc_len_word
      new_log_size_iff [OF wf len(1) desc_len_less] size l2'
    by (simp add: field_def ptr_read_def ptr_write_def nat_add_distrib nat_uint_eq)
  then show ?thesis
    using l1(2) l2(2) by (simp add: records_def log_ext_def)
qed

end
