(* ===== verification/Dlt_Transfer.thy ===== *)
theory Dlt_Transfer
  imports Dlt_Message Dlt_Record
begin

text \<open>
  \<open>dlt_message_read\<close> on received bytes: it is safe whatever they are, finds the first serial header, and what its
  result is when a frame with given headers stands at the position where it reads.
\<close>

section \<open>Byte order\<close>

lemma swap_masks:
  "(0xff :: u16) = mask 8" "(0xff00 :: u16) = push_bit 8 (mask 8)" "(0xff :: u32) = mask 8" "(0xff00 :: u32) = push_bit 8 (mask 8)"
  "(0xff0000 :: u32) = push_bit 16 (mask 8)" "(0xff000000 :: u32) = push_bit 24 (mask 8)"
  by (simp_all add: mask_eq_exp_minus_1)

lemma DLT_SWAP_16_twice [simp]: "DLT_SWAP_16 (DLT_SWAP_16 x) = x"
proof (rule bit_eqI)
  fix n assume "possible_bit TYPE(u16) n"
  then have "n < 16" by simp
  then show "bit (DLT_SWAP_16 (DLT_SWAP_16 x)) n = bit x n"
    by (cases "n < 8") (auto simp: DLT_SWAP_16_def swap_masks bit_simps)
qed

lemma DLT_SWAP_32_twice [simp]: "DLT_SWAP_32 (DLT_SWAP_32 x) = x"
proof (rule bit_eqI)
  fix n assume "possible_bit TYPE(u32) n"
  then have n: "n < 32" by simp
  have swap: "bit (DLT_SWAP_32 y) n = bit y (if n < 8 then n + 24 else if n < 16 then n + 8 else if n < 24 then n - 8 else n - 24)"
    if "n < 32" for y n
    using that by (auto simp: DLT_SWAP_32_def swap_masks bit_simps add.commute)
  show "bit (DLT_SWAP_32 (DLT_SWAP_32 x)) n = bit x n"
    using n by (auto simp: swap)
qed

section \<open>Finding the serial header\<close>

definition serial_at :: "bytes \<Rightarrow> nat \<Rightarrow> bool" where
  "serial_at buffer i \<longleftrightarrow> take 4 (drop i buffer) = dltSerialHeader"

lemma resync_loop_first:
  assumes "off + 4 \<le> len" "len \<le> length buffer" "len < 2 ^ 31"
  shows "\<exists>found k. resync_loop buffer len off = Ok (found, k) \<and> off \<le> k \<and> (\<forall>i. off \<le> i \<and> i < k \<longrightarrow> \<not> serial_at buffer i) \<and>
    (if found then serial_at buffer k \<and> k + 4 \<le> len else k = len - 3)"
  using assms
proof (induction buffer len off rule: resync_loop.induct)
  case (1 buffer len off)
  have read: "ptr_read (int off) 4 buffer = Ok (take 4 (drop off buffer))" using 1 by (simp add: ptr_read_def)
  show ?case
  proof (cases "serial_at buffer off")
    case True
    then have "resync_loop buffer len off = Ok (True, off)" using read by (subst resync_loop.simps) (simp add: serial_at_def)
    then show ?thesis using True 1(2) by (auto intro!: exI [of _ True])
  next
    case False
    show ?thesis
    proof (cases "4 + (off + 1) \<le> len")
      case True
      have "resync_loop buffer len off = resync_loop buffer len (off + 1)"
        using read False True 1 by (subst resync_loop.simps) (simp add: serial_at_def)
      moreover obtain found k where "resync_loop buffer len (off + 1) = Ok (found, k)" "off + 1 \<le> k"
        "\<forall>i. off + 1 \<le> i \<and> i < k \<longrightarrow> \<not> serial_at buffer i" "if found then serial_at buffer k \<and> k + 4 \<le> len else k = len - 3"
        using 1(1) [of "take 4 (drop off buffer)"] False True 1(2-) by (auto simp: serial_at_def)
      moreover have "\<not> serial_at buffer i" if "off \<le> i" "i < k" for i
        using that False calculation(4) by (metis Suc_eq_plus1 le_neq_implies_less less_eq_Suc_le)
      ultimately show ?thesis by auto
    next
      case False
      then have "off + 1 = len - 3" using 1 by simp
      moreover have "resync_loop buffer len off = Ok (False, off + 1)"
        using read \<open>\<not> serial_at buffer off\<close> False 1 by (subst resync_loop.simps) (simp add: serial_at_def)
      moreover have "\<not> serial_at buffer i" if "off \<le> i" "i < off + 1" for i
        using that \<open>\<not> serial_at buffer off\<close> by (metis Suc_eq_plus1 le_antisym less_Suc_eq_le)
      ultimately show ?thesis by auto
    qed
  qed
qed

section \<open>Reading is safe\<close>

definition msg_wf :: "dlt_message \<Rightarrow> bool" where
  "msg_wf m \<longleftrightarrow> length (headerbuffer m) = sizeof_headerbuffer \<and> unat (databuffersize m) < 2 ^ 31 \<and>
     (case databuffer m of None \<Rightarrow> True | Some b \<Rightarrow> length b = unat (databuffersize m))"

text \<open>What the functions that work on a message rely on when it has been read.\<close>

definition msg_complete :: "dlt_message \<Rightarrow> bool" where
  "msg_complete m \<longleftrightarrow> msg_wf m \<and> standardheader m = Some sizeof_storage \<and> unat (datasize m) < 65536 \<and>
     (case databuffer m of None \<Rightarrow> False | Some b \<Rightarrow> unat (datasize m) \<le> length b) \<and>
     (headerbuffer m ! sizeof_storage AND DLT_HTYP_UEH \<noteq> 0 \<longrightarrow>
        (case extendedheader m of None \<Rightarrow> False | Some p \<Rightarrow> p + sizeof_extended \<le> sizeof_headerbuffer))"

definition same_frame :: "dlt_message \<Rightarrow> dlt_message \<Rightarrow> bool" where
  "same_frame m m' \<longleftrightarrow> headerbuffer m' = headerbuffer m \<and> databuffer m' = databuffer m \<and> databuffersize m' = databuffersize m \<and>
     headersize m' = headersize m \<and> datasize m' = datasize m \<and> standardheader m' = standardheader m \<and>
     extendedheader m' = extendedheader m"

lemma same_frame_wf: "same_frame m m' \<Longrightarrow> msg_wf m' = msg_wf m"
  by (simp add: same_frame_def msg_wf_def split: option.splits)

lemma extra_size_le: "DLT_STANDARD_HEADER_EXTRA_SIZE htyp \<le> 12"
  by (simp add: DLT_STANDARD_HEADER_EXTRA_SIZE_def)

lemma ptr_read_Ok: "i = int p \<Longrightarrow> p + n \<le> length mem \<Longrightarrow> ptr_read i n mem = Ok (take n (drop p mem))"
  by (simp add: ptr_read_def)

lemma msg_htyp_at:
  assumes "msg_wf m" "standardheader m = Some sizeof_storage"
  shows "msg_htyp m = Ok (headerbuffer m ! sizeof_storage)"
  using assms by (simp add: msg_htyp_def header_byte_def ptr_read_Ok msg_wf_def dlt_sizeof_defs hd_drop_conv_nth take_Suc_conv_app_nth hd_conv_nth)

definition header_word :: "bytes \<Rightarrow> nat \<Rightarrow> u32" where
  "header_word h pos = DLT_SWAP_32 (of_nat (le_nat (take 4 (drop pos h))))"

definition extras_of :: "dlt_message \<Rightarrow> dlt_message" where
  "extras_of m =
     (let h = headerbuffer m; htyp = h ! sizeof_storage;
          wsid = 20 + (if htyp AND DLT_HTYP_WEID \<noteq> 0 then 4 else 0); wtms = wsid + (if htyp AND DLT_HTYP_WSID \<noteq> 0 then 4 else 0)
      in m\<lparr>extra_ecu := if htyp AND DLT_HTYP_WEID \<noteq> 0 then take 4 (drop 20 h) else extra_ecu m,
           extra_seid := if htyp AND DLT_HTYP_WSID \<noteq> 0 then header_word h wsid else extra_seid m,
           extra_tmsp := if htyp AND DLT_HTYP_WTMS \<noteq> 0 then header_word h wtms else extra_tmsp m\<rparr>)"

lemma get_extraparameters_value:
  assumes "msg_wf m" "standardheader m = Some sizeof_storage"
  shows "dlt_message_get_extraparameters m = Ok (DLT_RETURN_OK, extras_of m)"
proof -
  have "length (headerbuffer m) = 42" using assms by (simp add: msg_wf_def dlt_sizeof_defs)
  then have "ptr_read 20 4 (headerbuffer m) = Ok (take 4 (drop 20 (headerbuffer m)))"
    "ptr_read 24 4 (headerbuffer m) = Ok (take 4 (drop 24 (headerbuffer m)))"
    "ptr_read 28 4 (headerbuffer m) = Ok (take 4 (drop 28 (headerbuffer m)))"
    by (simp_all add: ptr_read_def)
  then show ?thesis using msg_htyp_at [OF assms]
    by (simp add: dlt_message_get_extraparameters_def extras_of_def extra_pos_def dlt_sizeof_defs header_word_def Let_def
      del: of_nat_add)
qed

lemma extras_of_frame: "same_frame m (extras_of m)" "extras_of (extras_of m) = extras_of m"
  by (simp_all add: extras_of_def same_frame_def Let_def)

lemma get_extraparameters_safe:
  assumes "msg_wf m" "standardheader m = Some sizeof_storage"
  shows "\<exists>m'. dlt_message_get_extraparameters m = Ok (DLT_RETURN_OK, m') \<and> same_frame m m' \<and> extras_of m' = m'"
  using get_extraparameters_value [OF assms] extras_of_frame by simp

lemma skip_serial_header_safe:
  assumes "4 \<le> len" "len \<le> length buffer" "len < 2 ^ 31"
  shows "\<exists>pos left m'. skip_serial_header buffer len resync m = Ok (pos, left, m') \<and> pos + left = len \<and> same_frame m m'"
proof (cases "serial_at buffer 0")
  case True
  then show ?thesis using assms by (simp add: skip_serial_header_def ptr_read_def serial_at_def same_frame_def)
next
  case False
  obtain found k where "resync_loop buffer len 0 = Ok (found, k)" "if found then k + 4 \<le> len else k = len - 3"
    using resync_loop_first [of 0 len buffer] assms by auto
  then show ?thesis using assms False
    by (auto simp: skip_serial_header_def ptr_read_def serial_at_def same_frame_def Let_def split: if_splits)
qed

lemma put_header_safe:
  assumes "length (headerbuffer m) = sizeof_headerbuffer" "pos + length d \<le> sizeof_headerbuffer"
  shows "put_header pos d m = Ok (m\<lparr>headerbuffer := take pos (headerbuffer m) @ d @ drop (pos + length d) (headerbuffer m)\<rparr>)"
  using assms by (simp add: put_header_def ptr_write_def)

lemma headers_unat: "n \<le> 42 \<Longrightarrow> unat (of_nat n :: u32) = n"
  by (simp add: unat_u32)

lemma read_extra_safe:
  assumes wf: "msg_wf m" "standardheader m = Some sizeof_storage" and htyp: "headerbuffer m ! sizeof_storage = htyp"
    and extra: "extra_size = DLT_STANDARD_HEADER_EXTRA_SIZE htyp + (if htyp AND DLT_HTYP_UEH \<noteq> 0 then sizeof_extended else 0)"
    and "headersize m = of_nat (sizeof_storage + sizeof_standard + extra_size)" and "pos + left \<le> length buffer"
  shows "\<exists>fits m'. read_extra buffer pos left htyp extra_size m = Ok (fits, m') \<and> msg_wf m' \<and>
    standardheader m' = Some sizeof_storage \<and> headersize m' = headersize m \<and> datasize m' = datasize m \<and>
    headerbuffer m' ! sizeof_storage = htyp \<and> fits = (extra_size = 0 \<or> sizeof_standard + extra_size \<le> left) \<and>
    (fits \<longrightarrow> take (20 + extra_size) (headerbuffer m') = take 20 (headerbuffer m) @ take extra_size (drop (pos + 4) buffer)) \<and>
    (fits \<and> 0 < extra_size \<longrightarrow> extras_of m' = m') \<and>
    (fits \<and> htyp AND DLT_HTYP_UEH \<noteq> 0 \<longrightarrow>
      extendedheader m' = Some (sizeof_storage + sizeof_standard + DLT_STANDARD_HEADER_EXTRA_SIZE htyp))"
proof -
  have small: "extra_size \<le> 22" using extra extra_size_le [of htyp] by (simp add: dlt_sizeof_defs)
  then have hs: "unat (headersize m) - sizeof_storage = 4 + extra_size"
    using headers_unat [of "20 + extra_size"] by (simp add: assms(5) dlt_sizeof_defs)
  show ?thesis
  proof (cases "extra_size = 0")
    case True
    then show ?thesis using assms by (auto simp: read_extra_def dlt_sizeof_defs split: if_splits)
  next
    case False
    show ?thesis
    proof (cases "left < 4 + extra_size")
      case True
      then have "read_extra buffer pos left htyp extra_size m = Ok (False, m)" using hs False by (simp add: read_extra_def)
      then show ?thesis using wf htyp True False by (intro exI [of _ False] exI [of _ m]) (simp add: dlt_sizeof_defs)
    next
      case left: False
      let ?d = "take extra_size (drop (pos + 4) buffer)"
      let ?ext = "if htyp AND DLT_HTYP_UEH \<noteq> 0 then Some (20 + DLT_STANDARD_HEADER_EXTRA_SIZE htyp) else None"
      let ?m = "m\<lparr>headerbuffer := take 20 (headerbuffer m) @ ?d @ drop (20 + extra_size) (headerbuffer m), extendedheader := ?ext\<rparr>"
      have d: "length ?d = extra_size" using left assms(6) by simp
      have wf': "msg_wf ?m" "standardheader ?m = Some sizeof_storage" "headerbuffer ?m ! sizeof_storage = htyp"
        using wf small d htyp by (simp_all add: msg_wf_def dlt_sizeof_defs nth_append split: option.splits)
      obtain m' where m': "dlt_message_get_extraparameters ?m = Ok (DLT_RETURN_OK, m')" "same_frame ?m m'"
          "extras_of m' = m'"
        using get_extraparameters_safe [OF wf'(1,2)] by blast
      have "ptr_read (int (pos + sizeof_standard)) extra_size buffer = Ok ?d"
        using left assms(6) by (simp add: ptr_read_Ok dlt_sizeof_defs del: of_nat_add)
      moreover have "put_header (sizeof_storage + sizeof_standard) ?d m =
          Ok (m\<lparr>headerbuffer := take 20 (headerbuffer m) @ ?d @ drop (20 + extra_size) (headerbuffer m)\<rparr>)"
        using put_header_safe [of m 20 ?d] wf(1) d small by (simp add: msg_wf_def dlt_sizeof_defs)
      ultimately have "read_extra buffer pos left htyp extra_size m = Ok (True, m')"
        using m'(1) left hs False by (simp add: read_extra_def dlt_sizeof_defs cong: if_cong split del: if_split)
      moreover have "length (take 20 (headerbuffer m)) = 20" using wf(1) by (simp add: msg_wf_def dlt_sizeof_defs)
      ultimately show ?thesis using wf' m'(2,3) same_frame_wf [OF m'(2)] left d
        by (intro exI [of _ True] exI [of _ m']) (simp add: same_frame_def dlt_sizeof_defs)
    qed
  qed
qed

lemma read_payload_safe:
  assumes wf: "msg_wf m" and size: "unat (datasize m) < 65536" and "pos + left \<le> length buffer"
  shows "\<exists>r m'. read_payload env buffer pos left m = Ok (r, m') \<and> msg_wf m' \<and>
    r \<in> {DLT_MESSAGE_ERROR_OK, DLT_MESSAGE_ERROR_UNKNOWN, DLT_MESSAGE_ERROR_SIZE} \<and>
    (unat (headersize m) - sizeof_storage + unat (datasize m) \<le> left \<and> malloc env (unat (datasize m)) \<noteq> None \<longrightarrow>
      r = DLT_MESSAGE_ERROR_OK) \<and>
    (r = DLT_MESSAGE_ERROR_OK \<longrightarrow> (\<exists>b bs. m' = m\<lparr>databuffer := Some b, databuffersize := bs\<rparr> \<and>
      unat (datasize m) \<le> length b \<and> take (unat (datasize m)) b =
        take (unat (datasize m)) (drop (pos + (unat (headersize m) - sizeof_storage)) buffer)))"
proof -
  let ?n = "unat (datasize m)" and ?h = "unat (headersize m) - sizeof_storage"
  obtain bs db where room: "payload_room env m = m\<lparr>databuffer := db, databuffersize := bs\<rparr>" and
    wf': "msg_wf (m\<lparr>databuffer := db, databuffersize := bs\<rparr>)" and big: "\<And>b. db = Some b \<Longrightarrow> ?n \<le> length b"
    "db = None \<Longrightarrow> malloc env ?n = None"
  proof (cases "databuffer m = None \<or> sint (datasize m) > sint (databuffersize m)")
    case True
    then show thesis
      using wf size by (intro that) (auto simp: payload_room_def msg_wf_def split: option.splits)
  next
    case False
    then obtain b where b: "databuffer m = Some b" by auto
    have "sint (datasize m) = int ?n" "sint (databuffersize m) = int (unat (databuffersize m))"
      using wf size sint_small [of "datasize m"] sint_small [of "databuffersize m"] by (auto simp: msg_wf_def)
    then have "?n \<le> unat (databuffersize m)" using False by linarith
    then show thesis using False wf b by (intro that [of "databuffersize m" "databuffer m"]) (auto simp: payload_room_def msg_wf_def)
  qed
  show ?thesis
  proof (cases "left < ?h + ?n")
    case True
    then show ?thesis using wf by (simp add: read_payload_def dlt_message_error_defs)
  next
    case False
    show ?thesis
    proof (cases db)
      case None
      then show ?thesis using False wf' room big(2) by (simp add: read_payload_def dlt_message_error_defs)
    next
      case (Some b)
      let ?b = "take ?n (drop (pos + ?h) buffer) @ drop ?n b"
      have "memcpy b 0 buffer (int (pos + ?h)) ?n = Ok ?b"
        using big(1) [OF Some] False assms(3) by (subst memcpy_Ok) (simp_all del: of_nat_add)
      then have "read_payload env buffer pos left m = Ok (DLT_MESSAGE_ERROR_OK, m\<lparr>databuffer := Some ?b, databuffersize := bs\<rparr>)"
        using False Some by (simp add: read_payload_def room)
      moreover have "length (take ?n (drop (pos + ?h) buffer)) = ?n" using False assms(3) by simp
      moreover have "msg_wf (m\<lparr>databuffer := Some ?b, databuffersize := bs\<rparr>)"
        using wf' Some big(1) [OF Some] calculation(2) by (simp add: msg_wf_def)
      ultimately show ?thesis using big(1) [OF Some] by auto
    qed
  qed
qed

text \<open>
  The message at \<open>pos\<close> in the buffer, with \<open>left\<close> bytes: its headers and its payload are in the message that has
  been read.
\<close>

definition read_from :: "bytes \<Rightarrow> nat \<Rightarrow> dlt_message \<Rightarrow> bool" where
  "read_from buffer pos m \<longleftrightarrow>
     (let n = unat (headersize m); size = unat (datasize m); htyp = headerbuffer m ! sizeof_storage in
      n = sizeof_storage + sizeof_standard + DLT_STANDARD_HEADER_EXTRA_SIZE htyp +
        (if htyp AND DLT_HTYP_UEH \<noteq> 0 then sizeof_extended else 0) \<and>
      take (n - sizeof_storage) (drop sizeof_storage (headerbuffer m)) = take (n - sizeof_storage) (drop pos buffer) \<and>
      take size (the (databuffer m)) = take size (drop (pos + (n - sizeof_storage)) buffer) \<and>
      (sizeof_storage + sizeof_standard < n \<longrightarrow> extras_of m = m) \<and>
      (htyp AND DLT_HTYP_UEH \<noteq> 0 \<longrightarrow>
        extendedheader m = Some (sizeof_storage + sizeof_standard + DLT_STANDARD_HEADER_EXTRA_SIZE htyp)))"

lemma read_standard_header:
  assumes "msg_wf m" "pos + left \<le> length buffer" "4 \<le> left"
  obtains std where "ptr_read (int pos) sizeof_standard buffer = Ok std" "length std = 4" "std = take 4 (drop pos buffer)"
    "put_header sizeof_storage std m = Ok (m\<lparr>headerbuffer := take 16 (headerbuffer m) @ std @ drop 20 (headerbuffer m)\<rparr>)"
proof (rule that [of "take 4 (drop pos buffer)"])
  show "ptr_read (int pos) sizeof_standard buffer = Ok (take 4 (drop pos buffer))"
    using assms by (simp add: ptr_read_Ok dlt_sizeof_defs)
  show "length (take 4 (drop pos buffer)) = 4" using assms by simp
  then show "put_header sizeof_storage (take 4 (drop pos buffer)) m =
      Ok (m\<lparr>headerbuffer := take 16 (headerbuffer m) @ take 4 (drop pos buffer) @ drop 20 (headerbuffer m)\<rparr>)"
    using put_header_safe [of m 16 "take 4 (drop pos buffer)"] assms by (simp add: msg_wf_def dlt_sizeof_defs)
qed simp

text \<open>The total length that a standard header gives, and the size of the headers.\<close>

definition frame_total :: "bytes \<Rightarrow> nat" where
  "frame_total std = unat (DLT_SWAP_16 (of_nat (le_nat (take 2 (drop 2 std)))))"

definition frame_headers :: "bytes \<Rightarrow> nat" where
  "frame_headers std = sizeof_standard + DLT_STANDARD_HEADER_EXTRA_SIZE (std ! 0) +
     (if std ! 0 AND DLT_HTYP_UEH \<noteq> 0 then sizeof_extended else 0)"

lemma dlt_message_read_unfold:
  assumes wf: "msg_wf m" and len: "4 \<le> unat len" "unat len \<le> length buffer"
    and skip: "skip_serial_header buffer (unat len) resync (m\<lparr>resync_offset := 0\<rparr>) = Ok (pos, left, m1)"
      "pos + left = unat len" "same_frame (m\<lparr>resync_offset := 0\<rparr>) m1" and left: "4 \<le> left"
    and d: "d = drop pos buffer"
  shows "\<exists>m3. dlt_message_read env (Some buffer) len resync m =
      (if frame_total d < frame_headers d then Ok (DLT_MESSAGE_ERROR_CONTENT, m3)
       else bind_r (read_extra buffer pos left (d ! 0) (frame_headers d - 4) m3) (\<lambda>(fits, m4).
         if \<not> fits then Ok (DLT_MESSAGE_ERROR_SIZE, m4) else read_payload env buffer pos left m4)) \<and>
    msg_wf m3 \<and> standardheader m3 = Some sizeof_storage \<and> headersize m3 = of_nat (sizeof_storage + frame_headers d) \<and>
    datasize m3 = of_int (int (frame_total d) - int (frame_headers d)) \<and> take 4 (drop sizeof_storage (headerbuffer m3)) = take 4 d"
proof -
  have wf1: "msg_wf m1" using same_frame_wf [OF skip(3)] wf by (simp add: msg_wf_def split: option.splits)
  obtain std where std: "ptr_read (int pos) sizeof_standard buffer = Ok std" "length std = 4" "std = take 4 d"
    "put_header sizeof_storage std m1 = Ok (m1\<lparr>headerbuffer := take 16 (headerbuffer m1) @ std @ drop 20 (headerbuffer m1)\<rparr>)"
    using read_standard_header [OF wf1, of pos left buffer] skip(2) left len unfolding d by auto
  let ?m3 = "m1\<lparr>headerbuffer := take 16 (headerbuffer m1) @ std @ drop 20 (headerbuffer m1), standardheader := Some sizeof_storage,
    headersize := of_nat (sizeof_storage + frame_headers d), datasize := of_int (int (frame_total d) - int (frame_headers d))\<rparr>"
  have fields: "std ! 0 = d ! 0" "drop 2 std = take 2 (drop 2 d)" using std(2,3) by (simp_all add: drop_take)
  have X: "DLT_STANDARD_HEADER_EXTRA_SIZE (d ! 0) + (if d ! 0 AND DLT_HTYP_UEH \<noteq> 0 then sizeof_extended else 0) = frame_headers d - 4"
    "sizeof_standard + (frame_headers d - 4) = frame_headers d" "\<not> left < sizeof_standard"
    "sizeof_storage + sizeof_standard + (frame_headers d - 4) = sizeof_storage + frame_headers d"
    using left by (simp_all add: frame_headers_def dlt_sizeof_defs)
  have T: "uint (DLT_SWAP_16 (word_of_nat (le_nat (drop 2 std)))) = int (frame_total d)"
    "ucast (DLT_SWAP_16 (word_of_nat (le_nat (drop 2 std)))) = (word_of_nat (frame_total d) :: u32)"
    by (simp_all add: frame_total_def fields)
  have "\<not> len \<le> 0" "dltSerialHeader \<noteq> [] \<and> length dltSerialHeader = 4"
    using len(1) by (auto simp: word_le_nat_alt dltSerialHeader_def)
  then have "dlt_message_read env (Some buffer) len resync m =
      (if frame_total d < frame_headers d then Ok (DLT_MESSAGE_ERROR_CONTENT, ?m3)
       else bind_r (read_extra buffer pos left (d ! 0) (frame_headers d - 4) ?m3) (\<lambda>(fits, m4).
         if \<not> fits then Ok (DLT_MESSAGE_ERROR_SIZE, m4) else read_payload env buffer pos left m4))"
    using len left T by (simp add: dlt_message_read_def skip(1) std(1,4) fields(1) Let_def X
      cong: if_cong split del: if_split del: of_nat_add)
  moreover have "msg_wf ?m3" using wf1 std(2) by (simp add: msg_wf_def dlt_sizeof_defs split: option.splits)
  moreover have "take 4 (drop sizeof_storage (headerbuffer ?m3)) = take 4 d"
    using wf1 std(2,3) by (simp add: msg_wf_def dlt_sizeof_defs)
  ultimately show ?thesis by (intro exI [of _ ?m3]) simp
qed

lemma extras_of_payload:
  "extras_of (m\<lparr>databuffer := b, databuffersize := bs\<rparr>) = (extras_of m)\<lparr>databuffer := b, databuffersize := bs\<rparr>"
  by (simp add: extras_of_def Let_def)

lemma headers_joined:
  assumes "take (16 + n) h4 = take 20 h3 @ take (n - 4) (drop 4 d)" "take 4 (drop 16 h3) = take 4 d" "length h3 = 42" "4 \<le> n"
  shows "take n (drop 16 h4) = take n d"
proof -
  have "take n (drop 16 h4) = drop 16 (take (16 + n) h4)" by (simp add: drop_take)
  also have "\<dots> = take 4 d @ take (n - 4) (drop 4 d)" using assms by (simp add: drop_take)
  also have "\<dots> = take n d" using assms(4) take_add [of 4 "n - 4" d] by simp
  finally show ?thesis .
qed

lemma read_finish:
  assumes m: "msg_wf (m\<lparr>databuffer := Some b, databuffersize := bs\<rparr>)" "standardheader m = Some sizeof_storage"
    "unat (headersize m) = 16 + H" "unat (datasize m) < 65536" "headerbuffer m ! sizeof_storage = d ! 0"
    and H: "H = frame_headers d" "d = drop pos buffer" and hdr: "take H (drop 16 (headerbuffer m)) = take H d"
    and extras: "0 < H - 4 \<longrightarrow> extras_of m = m"
    and ext: "d ! 0 AND DLT_HTYP_UEH \<noteq> 0 \<longrightarrow>
      extendedheader m = Some (sizeof_storage + sizeof_standard + DLT_STANDARD_HEADER_EXTRA_SIZE (d ! 0))"
    and b: "unat (datasize m) \<le> length b" "take (unat (datasize m)) b = take (unat (datasize m)) (drop (pos + H) buffer)"
  shows "msg_complete (m\<lparr>databuffer := Some b, databuffersize := bs\<rparr>)"
    "read_from buffer pos (m\<lparr>databuffer := Some b, databuffersize := bs\<rparr>)"
  using assms extra_size_le [of "d ! 0"]
  by (auto simp: msg_complete_def read_from_def Let_def frame_headers_def dlt_sizeof_defs extras_of_payload)

lemma dlt_message_read_at:
  assumes wf: "msg_wf m" and len: "4 \<le> unat len" "unat len \<le> length buffer"
    and skip: "skip_serial_header buffer (unat len) resync (m\<lparr>resync_offset := 0\<rparr>) = Ok (pos, left, m1)"
      "pos + left = unat len" "same_frame (m\<lparr>resync_offset := 0\<rparr>) m1" and left: "4 \<le> left"
    and d: "d = drop pos buffer"
  shows "\<exists>r m'. dlt_message_read env (Some buffer) len resync m = Ok (r, m') \<and> msg_wf m' \<and>
    (r = DLT_MESSAGE_ERROR_OK \<longrightarrow> msg_complete m' \<and> read_from buffer pos m') \<and>
    (frame_headers d \<le> frame_total d \<and> frame_total d \<le> left \<and> malloc env (frame_total d - frame_headers d) \<noteq> None \<longrightarrow>
      r = DLT_MESSAGE_ERROR_OK \<and> unat (datasize m') = frame_total d - frame_headers d)"
proof -
  let ?T = "frame_total d" and ?H = "frame_headers d"
  obtain m3 where m3: "dlt_message_read env (Some buffer) len resync m =
      (if ?T < ?H then Ok (DLT_MESSAGE_ERROR_CONTENT, m3)
       else bind_r (read_extra buffer pos left (d ! 0) (?H - 4) m3) (\<lambda>(fits, m4).
         if \<not> fits then Ok (DLT_MESSAGE_ERROR_SIZE, m4) else read_payload env buffer pos left m4))"
    "msg_wf m3" "standardheader m3 = Some sizeof_storage" "headersize m3 = of_nat (sizeof_storage + ?H)"
    "datasize m3 = of_int (int ?T - int ?H)" "take 4 (drop sizeof_storage (headerbuffer m3)) = take 4 d"
    using dlt_message_read_unfold [OF assms] by blast
  show ?thesis
  proof (cases "?T < ?H")
    case True
    then show ?thesis using m3(1,2) by (simp add: dlt_message_error_defs)
  next
    case False
    have htyp: "headerbuffer m3 ! sizeof_storage = d ! 0"
      using m3(2) arg_cong [OF m3(6), of "\<lambda>xs. xs ! 0"] by (simp add: msg_wf_def dlt_sizeof_defs)
    have H: "?H - 4 = DLT_STANDARD_HEADER_EXTRA_SIZE (d ! 0) + (if d ! 0 AND DLT_HTYP_UEH \<noteq> 0 then sizeof_extended else 0)"
      "?H = 4 + (?H - 4)" "?H \<le> 26"
      using extra_size_le [of "d ! 0"] by (auto simp: frame_headers_def dlt_sizeof_defs)
    then have hs: "unat (headersize m3) = 16 + ?H" "headersize m3 = of_nat (sizeof_storage + sizeof_standard + (?H - 4))"
      using m3(4) headers_unat [of "16 + ?H"] by (simp_all add: dlt_sizeof_defs)
    have "?T < 65536" using unsigned_less [where 'a = nat and 'b = 16] by (simp add: frame_total_def)
    moreover have "datasize m3 = of_nat (?T - ?H)" using m3(5) False by (simp add: of_nat_diff)
    ultimately have ds: "unat (datasize m3) = ?T - ?H" "?T - ?H < 65536" by (simp_all add: unat_u32)
    obtain fits m4 where m4: "read_extra buffer pos left (d ! 0) (?H - 4) m3 = Ok (fits, m4)" "msg_wf m4"
      "standardheader m4 = Some sizeof_storage" "headersize m4 = headersize m3" "datasize m4 = datasize m3"
      "headerbuffer m4 ! sizeof_storage = d ! 0" "fits = (?H - 4 = 0 \<or> sizeof_standard + (?H - 4) \<le> left)"
      "fits \<longrightarrow> take (20 + (?H - 4)) (headerbuffer m4) = take 20 (headerbuffer m3) @ take (?H - 4) (drop (pos + 4) buffer)"
      "fits \<and> 0 < ?H - 4 \<longrightarrow> extras_of m4 = m4"
      "fits \<and> d ! 0 AND DLT_HTYP_UEH \<noteq> 0 \<longrightarrow>
        extendedheader m4 = Some (sizeof_storage + sizeof_standard + DLT_STANDARD_HEADER_EXTRA_SIZE (d ! 0))"
      using read_extra_safe [OF m3(2,3) htyp H(1) hs(2), of pos left buffer] skip(2) len by auto
    have fit: "unat (datasize m4) < 65536" "pos + left \<le> length buffer" using ds m4(5) skip(2) len by simp_all
    obtain r m' where r: "read_payload env buffer pos left m4 = Ok (r, m')" "msg_wf m'"
      "unat (headersize m4) - sizeof_storage + unat (datasize m4) \<le> left \<and> malloc env (unat (datasize m4)) \<noteq> None \<longrightarrow>
        r = DLT_MESSAGE_ERROR_OK"
      "r = DLT_MESSAGE_ERROR_OK \<longrightarrow> (\<exists>b bs. m' = m4\<lparr>databuffer := Some b, databuffersize := bs\<rparr> \<and>
        unat (datasize m4) \<le> length b \<and> take (unat (datasize m4)) b =
          take (unat (datasize m4)) (drop (pos + (unat (headersize m4) - sizeof_storage)) buffer))"
      using read_payload_safe [OF m4(2) fit, of env] by blast
    have read: "dlt_message_read env (Some buffer) len resync m = (if \<not> fits then Ok (DLT_MESSAGE_ERROR_SIZE, m4) else Ok (r, m'))"
      using m3(1) False m4(1) r(1) by simp
    have ok: "msg_complete m' \<and> read_from buffer pos m' \<and> unat (datasize m') = ?T - ?H"
      if fits and r_ok: "r = DLT_MESSAGE_ERROR_OK"
    proof -
      have "take (16 + ?H) (headerbuffer m4) = take 20 (headerbuffer m3) @ take (?H - 4) (drop 4 d)"
        using m4(8) that(1) H(2) unfolding d by (simp add: add.commute)
      then have hdr: "take ?H (drop 16 (headerbuffer m4)) = take ?H d"
        by (rule headers_joined) (use m3(2,6) H(2) in \<open>simp_all add: msg_wf_def dlt_sizeof_defs\<close>)
      obtain b bs where b: "m' = m4\<lparr>databuffer := Some b, databuffersize := bs\<rparr>" "?T - ?H \<le> length b"
        "take (?T - ?H) b = take (?T - ?H) (drop (pos + ?H) buffer)"
        using r(4) r_ok ds hs(1) m4(4,5) by (auto simp: dlt_sizeof_defs)
      show ?thesis
        using read_finish [OF r(2) [unfolded b(1)] m4(3) _ _ m4(6) refl d hdr] m4(4,5,9,10) that(1) hs(1) ds b by simp
    qed
    have all: "r = DLT_MESSAGE_ERROR_OK \<and> fits" if "?T \<le> left" "malloc env (?T - ?H) \<noteq> None"
      using that r(3) m4(4,5,7) hs(1) ds(1) H(2) False by (simp add: dlt_sizeof_defs)
    show ?thesis
    proof (cases fits)
      case True
      then show ?thesis using read ok r(2) all by auto
    next
      case no: False
      then have "\<not> (?T \<le> left \<and> malloc env (?T - ?H) \<noteq> None)" using all by blast
      then show ?thesis using read m4(2) no by (simp add: dlt_message_error_defs)
    qed
  qed
qed

section \<open>Properties of reading\<close>

text \<open>A message after \<open>dlt_message_init\<close>, with zeros in the header buffer.\<close>

definition fresh_message :: dlt_message where
  "fresh_message = \<lparr>found_serialheader = False, resync_offset = 0, headersize = 0, datasize = 0, headerbuffer = replicate 42 0,
     databuffer = None, databuffersize = 0, standardheader = None, extendedheader = None, extra_ecu = [0, 0, 0, 0],
     extra_seid = 0, extra_tmsp = 0\<rparr>"

lemma fresh_wf: "msg_wf fresh_message"
  by (simp add: msg_wf_def fresh_message_def dlt_sizeof_defs)

text \<open>
  [C24] The search for a serial header always ends, within the received bytes: it stops at the first header
  there is, or at the last three bytes when there is none.
\<close>

theorem resync_finds_first:
  assumes "4 \<le> len" "len \<le> length buffer" "len < 2 ^ 31"
  shows "\<exists>found k m'. skip_serial_header buffer len True m = Ok (k + (if found then 4 else 0), len - k - (if found then 4 else 0), m') \<and>
    found_serialheader m' = found \<and> (\<forall>i. i < k \<longrightarrow> \<not> serial_at buffer i) \<and>
    (if found then serial_at buffer k \<and> k + 4 \<le> len else k = len - 3)"
proof (cases "serial_at buffer 0")
  case True
  then show ?thesis using assms
    by (intro exI [of _ True] exI [of _ 0]) (simp add: skip_serial_header_def ptr_read_def serial_at_def)
next
  case False
  obtain found k where k: "resync_loop buffer len 0 = Ok (found, k)" "\<forall>i. 0 \<le> i \<and> i < k \<longrightarrow> \<not> serial_at buffer i"
    "if found then serial_at buffer k \<and> k + 4 \<le> len else k = len - 3"
    using resync_loop_first [of 0 len buffer] assms by auto
  then show ?thesis using assms False
    by (intro exI [of _ found] exI [of _ k]) (auto simp: skip_serial_header_def ptr_read_def serial_at_def Let_def)
qed

theorem resync_finds_first_witness:
  "\<exists>found k m'. skip_serial_header [9, 68, 76, 83, 1, 7] 6 True fresh_message = Ok (k + (if found then 4 else 0), 6 - k - (if found then 4 else 0), m') \<and>
    found_serialheader m' = found \<and> (\<forall>i. i < k \<longrightarrow> \<not> serial_at [9, 68, 76, 83, 1, 7] i) \<and>
    (if found then serial_at [9, 68, 76, 83, 1, 7] k \<and> k + 4 \<le> 6 else k = 6 - 3)"
  using resync_finds_first [of 6 "[9, 68, 76, 83, 1, 7]" fresh_message] by simp

text \<open>
  [C17] Reading is safe for every sequence of received bytes: nothing outside the received bytes, the header
  buffer and the payload buffer is accessed, the message stays well-formed, and a message that has been read
  completely has its headers and its payload in its buffers.
\<close>

theorem dlt_message_read_safe:
  assumes "msg_wf m" "unat len \<le> length buffer" "unat len < 2 ^ 31"
  shows "\<exists>r m'. dlt_message_read env (Some buffer) len resync m = Ok (r, m') \<and> msg_wf m' \<and>
    (r = DLT_MESSAGE_ERROR_OK \<longrightarrow> msg_complete m')"
proof (cases "unat len < 4")
  case True
  then show ?thesis using assms(1)
    by (auto simp: dlt_message_read_def dltSerialHeader_def dlt_message_error_defs msg_wf_def split: option.splits)
next
  case False
  obtain pos left m1 where skip: "skip_serial_header buffer (unat len) resync (m\<lparr>resync_offset := 0\<rparr>) = Ok (pos, left, m1)"
      "pos + left = unat len" "same_frame (m\<lparr>resync_offset := 0\<rparr>) m1"
    using skip_serial_header_safe [of "unat len" buffer resync] False assms by (metis not_less)
  show ?thesis
  proof (cases "left < 4")
    case True
    moreover have "msg_wf m1" using same_frame_wf [OF skip(3)] assms(1) by (simp add: msg_wf_def split: option.splits)
    moreover have "\<not> len \<le> 0" using False by (auto simp: word_le_nat_alt)
    ultimately show ?thesis using skip(1) False
      by (simp add: dlt_message_read_def dltSerialHeader_def dlt_message_error_defs dlt_sizeof_defs Let_def)
  next
    case left: False
    then show ?thesis using dlt_message_read_at [OF assms(1) _ assms(2) skip _ refl] False by (metis not_less)
  qed
qed

theorem dlt_message_read_safe_witness:
  "\<exists>r m'. dlt_message_read \<lparr>malloc = (\<lambda>n. Some (\<lambda>i. 0)), padding = (0, 0, 0)\<rparr> (Some [0x21, 0, 0, 15, 0x41, 1, 65, 66, 67, 68]) 10 False fresh_message
      = Ok (r, m') \<and> msg_wf m' \<and> (r = DLT_MESSAGE_ERROR_OK \<longrightarrow> msg_complete m')"
  by (rule dlt_message_read_safe) (simp_all add: fresh_wf)

end
