(* ===== verification/Dlt_Print.thy ===== *)
theory Dlt_Print
  imports Dlt_Message
begin

text \<open>
  Printing the payload of a message as text: \<open>dlt_message_argument_print\<close> and \<open>dlt_message_payload\<close> of
  \<open>dlt-daemon/src/shared/dlt_common.c\<close>. The arguments are read from the payload, which comes from the network,
  and printed into an area of text. \<open>attrs\<close> is the setting \<open>print_with_attributes\<close>. The 64-bit code for
  platforms other than 32-bit ARM is modelled.
\<close>

section \<open>Floating point numbers\<close>

text \<open>
  The conversion \<open>%g\<close>: six significant digits, rounded to the nearest even one, without trailing zeros, in
  fixed notation for exponents from \<open>-4\<close> to \<open>5\<close>. The number is \<open>n / d\<close>; \<open>leading_zeros\<close> counts how often it has
  to be multiplied by ten until it is at least one.
\<close>

function leading_zeros :: "nat \<Rightarrow> nat \<Rightarrow> nat" where
  "leading_zeros n d = (if n = 0 \<or> d \<le> n then 0 else Suc (leading_zeros (10 * n) d))"
  by pat_completeness auto
termination
  by (relation "measure (\<lambda>(n, d). d - n)") auto

declare leading_zeros.simps [simp del]

definition round_even :: "nat \<Rightarrow> nat \<Rightarrow> nat" where
  "round_even n d = (let q = n div d; r = n mod d in if 2 * r < d \<or> (2 * r = d \<and> even q) then q else q + 1)"

definition g_digits :: "nat \<Rightarrow> nat \<Rightarrow> nat \<times> int" where
  "g_digits n d =
     (let x = (if d \<le> n then int (length (decimal (n div d)) - 1) else - int (leading_zeros n d));
          q = (if x \<le> 5 then round_even (n * 10 ^ nat (5 - x)) d else round_even n (d * 10 ^ nat (x - 5)))
      in if q = 10 ^ 6 then (10 ^ 5, x + 1) else (q, x))"

definition strip_zeros :: "bytes \<Rightarrow> bytes" where
  "strip_zeros s = rev (dropWhile (\<lambda>b. b = 48) (rev s))"

definition with_fraction :: "bytes \<Rightarrow> bytes \<Rightarrow> bytes" where
  "with_fraction whole frac = (let f = strip_zeros frac in if f = [] then whole else whole @ [46] @ f)"

definition format_g :: "nat \<Rightarrow> nat \<Rightarrow> bytes" where
  "format_g n d =
     (let (q, x) = g_digits n d; s = decimal q in
      if - 4 \<le> x \<and> x < 0 then with_fraction [48] (replicate (nat (- x - 1)) 48 @ s)
      else if 0 \<le> x \<and> x < 6 then with_fraction (take (nat x + 1) s) (drop (nat x + 1) s)
      else with_fraction (take 1 s) (drop 1 s) @ [101, if x < 0 then 45 else 43] @ zero_pad 2 (decimal (nat \<bar>x\<bar>)))"

text \<open>A number in the binary format with \<open>eb\<close> bits of exponent and \<open>mb\<close> bits of fraction.\<close>

definition format_float :: "nat \<Rightarrow> nat \<Rightarrow> nat \<Rightarrow> bytes" where
  "format_float eb mb w =
     (let negative = odd (w div 2 ^ (eb + mb)); e = w div 2 ^ mb mod 2 ^ eb; f = w mod 2 ^ mb;
          m = (if e = 0 then f else 2 ^ mb + f);
          x = (if e = 0 then 1 else int e) - (2 ^ (eb - 1) - 1) - int mb
      in (if negative then [45] else []) @
         (if e = 2 ^ eb - 1 then (if f = 0 then ascii ''inf'' else ascii ''nan'')
          else if m = 0 then [48]
          else if 0 \<le> x then format_g (m * 2 ^ nat x) 1 else format_g m (2 ^ nat (- x))))"

section \<open>Reading arguments\<close>

definition DLT_TYPE_INFO_TYLE :: u32 where "DLT_TYPE_INFO_TYLE = 0xf"
definition DLT_TYPE_INFO_FIXP :: u32 where "DLT_TYPE_INFO_FIXP = 0x1000"
definition DLT_TYPE_INFO_TRAI :: u32 where "DLT_TYPE_INFO_TRAI = 0x2000"
definition DLT_TYPE_INFO_SCOD :: u32 where "DLT_TYPE_INFO_SCOD = 0x38000"
definition DLT_TYLE_128BIT :: u32 where "DLT_TYLE_128BIT = 5"

lemmas print_type_defs = type_info_defs DLT_TYPE_INFO_TYLE_def DLT_TYPE_INFO_FIXP_def DLT_TYPE_INFO_TRAI_def
  DLT_TYPE_INFO_SCOD_def DLT_TYLE_128BIT_def

text \<open>\<open>*ptr\<close> as an offset in the payload, \<open>*datalength\<close>, and the area of text.\<close>

record printer =
  pr_pos :: int
  pr_len :: int
  pr_text :: bytes

type_synonym print_step = "printer \<Rightarrow> (int \<times> printer) result"

definition skip :: "int \<Rightarrow> printer \<Rightarrow> printer" where
  "skip n s = s\<lparr>pr_pos := pr_pos s + n, pr_len := pr_len s - n\<rparr>"

text \<open>
  \<open>DLT_MSG_READ_VALUE\<close> with the test of \<open>*datalength\<close> that follows it; the rest of the function is \<open>k\<close>. Also
  with the conversion of a length.
\<close>

definition read_value :: "bytes \<Rightarrow> nat \<Rightarrow> (bytes \<Rightarrow> print_step) \<Rightarrow> print_step" where
  "read_value mem n k s =
     (if pr_len s < 0 \<or> pr_len s < int n then Ok (DLT_RETURN_ERROR, s\<lparr>pr_len := -1\<rparr>)
      else bind_r (ptr_read (pr_pos s) n mem) (\<lambda>d. k d (skip (int n) s)))"

definition read_length :: "bytes \<Rightarrow> byte \<Rightarrow> (u16 \<Rightarrow> print_step) \<Rightarrow> print_step" where
  "read_length mem htyp k = read_value mem 2 (\<lambda>d. k (DLT_ENDIAN_GET_16 htyp (of_nat (le_nat d))))"

text \<open>\<open>DLT_MSG_READ_STRING\<close> with the test that follows it.\<close>

definition read_string :: "bytes \<Rightarrow> int \<Rightarrow> u64 \<Rightarrow> u16 \<Rightarrow> print_step" where
  "read_string mem off textlength len s =
     (if pr_len s < 0 \<or> len \<le> 0 \<or> textlength < ucast len \<or> pr_len s < uint len
      then Ok (DLT_RETURN_ERROR, s\<lparr>pr_len := -1\<rparr>)
      else bind_r (memcpy (pr_text s) off mem (pr_pos s) (unat len)) (\<lambda>t1.
        bind_r (dlt_clean_string off (uint len) t1) (\<lambda>t2.
        bind_r (ptr_write (off + uint len) [0] t2) (\<lambda>t3.
        Ok (DLT_RETURN_OK, skip (uint len) (s\<lparr>pr_text := t3\<rparr>))))))"

definition print_text :: "int \<Rightarrow> u64 \<Rightarrow> bytes \<Rightarrow> print_step" where
  "print_text off textlength out s =
     bind_r (c_snprintf off (unat textlength) out (pr_text s)) (\<lambda>t. Ok (DLT_RETURN_OK, s\<lparr>pr_text := t\<rparr>))"

text \<open>
  The name: it is printed from the payload, with a colon, and the text of the value starts \<open>length2\<close> bytes
  later. \<open>slack\<close> is what the subtraction from \<open>textlength\<close> leaves out: one for a boolean value.
\<close>

definition print_name :: "bytes \<Rightarrow> bool \<Rightarrow> u64 \<Rightarrow> u16 \<Rightarrow> (int \<Rightarrow> u64 \<Rightarrow> print_step) \<Rightarrow> int \<Rightarrow> u64 \<Rightarrow> print_step" where
  "print_name mem attrs slack length2 k off textlength s =
     (if pr_len s < uint length2 then Ok (DLT_RETURN_ERROR, s)
      else if attrs \<and> length2 > 1
      then bind_r (c_string (pr_pos s) mem) (\<lambda>name.
        bind_r (c_snprintf off (unat textlength) (name @ [58]) (pr_text s)) (\<lambda>t.
        k (off + uint length2) (textlength - (ucast length2 - slack)) (skip (uint length2) (s\<lparr>pr_text := t\<rparr>))))
      else k off textlength (skip (uint length2) s))"

definition with_name ::
  "bytes \<Rightarrow> bool \<Rightarrow> byte \<Rightarrow> u64 \<Rightarrow> u32 \<Rightarrow> (int \<Rightarrow> u64 \<Rightarrow> print_step) \<Rightarrow> int \<Rightarrow> u64 \<Rightarrow> print_step" where
  "with_name mem attrs htyp slack type_info k off textlength =
     (if type_info AND DLT_TYPE_INFO_VARI \<noteq> 0
      then read_length mem htyp (\<lambda>length2. print_name mem attrs slack length2 k off textlength)
      else k off textlength)"

text \<open>Name and unit; the position and the length of the unit are kept for later.\<close>

definition with_name_unit ::
  "bytes \<Rightarrow> bool \<Rightarrow> byte \<Rightarrow> u32 \<Rightarrow> (int \<times> u16 \<Rightarrow> int \<Rightarrow> u64 \<Rightarrow> print_step) \<Rightarrow> int \<Rightarrow> u64 \<Rightarrow> print_step" where
  "with_name_unit mem attrs htyp type_info k off textlength =
     (if type_info AND DLT_TYPE_INFO_VARI \<noteq> 0
      then read_length mem htyp (\<lambda>length2. read_length mem htyp (\<lambda>length3.
        print_name mem attrs 0 length2 (\<lambda>off textlength s.
          if pr_len s < uint length3 then Ok (DLT_RETURN_ERROR, s)
          else k (pr_pos s, length3) off textlength (skip (uint length3) s)) off textlength))
      else k (0, 0) off textlength)"

definition print_unit :: "bytes \<Rightarrow> bool \<Rightarrow> int \<times> u16 \<Rightarrow> int \<Rightarrow> u64 \<Rightarrow> print_step" where
  "print_unit mem attrs unit off textlength s =
     (if attrs \<and> snd unit > 1
      then bind_r (c_strlen off (pr_text s)) (\<lambda>n.
        bind_r (c_string (fst unit) mem) (\<lambda>txt. print_text (off + int n) (textlength - of_nat n) (58 # txt) s))
      else Ok (DLT_RETURN_OK, s))"

text \<open>The value, then the test for a corrupted payload, then the unit.\<close>

definition value_then_unit ::
  "bytes \<Rightarrow> bool \<Rightarrow> (int \<Rightarrow> u64 \<Rightarrow> print_step) \<Rightarrow> int \<times> u16 \<Rightarrow> int \<Rightarrow> u64 \<Rightarrow> print_step" where
  "value_then_unit mem attrs v unit off textlength s =
     bind_r (v off textlength s) (\<lambda>(ret, s1).
     if ret = DLT_RETURN_ERROR then Ok (DLT_RETURN_ERROR, s1)
     else if pr_len s1 < 0 then Ok (DLT_RETURN_ERROR, s1)
     else print_unit mem attrs unit off textlength s1)"

section \<open>The types of arguments\<close>

definition print_strg :: "bytes \<Rightarrow> bool \<Rightarrow> byte \<Rightarrow> u32 \<Rightarrow> int \<Rightarrow> int \<Rightarrow> u64 \<Rightarrow> print_step" where
  "print_strg mem attrs htyp type_info byteLength off textlength =
     (let rest = (\<lambda>len. with_name mem attrs htyp 0 type_info (\<lambda>off textlength. read_string mem off textlength len) off textlength)
      in if byteLength < 0 then read_length mem htyp rest else rest (of_int byteLength))"

definition print_bool :: "bytes \<Rightarrow> bool \<Rightarrow> byte \<Rightarrow> u32 \<Rightarrow> int \<Rightarrow> u64 \<Rightarrow> print_step" where
  "print_bool mem attrs htyp type_info =
     with_name mem attrs htyp 1 type_info (\<lambda>off textlength. read_value mem 1 (\<lambda>d. print_text off textlength (decimal (le_nat d))))"

text \<open>Binary digits in groups of four.\<close>

definition binary_text :: "nat \<Rightarrow> nat \<Rightarrow> bytes" where
  "binary_text w v = concat (map (\<lambda>i. (if i mod 4 = 3 \<and> i + 1 < w then [32] else []) @ [if odd (v div 2 ^ i) then 49 else 48])
     (rev [0..<w]))"

definition print_bin :: "bytes \<Rightarrow> u32 \<Rightarrow> int \<Rightarrow> u64 \<Rightarrow> print_step" where
  "print_bin mem type_info off textlength =
     (let tyle = type_info AND DLT_TYPE_INFO_TYLE in
      if tyle = DLT_TYLE_8BIT
      then read_value mem 1 (\<lambda>d. print_text off textlength (ascii ''0b'' @ binary_text 8 (le_nat d)))
      else if tyle = DLT_TYLE_16BIT
      then read_value mem 2 (\<lambda>d. print_text off textlength (ascii ''0b'' @ binary_text 16 (le_nat d)))
      else (\<lambda>s. Ok (DLT_RETURN_OK, s)))"

text \<open>The upper half of a 64-bit number is read first, from four bytes further on.\<close>

definition print_hex64 :: "bytes \<Rightarrow> int \<Rightarrow> u64 \<Rightarrow> print_step" where
  "print_hex64 mem off textlength s =
     read_value mem 4 (\<lambda>hi s1.
       bind_r (c_snprintf off (unat textlength) (ascii ''0x'' @ zero_pad 8 (hexadecimal (le_nat hi))) (pr_text s1)) (\<lambda>t1.
       read_value mem 4 (\<lambda>lo s2.
         bind_r (c_strlen off (pr_text s2)) (\<lambda>n.
         bind_r (c_snprintf (off + int n) (unat (textlength - of_nat n)) (zero_pad 8 (hexadecimal (le_nat lo))) (pr_text s2))
           (\<lambda>t2. Ok (DLT_RETURN_OK, s2\<lparr>pr_text := t2, pr_pos := pr_pos s2 + 4\<rparr>))))
         (s1\<lparr>pr_text := t1, pr_pos := pr_pos s1 - 8\<rparr>)))
       (s\<lparr>pr_pos := pr_pos s + 4\<rparr>)"

definition print_hex :: "bytes \<Rightarrow> u32 \<Rightarrow> int \<Rightarrow> u64 \<Rightarrow> print_step" where
  "print_hex mem type_info off textlength =
     (let tyle = type_info AND DLT_TYPE_INFO_TYLE;
          fixed = (\<lambda>n. read_value mem n (\<lambda>d. print_text off textlength (ascii ''0x'' @ zero_pad (2 * n) (hexadecimal (le_nat d)))))
      in if tyle = DLT_TYLE_8BIT then fixed 1
         else if tyle = DLT_TYLE_16BIT then fixed 2
         else if tyle = DLT_TYLE_32BIT then fixed 4
         else if tyle = DLT_TYLE_64BIT then print_hex64 mem off textlength
         else (\<lambda>s. Ok (DLT_RETURN_OK, s)))"

text \<open>\<open>n\<close> bytes in hexadecimal form; whether they fit into the text is not looked at.\<close>

definition print_block :: "bytes \<Rightarrow> nat \<Rightarrow> int \<Rightarrow> u64 \<Rightarrow> print_step" where
  "print_block mem n off textlength s =
     (if pr_len s < int n then Ok (DLT_RETURN_ERROR, s)
      else bind_r (dlt_print_hex_string off (sint (ucast textlength :: u32)) mem (pr_pos s) (int n) (pr_text s))
        (\<lambda>(_, t). Ok (DLT_RETURN_OK, skip (int n) (s\<lparr>pr_text := t\<rparr>))))"

definition skip_fixp :: "bytes \<Rightarrow> u32 \<Rightarrow> print_step \<Rightarrow> print_step" where
  "skip_fixp mem type_info k =
     (if type_info AND DLT_TYPE_INFO_FIXP \<noteq> 0
      then read_value mem 4 (\<lambda>_ s.
        let tyle = type_info AND DLT_TYPE_INFO_TYLE;
            advance = (\<lambda>n. if pr_len s < n then Ok (DLT_RETURN_ERROR, s) else k (skip n s))
        in if tyle = DLT_TYLE_8BIT \<or> tyle = DLT_TYLE_16BIT \<or> tyle = DLT_TYLE_32BIT then advance 4
           else if tyle = DLT_TYLE_64BIT then advance 8
           else if tyle = DLT_TYLE_128BIT then advance 16
           else Ok (DLT_RETURN_ERROR, s))
      else k)"

definition int_text :: "byte \<Rightarrow> bool \<Rightarrow> u32 \<Rightarrow> bytes \<Rightarrow> bytes" where
  "int_text htyp is_signed tyle d =
     (let num = le_nat d in
      if tyle = DLT_TYLE_8BIT then (if is_signed then decimal_int (sint (of_nat num :: byte)) else decimal num)
      else if tyle = DLT_TYLE_16BIT then
        (let v = DLT_ENDIAN_GET_16 htyp (of_nat num) in if is_signed then decimal_int (sint v) else decimal (unat v))
      else if tyle = DLT_TYLE_32BIT then
        (let v = DLT_ENDIAN_GET_32 htyp (of_nat num) in if is_signed then decimal_int (sint v) else decimal (unat v))
      else
        (let v = DLT_ENDIAN_GET_64 htyp (of_nat num) in if is_signed then decimal_int (sint v) else decimal (unat v)))"

definition print_int_value :: "bytes \<Rightarrow> byte \<Rightarrow> u32 \<Rightarrow> int \<Rightarrow> u64 \<Rightarrow> print_step" where
  "print_int_value mem htyp type_info off textlength =
     (let tyle = type_info AND DLT_TYPE_INFO_TYLE; is_signed = (type_info AND DLT_TYPE_INFO_SINT \<noteq> 0);
          number = (\<lambda>n. read_value mem n (\<lambda>d. print_text off textlength (int_text htyp is_signed tyle d)))
      in if tyle = DLT_TYLE_8BIT then number 1
         else if tyle = DLT_TYLE_16BIT then number 2
         else if tyle = DLT_TYLE_32BIT then number 4
         else if tyle = DLT_TYLE_64BIT then number 8
         else if tyle = DLT_TYLE_128BIT then print_block mem 16 off textlength
         else (\<lambda>s. Ok (DLT_RETURN_ERROR, s)))"

definition print_int :: "bytes \<Rightarrow> bool \<Rightarrow> byte \<Rightarrow> u32 \<Rightarrow> int \<Rightarrow> u64 \<Rightarrow> print_step" where
  "print_int mem attrs htyp type_info =
     with_name_unit mem attrs htyp type_info
       (value_then_unit mem attrs (\<lambda>off textlength. skip_fixp mem type_info (print_int_value mem htyp type_info off textlength)))"

definition print_float_value :: "bytes \<Rightarrow> byte \<Rightarrow> u32 \<Rightarrow> int \<Rightarrow> u64 \<Rightarrow> print_step" where
  "print_float_value mem htyp type_info off textlength =
     (let tyle = type_info AND DLT_TYPE_INFO_TYLE in
      if tyle = DLT_TYLE_8BIT then print_block mem 1 off textlength
      else if tyle = DLT_TYLE_16BIT then print_block mem 2 off textlength
      else if tyle = DLT_TYLE_32BIT then
        read_value mem 4 (\<lambda>d. print_text off textlength (format_float 8 23 (unat (DLT_ENDIAN_GET_32 htyp (of_nat (le_nat d))))))
      else if tyle = DLT_TYLE_64BIT then
        read_value mem 8 (\<lambda>d. print_text off textlength (format_float 11 52 (unat (DLT_ENDIAN_GET_64 htyp (of_nat (le_nat d))))))
      else if tyle = DLT_TYLE_128BIT then print_block mem 16 off textlength
      else (\<lambda>s. Ok (DLT_RETURN_ERROR, s)))"

definition print_float :: "bytes \<Rightarrow> bool \<Rightarrow> byte \<Rightarrow> u32 \<Rightarrow> int \<Rightarrow> u64 \<Rightarrow> print_step" where
  "print_float mem attrs htyp type_info =
     with_name_unit mem attrs htyp type_info (value_then_unit mem attrs (print_float_value mem htyp type_info))"

definition print_rawd :: "bytes \<Rightarrow> bool \<Rightarrow> byte \<Rightarrow> u32 \<Rightarrow> int \<Rightarrow> u64 \<Rightarrow> print_step" where
  "print_rawd mem attrs htyp type_info off textlength =
     read_length mem htyp (\<lambda>len. with_name mem attrs htyp 0 type_info (\<lambda>off textlength s.
       if pr_len s < uint len then Ok (DLT_RETURN_ERROR, s)
       else bind_r (dlt_print_hex_string_delim off (sint (ucast textlength :: u32)) mem (pr_pos s) (uint len) 39 (pr_text s))
         (\<lambda>(_, t). Ok (DLT_RETURN_OK, skip (uint len) (s\<lparr>pr_text := t\<rparr>)))) off textlength)"

definition print_trai :: "bytes \<Rightarrow> byte \<Rightarrow> int \<Rightarrow> u64 \<Rightarrow> print_step" where
  "print_trai mem htyp off textlength = read_length mem htyp (\<lambda>len. read_string mem off textlength len)"

definition dlt_message_argument_print ::
  "bytes \<Rightarrow> bool \<Rightarrow> byte \<Rightarrow> u32 \<Rightarrow> int \<Rightarrow> int \<Rightarrow> u64 \<Rightarrow> print_step" where
  "dlt_message_argument_print mem attrs htyp type_info byteLength off textlength s =
     (let scod = type_info AND DLT_TYPE_INFO_SCOD; has = (\<lambda>t. type_info AND t \<noteq> 0);
          checked = (\<lambda>r. bind_r r (\<lambda>(ret, s1). if ret = DLT_RETURN_ERROR \<or> pr_len s1 < 0 then Ok (DLT_RETURN_ERROR, s1)
                                              else Ok (DLT_RETURN_OK, s1)))
      in if has DLT_TYPE_INFO_STRG \<and> (scod = DLT_SCOD_ASCII \<or> scod = DLT_SCOD_UTF8)
         then checked (print_strg mem attrs htyp type_info byteLength off textlength s)
         else if has DLT_TYPE_INFO_BOOL then checked (print_bool mem attrs htyp type_info off textlength s)
         else if has DLT_TYPE_INFO_UINT \<and> scod = DLT_SCOD_BIN then checked (print_bin mem type_info off textlength s)
         else if has DLT_TYPE_INFO_UINT \<and> scod = DLT_SCOD_HEX then checked (print_hex mem type_info off textlength s)
         else if has DLT_TYPE_INFO_SINT \<or> has DLT_TYPE_INFO_UINT then print_int mem attrs htyp type_info off textlength s
         else if has DLT_TYPE_INFO_FLOA then print_float mem attrs htyp type_info off textlength s
         else if has DLT_TYPE_INFO_RAWD then checked (print_rawd mem attrs htyp type_info off textlength s)
         else if has DLT_TYPE_INFO_TRAI then checked (print_trai mem htyp off textlength s)
         else Ok (DLT_RETURN_ERROR, s))"

section \<open>The payload\<close>

definition DLT_OUTPUT_HEX :: int where "DLT_OUTPUT_HEX = 1"
definition DLT_OUTPUT_ASCII :: int where "DLT_OUTPUT_ASCII = 2"
definition DLT_OUTPUT_MIXED_FOR_PLAIN :: int where "DLT_OUTPUT_MIXED_FOR_PLAIN = 3"
definition DLT_OUTPUT_MIXED_FOR_HTML :: int where "DLT_OUTPUT_MIXED_FOR_HTML = 4"
definition DLT_OUTPUT_ASCII_LIMITED :: int where "DLT_OUTPUT_ASCII_LIMITED = 5"
definition DLT_COMMON_ASCII_LIMIT_MAX_CHARS :: int where "DLT_COMMON_ASCII_LIMIT_MAX_CHARS = 20"

lemmas dlt_output_defs = DLT_OUTPUT_HEX_def DLT_OUTPUT_ASCII_def DLT_OUTPUT_MIXED_FOR_PLAIN_def
  DLT_OUTPUT_MIXED_FOR_HTML_def DLT_OUTPUT_ASCII_LIMITED_def DLT_COMMON_ASCII_LIMIT_MAX_CHARS_def

definition service_id_name :: "string list" where
  "service_id_name =
     [[], ''set_log_level'', ''set_trace_status'', ''get_log_info'', ''get_default_log_level'', ''store_config'',
      ''reset_to_factory_default'', ''set_com_interface_status'', ''set_com_interface_max_bandwidth'',
      ''set_verbose_mode'', ''set_message_filtering'', ''set_timing_packets'', ''get_local_time'', ''use_ecu_id'',
      ''use_session_id'', ''use_timestamp'', ''use_extended_header'', ''set_default_log_level'',
      ''set_default_trace_status'', ''get_software_version'', ''message_buffer_overflow'']"

definition return_type :: "string list" where
  "return_type = [''ok'', ''not_supported'', ''error'', ''perm_denied'', ''warning'', [], [], [], ''no_matching_context_id'']"

definition DLT_GET_MSIN_MSTP :: "byte \<Rightarrow> byte" where
  "DLT_GET_MSIN_MSTP msin = drop_bit 1 (msin AND 0x0e)"

definition DLT_GET_MSIN_MTIN :: "byte \<Rightarrow> byte" where
  "DLT_GET_MSIN_MTIN msin = drop_bit 4 (msin AND 0xf0)"

text \<open>The extended header is only read when the message has one; \<open>info\<close> is its first byte then.\<close>

definition DLT_MSG_IS_CONTROL :: "byte option \<Rightarrow> bool" where
  "DLT_MSG_IS_CONTROL info \<longleftrightarrow> (case info of None \<Rightarrow> False | Some msin \<Rightarrow> DLT_GET_MSIN_MSTP msin = 3)"

definition DLT_MSG_IS_CONTROL_RESPONSE :: "byte option \<Rightarrow> bool" where
  "DLT_MSG_IS_CONTROL_RESPONSE info \<longleftrightarrow>
     DLT_MSG_IS_CONTROL info \<and> (case info of None \<Rightarrow> False | Some msin \<Rightarrow> DLT_GET_MSIN_MTIN msin = 2)"

definition DLT_MSG_IS_CONTROL_TIME :: "byte option \<Rightarrow> bool" where
  "DLT_MSG_IS_CONTROL_TIME info \<longleftrightarrow>
     DLT_MSG_IS_CONTROL info \<and> (case info of None \<Rightarrow> False | Some msin \<Rightarrow> DLT_GET_MSIN_MTIN msin = 3)"

definition DLT_MSG_IS_NONVERBOSE :: "byte option \<Rightarrow> bool" where
  "DLT_MSG_IS_NONVERBOSE info \<longleftrightarrow> (case info of None \<Rightarrow> True | Some msin \<Rightarrow> msin AND DLT_MSIN_VERB = 0)"

text \<open>\<open>DLT_MSG_READ_VALUE\<close> without a test: what was in the variable stays when there is too little data.\<close>

definition read_unchecked :: "bytes \<Rightarrow> nat \<Rightarrow> nat \<Rightarrow> printer \<Rightarrow> (nat \<times> printer) result" where
  "read_unchecked mem n old s =
     (if pr_len s < 0 \<or> pr_len s < int n then Ok (old, s\<lparr>pr_len := -1\<rparr>)
      else bind_r (ptr_read (pr_pos s) n mem) (\<lambda>d. Ok (le_nat d, skip (int n) s)))"

definition append_pr :: "u64 \<Rightarrow> bytes \<Rightarrow> printer \<Rightarrow> printer result" where
  "append_pr textlength out s = bind_r (append_text textlength out (pr_text s)) (\<lambda>t. Ok (s\<lparr>pr_text := t\<rparr>))"

function payload_args ::
  "bytes \<Rightarrow> bool \<Rightarrow> byte \<Rightarrow> u64 \<Rightarrow> nat \<Rightarrow> nat \<Rightarrow> nat \<Rightarrow> printer \<Rightarrow> (int \<times> bytes) result" where
  "payload_args mem attrs htyp textlength num noar type_info_tmp s =
     (if num < noar then
        bind_r (if num \<noteq> 0 then append_pr textlength [32] s else Ok s) (\<lambda>s1.
        bind_r (read_unchecked mem 4 type_info_tmp s1) (\<lambda>(tmp, s2).
        bind_r (c_strlen 0 (pr_text s2)) (\<lambda>text_offset.
        bind_r (dlt_message_argument_print mem attrs htyp (DLT_ENDIAN_GET_32 htyp (of_nat tmp)) (-1) (int text_offset)
                  (textlength - of_nat text_offset) s2) (\<lambda>(ret, s3).
        if ret = DLT_RETURN_ERROR then Ok (DLT_RETURN_ERROR, pr_text s3)
        else payload_args mem attrs htyp textlength (num + 1) noar tmp s3))))
      else Ok (DLT_RETURN_OK, pr_text s))"
  by pat_completeness auto
termination
  by (relation "measure (\<lambda>(mem, attrs, htyp, textlength, num, noar, tmp, s). noar - num)") auto

declare payload_args.simps [simp del]

text \<open>
  A message without type descriptions: its identifier, for a control response the result, and the rest in
  hexadecimal form.
\<close>

definition payload_id :: "byte option \<Rightarrow> u64 \<Rightarrow> u32 \<Rightarrow> printer \<Rightarrow> printer result" where
  "payload_id info textlength ident s =
     (if DLT_MSG_IS_CONTROL info
      then bind_r (if ident > 0 \<and> ident < 0x15 then append_pr textlength (ascii (service_id_name ! unat ident)) s
                   else if \<not> DLT_MSG_IS_CONTROL_TIME info
                   then append_pr textlength (ascii ''service('' @ decimal (unat ident) @ ascii '')'') s
                   else Ok s)
             (\<lambda>s1. if pr_len s1 > 0 then append_pr textlength (ascii '', '') s1 else Ok s1)
      else append_pr textlength (decimal (unat ident) @ ascii '', '') s)"

definition payload_response :: "bytes \<Rightarrow> byte option \<Rightarrow> u64 \<Rightarrow> printer \<Rightarrow> printer result" where
  "payload_response mem info textlength s =
     (if DLT_MSG_IS_CONTROL_RESPONSE info \<and> pr_len s > 0
      then bind_r (read_unchecked mem 1 0 s) (\<lambda>(retval, s1).
        bind_r (append_pr textlength (if retval < 5 \<or> retval = 8 then ascii (return_type ! retval)
                                      else zero_pad 2 (hexadecimal retval)) s1) (\<lambda>s2.
        if pr_len s2 \<ge> 1 then append_pr textlength (ascii '', '') s2 else Ok s2))
      else Ok s)"

definition payload_nonverbose ::
  "bytes \<Rightarrow> byte \<Rightarrow> byte option \<Rightarrow> u64 \<Rightarrow> int \<Rightarrow> printer \<Rightarrow> (int \<times> bytes) result" where
  "payload_nonverbose mem htyp info textlength type s0 =
     bind_r (read_unchecked mem 4 0 s0) (\<lambda>(id_tmp, s1).
     let ident = DLT_ENDIAN_GET_32 htyp (of_nat id_tmp) in
     if textlength < ucast (of_int (pr_len s1) * 3 + 20 :: u32) then Ok (DLT_RETURN_ERROR, pr_text s1)
     else
       bind_r (payload_id info textlength ident s1) (\<lambda>s2.
       bind_r (payload_response mem info textlength s2) (\<lambda>s3.
       bind_r (c_strlen 0 (pr_text s3)) (\<lambda>n.
       let limit = DLT_COMMON_ASCII_LIMIT_MAX_CHARS;
           sz = (if type = DLT_OUTPUT_ASCII_LIMITED \<and> pr_len s3 > limit then limit else pr_len s3)
       in
       bind_r (dlt_print_hex_string (int n) (sint (ucast (textlength - of_nat n) :: u32)) mem (pr_pos s3) sz (pr_text s3))
         (\<lambda>(ret, t).
       if type = DLT_OUTPUT_ASCII_LIMITED \<and> pr_len s3 > limit
       then bind_r (c_strlen 0 t) (\<lambda>n1.
         if textlength - of_nat n1 > 4
         then bind_r (append_text textlength (ascii '' ...'') t) (\<lambda>t1. Ok (ret, t1)) else Ok (ret, t))
       else Ok (ret, t))))))"

definition dlt_message_payload ::
  "bool \<Rightarrow> dlt_message \<Rightarrow> u64 \<Rightarrow> int \<Rightarrow> bytes \<Rightarrow> (int \<times> bytes) result" where
  "dlt_message_payload attrs m textlength type text0 =
     (case databuffer m of
        None \<Rightarrow> Ok (DLT_RETURN_WRONG_PARAMETER, text0)
      | Some mem \<Rightarrow>
          if type < DLT_OUTPUT_HEX \<or> type > DLT_OUTPUT_ASCII_LIMITED then Ok (DLT_RETURN_WRONG_PARAMETER, text0)
          else if textlength \<le> 0 then Ok (DLT_RETURN_WRONG_PARAMETER, text0)
          else bind_r (ptr_write 0 [0] text0) (\<lambda>text1.
            let sz = sint (datasize m); room = sint (ucast textlength :: u32) in
            if type = DLT_OUTPUT_HEX then dlt_print_hex_string 0 room mem 0 sz text1
            else if type = DLT_OUTPUT_MIXED_FOR_PLAIN then dlt_print_mixed_string room mem 0 sz False text1
            else if type = DLT_OUTPUT_MIXED_FOR_HTML then dlt_print_mixed_string room mem 0 sz True text1
            else
              bind_r (msg_htyp m) (\<lambda>htyp.
              bind_r (if htyp AND DLT_HTYP_UEH \<noteq> 0 then bind_r (msg_msin m) (\<lambda>msin. Ok (Some msin)) else Ok None) (\<lambda>info.
              let s = \<lparr>pr_pos = 0, pr_len = sz, pr_text = text1\<rparr> in
              if DLT_MSG_IS_NONVERBOSE info then payload_nonverbose mem htyp info textlength type s
              else bind_r (msg_noar m) (\<lambda>noar. payload_args mem attrs htyp textlength 0 (unat noar) 0 s)))))"

end
