(* ===== verification/Dlt_Arguments.thy ===== *)
theory Dlt_Arguments
  imports Dlt_Record
begin

text \<open>
  Whole log messages: starting a message and writing a list of arguments, the truncation of UTF-8 text between
  characters, and the inputs for which the string function leaves its buffers.
\<close>

section \<open>A list of arguments\<close>

lemma fits_cases:
  fixes cap whole least :: nat
  obtains (whole) "whole \<le> cap" | (none) "cap < whole" "cap < least" | (part) room where "cap < whole" "cap = room + least"
  by (metis le_add_diff_inverse2 not_less)

lemma string_records:
  assumes wf: "log_wf u l" and init: "user_initialised u" and ok: "arg_ok (String_arg tx len type name var)"
  shows "records u l (dlt_user_log_write_sized_string_utils_attr tx len type name var u l)
    (record_argument (unat (user_log_buf_len u)) (is_verbose_mode u l) (String_arg tx len type name var) (log_abs l))"
proof (cases tx)
  case None
  then show ?thesis using wf by (simp add: dlt_user_log_write_sized_string_utils_attr_def records_def)
next
  case (Some t)
  let ?n = "length (log_bytes l)" and ?D = "desc_len (is_verbose_mode u l) name var"
  let ?cap = "unat (user_log_buf_len u)"
  have t: "len \<noteq> 0xffff" "unat len \<le> length t" "type = ASCII_STRING" using ok Some by auto
  show ?thesis
  proof (cases rule: fits_cases
    [where whole = "?n + (?D + 2) + unat len + 1" and cap = ?cap and least = "?n + (?D + 2) + 36"])
    case whole
    then have "length (log_bytes l) + length (sized_field (is_verbose_mode u l) (string_type type var) name var 0) +
        unat len + 1 \<le> ?cap" by simp
    note r = string_whole [OF wf init t(1,2) this]
    show ?thesis using r whole t(2,3) Some by (simp add: log_abs_def Let_def)
  next
    case none
    then have "dlt_user_log_write_sized_string_utils_attr (Some t) len type name var u l =
        Ok (DLT_RETURN_USER_BUFFER_FULL, l)"
      by (intro string_full(1) [OF wf init t(1)]) simp_all
    then show ?thesis using none wf t Some by (simp add: records_def log_abs_def Let_def length_notice)
  next
    case (part room)
    have "records u l (dlt_user_log_write_sized_string_utils_attr (Some t) len type name var u l)
      (DLT_RETURN_USER_BUFFER_FULL,
       log_bytes l @ sized_field (is_verbose_mode u l) (string_type type var) name var (room - unat (0 :: u16) + 36) @
         take (room - unat (0 :: u16)) t @ STR_TRUNCATED_MESSAGE, log_args_num l + 1)"
      by (rule string_truncated [OF wf init t(1,2)]) (use part t(3) in \<open>simp_all add: cut_by_def\<close>)
    then show ?thesis using part t Some by (simp add: log_abs_def Let_def length_notice)
  qed
qed

lemma write_argument_records:
  assumes "log_wf u l" "user_initialised u" "arg_ok a"
  shows "records u l (write_argument a u l)
    (record_argument (unat (user_log_buf_len u)) (is_verbose_mode u l) a (log_abs l))"
  using assms
  by (cases a) (simp_all add: generic_attr_records generic_formatted_records raw_internal_records string_records
    del: record_argument.simps arg_ok.simps)

primrec write_arguments :: "dlt_argument list \<Rightarrow> dlt_user \<Rightarrow> dlt_log \<Rightarrow> (int list \<times> dlt_log) result" where
  "write_arguments [] u l = Ok ([], l)"
| "write_arguments (a # as) u l =
     bind_r (write_argument a u l) (\<lambda>(code, l1).
     bind_r (write_arguments as u l1) (\<lambda>(codes, l2). Ok (code # codes, l2)))"

primrec record_arguments :: "nat \<Rightarrow> bool \<Rightarrow> dlt_argument list \<Rightarrow> bytes \<times> u32 \<Rightarrow> int list \<times> bytes \<times> u32" where
  "record_arguments cap verbose [] s = ([], s)"
| "record_arguments cap verbose (a # as) s =
     (let (code, s1) = record_argument cap verbose a s; (codes, s2) = record_arguments cap verbose as s1
      in (code # codes, s2))"

lemma write_arguments_records:
  assumes "log_wf u l" "user_initialised u" "\<forall>a\<in>set as. arg_ok a"
  shows "\<exists>codes l'. write_arguments as u l = Ok (codes, l') \<and> log_wf u l' \<and>
    record_arguments (unat (user_log_buf_len u)) (is_verbose_mode u l) as (log_abs l) = (codes, log_abs l')"
  using assms
proof (induction as arbitrary: l)
  case (Cons a as)
  let ?cap = "unat (user_log_buf_len u)"
  obtain code s where a: "record_argument ?cap (is_verbose_mode u l) a (log_abs l) = (code, s)" by (rule prod.exhaust)
  obtain l1 where l1: "write_argument a u l = Ok (code, l1)" "log_wf u l1" "log_abs l1 = s"
    "is_verbose_mode u l1 = is_verbose_mode u l"
    using write_argument_records [of u l a] Cons.prems a by (auto simp: records_def is_verbose_mode_def)
  obtain codes l2 where "write_arguments as u l1 = Ok (codes, l2)" "log_wf u l2"
    "record_arguments ?cap (is_verbose_mode u l1) as (log_abs l1) = (codes, log_abs l2)"
    using Cons.IH [of l1] l1 Cons.prems by auto
  with l1 a show ?case by simp
qed simp

lemma start_init_result:
  assumes "dlt_user_log_write_start_init init c loglevel verbose u l = (DLT_RETURN_TRUE, u1, l1)"
  shows "log_buffer l1 = None \<and> log_size l1 = 0 \<and> log_args_num l1 = 0 \<and> log_verbose_mode l1 = verbose"
  using assms
  by (auto simp: dlt_user_log_write_start_init_def dlt_user_log_init_def Let_def dlt_log_return_defs
    split: if_splits prod.splits)

lemma start_wf:
  assumes "dlt_user_log_write_start_internal init alloc handle loglevel messageid verbose u l = Ok (DLT_RETURN_TRUE, u1, l1)"
  shows "log_wf u1 l1 \<and> is_verbose_mode u1 l1 = (user_verbose_mode u1 = 1 \<or> verbose) \<and>
    log_abs l1 = (if user_verbose_mode u1 = 1 \<or> verbose then [] else le32 messageid, 0)"
proof (cases handle)
  case None
  with assms show ?thesis by (simp add: dlt_user_log_write_start_internal_def dlt_log_return_defs)
next
  case (Some c)
  obtain ret u0 l0 where init: "dlt_user_log_write_start_init init c loglevel verbose u l = (ret, u0, l0)"
    by (rule prod_cases3)
  have ret: "ret = DLT_RETURN_TRUE"
    using assms Some init
    by (auto simp: dlt_user_log_write_start_internal_def Let_def dlt_log_return_defs split: if_splits)
  note start = start_init_result [OF init [unfolded ret]]
  have "u1 = u0 \<and> bind_r (if is_verbose_mode u0 l0 then Ok (replicate (unat (user_log_buf_len u0)) 0, 0)
        else if 4 > unat (user_log_buf_len u0) then Refused
        else bind_r (ptr_write 0 (le32 messageid) (replicate (unat (user_log_buf_len u0)) 0)) (\<lambda>b. Ok (b, 4)))
      (\<lambda>(b, n). Ok (l0\<lparr>log_buffer := Some b, log_size := n\<rparr>)) = Ok l1"
    using assms Some init ret start
    by (auto simp: dlt_user_log_write_start_internal_def Let_def dlt_log_return_defs bind_r_Ok_iff is_verbose_mode_def
      split: if_splits)
  then show ?thesis
    using start by (auto simp: is_verbose_mode_def log_wf_def log_abs_def log_bytes_def ptr_write_def split: if_splits)
qed

section \<open>UTF-8 text\<close>

text \<open>Characters of one to four bytes, by the pattern of their bits.\<close>

definition utf8_tail :: "byte \<Rightarrow> bool" where
  "utf8_tail b \<longleftrightarrow> b AND 0xc0 = 0x80"

definition utf8_char :: "bytes \<Rightarrow> bool" where
  "utf8_char c \<longleftrightarrow>
     (case c of
        [a] \<Rightarrow> a AND 0x80 = 0
      | [a, b] \<Rightarrow> a AND 0xe0 = 0xc0 \<and> utf8_tail b
      | [a, b, c] \<Rightarrow> a AND 0xf0 = 0xe0 \<and> utf8_tail b \<and> utf8_tail c
      | [a, b, c, d] \<Rightarrow> a AND 0xf8 = 0xf0 \<and> utf8_tail b \<and> utf8_tail c \<and> utf8_tail d
      | _ \<Rightarrow> False)"

lemma utf8_char_cases:
  assumes "utf8_char c"
  obtains (one) a where "c = [a]" "a AND 0x80 = 0"
    | (two) a b where "c = [a, b]" "a AND 0xe0 = 0xc0" "utf8_tail b"
    | (three) a b d where "c = [a, b, d]" "a AND 0xf0 = 0xe0" "utf8_tail b" "utf8_tail d"
    | (four) a b d e where "c = [a, b, d, e]" "a AND 0xf8 = 0xf0" "utf8_tail b" "utf8_tail d" "utf8_tail e"
  using assms by (auto simp: utf8_char_def split: list.splits)

lemma and_mask: "(b :: byte) AND m = v \<Longrightarrow> b AND (m AND k) = v AND k"
  by (simp add: and.assoc [symmetric])

lemma utf8_tail_bits:
  assumes "utf8_tail b"
  shows "b AND 0x80 \<noteq> 0" "b AND 0x40 = 0" "b AND 0xe0 \<noteq> 0xe0" "b AND 0xf0 \<noteq> 0xf0"
proof -
  have b: "b AND 0xc0 = 0x80" using assms by (simp add: utf8_tail_def)
  show "b AND 0x80 \<noteq> 0" "b AND 0x40 = 0" using and_mask [OF b, of "0x80"] and_mask [OF b, of "0x40"] by simp_all
  show "b AND 0xe0 \<noteq> 0xe0" "b AND 0xf0 \<noteq> 0xf0"
    using and_mask [of b "0xe0" "0xe0" "0xc0"] and_mask [of b "0xf0" "0xf0" "0xc0"] b by auto
qed

lemma utf8_lead_bits:
  "a AND 0xe0 = 0xc0 \<Longrightarrow> a AND 0x80 \<noteq> 0 \<and> a AND 0x40 \<noteq> 0 \<and> a AND 0xe0 \<noteq> (0xe0 :: byte)"
  "a AND 0xf0 = 0xe0 \<Longrightarrow> a AND 0x80 \<noteq> 0 \<and> a AND 0x40 \<noteq> 0 \<and> a AND 0xe0 = (0xe0 :: byte) \<and> a AND 0xf0 \<noteq> 0xf0"
  "a AND 0xf8 = 0xf0 \<Longrightarrow> a AND 0x80 \<noteq> 0 \<and> a AND 0x40 \<noteq> 0 \<and> a AND 0xe0 = (0xe0 :: byte) \<and> a AND 0xf0 = 0xf0"
  using and_mask [of a "0xe0" "0xc0" "0x80"] and_mask [of a "0xe0" "0xc0" "0x40"] and_mask [of a "0xf0" "0xe0" "0x80"]
    and_mask [of a "0xf0" "0xe0" "0x40"] and_mask [of a "0xf0" "0xe0" "0xe0"] and_mask [of a "0xf8" "0xf0" "0x80"]
    and_mask [of a "0xf8" "0xf0" "0x40"] and_mask [of a "0xf8" "0xf0" "0xe0"] and_mask [of a "0xf8" "0xf0" "0xf0"]
  by auto

lemma ascii_bits: "a AND 0x80 = 0 \<Longrightarrow> a AND 0xf0 \<noteq> (0xf0 :: byte)"
  using and_mask [of a "0xf0" "0xf0" "0x80"] by auto

lemma last_utf8:
  assumes "utf8_char c"
  shows "c \<noteq> []" "last c AND 0xf0 \<noteq> 0xf0"
  using assms by (cases rule: utf8_char_cases; simp add: utf8_tail_bits ascii_bits)+

lemma last_utf8_text:
  assumes "\<forall>c\<in>set cs. utf8_char c" "concat cs = w @ [x]"
  shows "x AND 0xf0 \<noteq> 0xf0"
proof (cases cs rule: rev_cases)
  case (snoc ds d)
  then have "last d = x" using assms last_utf8(1) [of d] by (metis concat_append concat.simps append_Nil2
    in_set_conv_decomp last_append last_snoc list.simps(15) insertI1 append.right_neutral)
  then show ?thesis using assms snoc last_utf8(2) [of d] by simp
qed (use assms in simp)

definition utf8_pending :: "byte \<Rightarrow> byte \<Rightarrow> byte \<Rightarrow> nat" where
  "utf8_pending t0 t1 t2 =
     (if t2 AND 0x80 = 0 then 0 else if t2 AND 0x40 \<noteq> 0 then 1 else if t1 AND 0xe0 = 0xe0 then 2
      else if t0 AND 0xf0 = 0xf0 then 3 else 0)"

lemma utf8_reduce_size_pending:
  assumes "take room tx = w @ [t0, t1, t2]" "room \<le> length tx"
  shows "utf8_reduce_size tx (int room) = Ok (of_nat (utf8_pending t0 t1 t2))"
proof -
  obtain v where v: "tx = (w @ [t0, t1, t2]) @ v" using assms(1) by (metis append_take_drop_id)
  have "room = length w + 3" using assms by (metis length_append length_take list.size(3,4) min_absorb2
    numeral_3_eq_3 One_nat_def add_Suc_right add.right_neutral)
  then show ?thesis
    by (simp add: utf8_reduce_size_def utf8_pending_def ptr_read_def v nat_add_distrib)
qed

lemma pending_complete:
  assumes "\<forall>c\<in>set cs. utf8_char c" "concat cs = w @ [t0, t1, t2]"
  shows "utf8_pending t0 t1 t2 = 0"
proof (cases cs rule: rev_cases)
  case (snoc ds d)
  then have "utf8_char d" and ds: "\<forall>c\<in>set ds. utf8_char c" "concat ds @ d = w @ [t0, t1, t2]" using assms by auto
  from this(1) show ?thesis
  proof (cases rule: utf8_char_cases)
    case (one a)
    then show ?thesis using ds by (simp add: utf8_pending_def)
  next
    case (two a b)
    then have "concat ds = w @ [t0]" "a = t1" "b = t2" using ds by auto
    then show ?thesis
      using two last_utf8_text [OF ds(1)] by (simp add: utf8_pending_def utf8_lead_bits(1) utf8_tail_bits)
  next
    case (three a b c)
    then have "a = t0" "b = t1" "c = t2" using ds by auto
    then show ?thesis using three by (simp add: utf8_pending_def utf8_lead_bits(2) utf8_tail_bits)
  next
    case (four a b c e)
    then have "b = t0" "c = t1" "e = t2" using ds by auto
    then show ?thesis using four by (simp add: utf8_pending_def utf8_tail_bits)
  qed
qed (use assms in simp)

lemma pending_partial:
  assumes "utf8_char c" "0 < p" "p < length c" "v @ take p c = w @ [t0, t1, t2]"
  shows "utf8_pending t0 t1 t2 = p"
  using assms(1)
proof (cases rule: utf8_char_cases)
  case (two a b)
  then have "p = 1" using assms by simp
  then show ?thesis using two assms(4) by (simp add: utf8_pending_def utf8_lead_bits(1))
next
  case (three a b c)
  then consider "p = 1" | "p = 2" using assms by fastforce
  then show ?thesis
    using three assms(4) by cases (auto simp: utf8_pending_def utf8_lead_bits(2) utf8_tail_bits)
next
  case (four a b c e)
  then consider "p = 1" | "p = 2" | "p = 3" using assms by fastforce
  then show ?thesis
    using four assms(4) by cases (auto simp: utf8_pending_def utf8_lead_bits(3) utf8_tail_bits numeral_3_eq_3)
qed (use assms in simp)

lemma cut_point:
  "room < length (concat cs) \<Longrightarrow>
   \<exists>i p. i < length cs \<and> p < length (cs ! i) \<and> room = length (concat (take i cs)) + p \<and>
     take room (concat cs) = concat (take i cs) @ take p (cs ! i)"
proof (induction cs arbitrary: room)
  case (Cons c cs)
  show ?case
  proof (cases "room < length c")
    case True
    then show ?thesis by (intro exI [of _ 0] exI [of _ room]) simp
  next
    case False
    then obtain k where k: "room = length c + k" by (metis le_Suc_ex not_less)
    with Cons.prems Cons.IH [of k] obtain i p where "i < length cs" "p < length (cs ! i)"
      "k = length (concat (take i cs)) + p" "take k (concat cs) = concat (take i cs) @ take p (cs ! i)"
      by auto
    then show ?thesis using k by (intro exI [of _ "Suc i"] exI [of _ p]) simp
  qed
qed simp

lemma last_three:
  assumes "3 \<le> length xs" shows "\<exists>w a b c. xs = w @ [a, b, c]"
proof -
  obtain ys where ys: "length ys = 3" "xs = take (length xs - 3) xs @ ys"
    using assms by (metis append_take_drop_id diff_diff_cancel length_drop)
  then obtain a b c where "ys = [a, b, c]" by (auto simp: numeral_3_eq_3 length_Suc_conv)
  with ys show ?thesis by metis
qed

lemma utf8_cut:
  assumes chars: "\<forall>c\<in>set cs. utf8_char c" and room: "3 \<le> room" "room < length (concat cs)"
  shows "\<exists>i p. utf8_reduce_size (concat cs @ rest) (int room) = Ok (of_nat p) \<and> p < 4 \<and>
    i < length cs \<and> room = length (concat (take i cs)) + p \<and> p < length (cs ! i)"
proof -
  obtain i p where i: "i < length cs" "p < length (cs ! i)" "room = length (concat (take i cs)) + p"
    "take room (concat cs) = concat (take i cs) @ take p (cs ! i)"
    using cut_point [OF room(2)] by blast
  have c: "utf8_char (cs ! i)" "\<forall>c\<in>set (take i cs). utf8_char c" using chars i(1) by (auto dest: in_set_takeD)
  obtain w t0 t1 t2 where t: "take room (concat cs) = w @ [t0, t1, t2]"
    using last_three [of "take room (concat cs)"] room by auto
  have "utf8_pending t0 t1 t2 = p"
  proof (cases "p = 0")
    case True
    then show ?thesis using pending_complete [OF c(2)] t i(4) by simp
  next
    case False
    then show ?thesis using pending_partial [OF c(1) _ i(2)] t i(4) by auto
  qed
  moreover have "length (cs ! i) \<le> 4" using c(1) by (cases rule: utf8_char_cases) auto
  ultimately show ?thesis
    using utf8_reduce_size_pending [of room "concat cs @ rest" w t0 t1 t2] t room i
    by (intro exI [of _ i] exI [of _ p]) auto
qed

section \<open>Properties\<close>

text \<open>
  [C7] Recording arguments. After a message has been started, writing any list of arguments (raw data, numbers
  with or without name and unit, formatted numbers, ASCII strings shorter than 65535 bytes) has no undefined
  behaviour and never leaves the buffer. The return values, the bytes of the message and its number of
  arguments are those of the specification \<open>record_arguments\<close>: an argument that fits is appended as the
  protocol prescribes, a string that does not is cut and marked, everything else is left out as a whole.
\<close>
theorem dlt_message_recorded:
  assumes "dlt_user_log_write_start_internal init alloc handle loglevel messageid verbose u l = Ok (DLT_RETURN_TRUE, u1, l1)"
    and "user_initialised u1" and "\<forall>a\<in>set as. arg_ok a"
  shows "\<exists>codes l2. write_arguments as u1 l1 = Ok (codes, l2) \<and> log_wf u1 l2 \<and>
    (codes, log_abs l2) = record_arguments (unat (user_log_buf_len u1)) (user_verbose_mode u1 = 1 \<or> verbose) as
      (if user_verbose_mode u1 = 1 \<or> verbose then [] else le32 messageid, 0)"
  using write_arguments_records [of u1 l1 as] start_wf [OF assms(1)] assms(2,3) by auto

theorem dlt_message_recorded_witness:
  "\<exists>codes l2. write_arguments [Value_arg [5] 0x41 None, Value_arg [1] 0x11 None]
      \<lparr>user_initialised = True, user_is_child = False, user_has_contexts = True, user_verbose_mode = 1, user_log_buf_len = 8\<rparr>
      \<lparr>log_handle = Some \<lparr>ctx_log_level = Some 4\<rparr>, log_buffer = Some (replicate 8 0), log_size = 0, log_level = 4, log_args_num = 0, log_auto_timestamp = True, log_verbose_mode = True\<rparr>
    = Ok (codes, l2) \<and> codes = [0, -6] \<and> log_abs l2 = ([0x41, 0, 0, 0, 5], 1)"
proof -
  let ?u = "\<lparr>user_initialised = True, user_is_child = False, user_has_contexts = True, user_verbose_mode = 1, user_log_buf_len = 8\<rparr>"
  let ?l = "\<lparr>log_handle = None, log_buffer = Some (replicate 1 0), log_size = 0, log_level = 4, log_args_num = 0, log_auto_timestamp = True, log_verbose_mode = False\<rparr>"
  have start: "dlt_user_log_write_start_internal (\<lambda>u. (0, u)) True (Some \<lparr>ctx_log_level = Some 4\<rparr>) 4 0 True ?u ?l =
      Ok (DLT_RETURN_TRUE, ?u, \<lparr>log_handle = Some \<lparr>ctx_log_level = Some 4\<rparr>, log_buffer = Some (replicate 8 0), log_size = 0, log_level = 4, log_args_num = 0, log_auto_timestamp = True, log_verbose_mode = True\<rparr>)"
    by (simp add: dlt_user_log_write_start_internal_def dlt_user_is_logLevel_enabled_def
      dlt_user_log_write_start_init_def dlt_user_log_init_def dlt_log_return_defs is_verbose_mode_def)
  show ?thesis
    using dlt_message_recorded [OF start, of "[Value_arg [5] 0x41 None, Value_arg [1] 0x11 None]"]
    by (auto simp: record_whole_def le32_def dlt_log_return_defs LONG_BYTE0_def LONG_BYTE1_def LONG_BYTE2_def
      LONG_BYTE3_def)
qed


text \<open>
  [C13] Truncation of UTF-8 text. When a UTF-8 string does not fit and there is room for at least three of its
  bytes, the part that is recorded consists of whole characters, and of as many of them as fit before the
  truncation notice.
\<close>
theorem dlt_utf8_truncation:
  fixes u :: dlt_user and l :: dlt_log and name :: cstr and var :: bool
  defines "field \<equiv> sized_field (is_verbose_mode u l) (string_type UTF8_STRING var) name var"
  assumes wf: "log_wf u l" and init: "user_initialised u"
    and chars: "\<forall>c\<in>set cs. utf8_char c" and len: "unat len = length (concat cs)" "len \<noteq> 0xffff"
    and full: "unat (user_log_buf_len u) < length (log_bytes l) + length (field 0) + unat len + 1"
    and room: "unat (user_log_buf_len u) = room + (length (log_bytes l) + length (field 0) + 36)" "3 \<le> room"
  shows "\<exists>i < length cs. records u l
      (dlt_user_log_write_sized_string_utils_attr (Some (concat cs @ rest)) len UTF8_STRING name var u l)
      (DLT_RETURN_USER_BUFFER_FULL,
       log_bytes l @ field (length (concat (take i cs)) + 36) @ concat (take i cs) @ STR_TRUNCATED_MESSAGE,
       log_args_num l + 1) \<and>
    length (concat (take i cs)) \<le> room \<and> room < length (concat (take (Suc i) cs))"
proof -
  obtain i p where i: "utf8_reduce_size (concat cs @ rest) (int room) = Ok (of_nat p)" "p < 4"
    "i < length cs" "room = length (concat (take i cs)) + p" "p < length (cs ! i)"
    using utf8_cut [OF chars room(2), of rest] full room len by auto
  have p: "unat (of_nat p :: u16) = p" using i(2) by (simp add: unat_u16)
  let ?k = "length (concat (take i cs))"
  have "concat cs = concat (take i cs) @ concat (drop i cs)"
    by (metis append_take_drop_id concat_append)
  then have "take ?k (concat cs @ rest) = concat (take i cs)" by simp
  moreover have "records u l
      (dlt_user_log_write_sized_string_utils_attr (Some (concat cs @ rest)) len UTF8_STRING name var u l)
      (DLT_RETURN_USER_BUFFER_FULL, log_bytes l @ field (room - unat (of_nat p :: u16) + 36) @
        take (room - unat (of_nat p :: u16)) (concat cs @ rest) @ STR_TRUNCATED_MESSAGE, log_args_num l + 1)"
    unfolding field_def
    by (rule string_truncated [OF wf init len(2)])
      (use len full room i p in \<open>simp_all add: field_def cut_by_def\<close>)
  ultimately show ?thesis
    using i p by (intro exI [of _ i]) (simp add: take_Suc_conv_app_nth)
qed

theorem dlt_utf8_truncation_witness:
  "\<exists>i < 20. records
      \<lparr>user_initialised = True, user_is_child = False, user_has_contexts = True, user_verbose_mode = 0, user_log_buf_len = 41\<rparr>
      \<lparr>log_handle = None, log_buffer = Some (replicate 41 0), log_size = 0, log_level = 4, log_args_num = 0, log_auto_timestamp = True, log_verbose_mode = False\<rparr>
      (dlt_user_log_write_sized_string_utils_attr (Some (concat (replicate 20 [0xc3, 0xa4]) @ [0])) 40 UTF8_STRING None False
        \<lparr>user_initialised = True, user_is_child = False, user_has_contexts = True, user_verbose_mode = 0, user_log_buf_len = 41\<rparr>
        \<lparr>log_handle = None, log_buffer = Some (replicate 41 0), log_size = 0, log_level = 4, log_args_num = 0, log_auto_timestamp = True, log_verbose_mode = False\<rparr>)
      (DLT_RETURN_USER_BUFFER_FULL,
       le16 (of_nat (length (concat (take i (replicate 20 [0xc3, 0xa4 :: byte]))) + 36)) @
         concat (take i (replicate 20 [0xc3, 0xa4])) @ STR_TRUNCATED_MESSAGE, 1)"
  using dlt_utf8_truncation [where
      u = "\<lparr>user_initialised = True, user_is_child = False, user_has_contexts = True, user_verbose_mode = 0, user_log_buf_len = 41\<rparr>" and
      l = "\<lparr>log_handle = None, log_buffer = Some (replicate 41 0), log_size = 0, log_level = 4, log_args_num = 0, log_auto_timestamp = True, log_verbose_mode = False\<rparr>" and
      cs = "replicate 20 [0xc3, 0xa4]" and len = 40 and name = None and var = False and room = 3 and rest = "[0]"]
  by (auto simp: log_wf_def log_bytes_def utf8_char_def utf8_tail_def desc_len_def is_verbose_mode_def sized_field_def
    length_concat sum_list_replicate)


text \<open>
  [C34] A string of length 65535 overruns the buffer. The size of the argument, the length plus one, wraps to
  zero in sixteen bits; the string then seems to fit whenever its description does, and 65536 bytes are written
  into a buffer of at most 65535. A text given without a length is affected when its length is 65535 modulo 65536.
\<close>
theorem dlt_string_overrun:
  assumes wf: "log_wf u l" and init: "user_initialised u" and "65535 \<le> length t"
    and room: "length (log_bytes l) + 2 + desc_len (is_verbose_mode u l) name var \<le> unat (user_log_buf_len u)"
  shows "dlt_user_log_write_sized_string_utils_attr (Some t) 0xffff type name var u l = Undefined"
proof -
  let ?D = "desc_len (is_verbose_mode u l) name var"
  let ?desc = "string_description (is_verbose_mode u l) type name var (0xffff + 1)"
  have "(scast (log_size l) + ucast (0xffff + 1 :: u16) + 2 + of_nat ?D :: u64) = of_nat (length (log_bytes l) + 2 + ?D)"
    unfolding scast_log_size [OF wf] by simp
  moreover have "length (log_bytes l) + 2 + ?D < 2 ^ 64"
    using room buf_len_less [of u] by simp
  ultimately have fits: "\<not> ucast (user_log_buf_len u) < (scast (log_size l) + ucast (0xffff + 1 :: u16) + 2 + of_nat ?D :: u64)"
    using room by (simp only: buf_len_u64 not_less)
  have "concat ?desc = sized_field (is_verbose_mode u l) (string_type type var) name var 0"
  proof -
    have "(0xffff + 1 :: u16) = of_nat 0" by (simp add: word_unat_eq_iff)
    then show ?thesis by (simp only: concat_string_description)
  qed
  then obtain l1 where l1: "log_puts ?desc l = Ok l1" "log_wf u l1"
    using log_puts_ext [OF wf, of ?desc] room by (auto simp: log_ext_def)
  obtain b where b: "log_buffer l1 = Some b" "length b = unat (user_log_buf_len u)"
    "sint (log_size l1) = int (unat (log_size l1))"
    using l1(2) by (rule log_wf_obtain)
  have "length b < unat (log_size l1) + 65535 \<or> length b < Suc (unat (log_size l1) + 65535)"
    using b(2) buf_len_less [of u] by simp
  then show ?thesis
    using init assms(3) l1(1) b fits
    unfolding dlt_user_log_write_sized_string_utils_attr_def option.case Let_def desc_len_word
    by (auto simp: ptr_read_def ptr_write_def nat_add_distrib)
qed

theorem dlt_string_overrun_witness:
  "dlt_user_log_write_sized_string_utils_attr (Some (replicate 65535 65)) 0xffff ASCII_STRING None False
      \<lparr>user_initialised = True, user_is_child = False, user_has_contexts = True, user_verbose_mode = 1, user_log_buf_len = 64\<rparr>
      \<lparr>log_handle = None, log_buffer = Some (replicate 64 0), log_size = 0, log_level = 4, log_args_num = 0, log_auto_timestamp = True, log_verbose_mode = True\<rparr>
    = Undefined"
  by (rule dlt_string_overrun) (simp_all add: log_wf_def log_bytes_def desc_len_def)


text \<open>
  [C36] A UTF-8 string is read before its beginning. When the rest of the buffer is just large enough for the
  description and the truncation notice, the search for an incomplete character looks at the byte before
  the text.
\<close>
theorem dlt_utf8_before_text:
  assumes wf: "log_wf u l" and init: "user_initialised u" and len: "len \<noteq> 0xffff" "36 \<le> unat len"
    and room: "unat (user_log_buf_len u) = length (log_bytes l) + 38 + desc_len (is_verbose_mode u l) name var"
  shows "dlt_user_log_write_sized_string_utils_attr (Some t) len UTF8_STRING name var u l = Undefined"
  using string_full(2) [OF wf init len(1), of name var 0 t UTF8_STRING] len(2) room
  by (simp add: cut_by_def utf8_reduce_size_def ptr_read_def)

theorem dlt_utf8_before_text_witness:
  "dlt_user_log_write_sized_string_utils_attr (Some (replicate 36 65)) 36 UTF8_STRING None False
      \<lparr>user_initialised = True, user_is_child = False, user_has_contexts = True, user_verbose_mode = 0, user_log_buf_len = 38\<rparr>
      \<lparr>log_handle = None, log_buffer = Some (replicate 38 0), log_size = 0, log_level = 4, log_args_num = 0, log_auto_timestamp = True, log_verbose_mode = False\<rparr>
    = Undefined"
  by (rule dlt_utf8_before_text) (simp_all add: log_wf_def log_bytes_def desc_len_def is_verbose_mode_def)


end
