(* ===== verification/Dlt_Values.thy ===== *)
theory Dlt_Values
  imports Dlt_Print Dlt_Arguments
begin

text \<open>
  Values of the types an application can log: how they are written by the functions of \<open>dlt_user.c\<close>, and that
  the printer of \<open>dlt_common.c\<close> turns what was written into their text.
\<close>

section \<open>Text in an area\<close>

text \<open>The area starts with the string and its zero byte.\<close>

definition holds_text :: "bytes \<Rightarrow> bytes \<Rightarrow> bool" where
  "holds_text t str \<longleftrightarrow> 0 \<notin> set str \<and> (\<exists>junk. t = str @ 0 # junk)"

lemma holds_text_strlen: "holds_text t str \<Longrightarrow> c_string 0 t = Ok str" "holds_text t str \<Longrightarrow> c_strlen 0 t = Ok (length str)"
  by (auto simp: holds_text_def c_string_def c_strlen_def takeWhile_append)

lemma holds_text_length: "holds_text t str \<Longrightarrow> length str < length t"
  by (auto simp: holds_text_def)

lemma ptr_write_text:
  assumes "holds_text t str" "0 \<notin> set out" "length str + length out < length t" "off = int (length str)"
  shows "\<exists>t'. ptr_write off (out @ [0]) t = Ok t' \<and> holds_text t' (str @ out) \<and> length t' = length t"
proof -
  obtain junk where t: "t = str @ 0 # junk" "0 \<notin> set str" using assms(1) by (auto simp: holds_text_def)
  have "ptr_write off (out @ [0]) t = Ok ((str @ out) @ 0 # drop (length str + length out + 1) t)"
    using assms t by (simp add: ptr_write_def)
  then show ?thesis using assms t by (auto simp: holds_text_def)
qed

lemma snprintf_text:
  assumes "holds_text t str" "0 \<notin> set out" "length out < n" "length str + length out < length t" "off = int (length str)"
  shows "\<exists>t'. c_snprintf off n out t = Ok t' \<and> holds_text t' (str @ out) \<and> length t' = length t"
  using ptr_write_text [OF assms(1,2,4,5)] assms(3) by (simp add: c_snprintf_def)

lemma unat_minus_nat: "n \<le> unat (w :: 'a :: len word) \<Longrightarrow> unat (w - of_nat n) = unat w - n"
proof -
  assume n: "n \<le> unat w"
  then have "n < 2 ^ LENGTH('a)" using unsigned_less [of w, where 'a = nat] by (metis order.strict_trans1)
  then have "unat (of_nat n :: 'a word) = n" by (simp add: unat_of_nat take_bit_nat_eq_self)
  then show ?thesis using n by (simp add: unat_sub word_le_nat_alt)
qed

lemma append_text_holds:
  assumes "holds_text t str" "0 \<notin> set out" "length str + length out < unat textlength" "unat textlength \<le> length t"
  shows "\<exists>t'. append_text textlength out t = Ok t' \<and> holds_text t' (str @ out) \<and> length t' = length t"
  using snprintf_text [OF assms(1,2), of "unat (textlength - of_nat (length str))" "int (length str)"] assms
  by (simp add: append_text_def holds_text_strlen unat_minus_nat)

section \<open>Digits\<close>

lemma decimal_nonzero: "0 \<notin> set (decimal n)"
proof (induction n rule: decimal.induct)
  case (1 n)
  have "48 + of_nat k \<noteq> (0 :: byte)" if "k < 10" for k :: nat
  proof -
    have "unat (48 + of_nat k :: byte) = 48 + k" using that by (simp add: unat_word_ariths unat_of_nat)
    then show ?thesis by (metis add_eq_0_iff_both_eq_0 unsigned_0 zero_neq_numeral)
  qed
  with 1 show ?case by (subst decimal.simps) auto
qed

lemma decimal_int_nonzero: "0 \<notin> set (decimal_int i)"
  by (simp add: decimal_int_def decimal_nonzero)

lemma hex_digit_nonzero: "n < 16 \<Longrightarrow> hex_digit n \<noteq> 0"
proof -
  assume "n < 16"
  then have "n \<in> set [0..<16]" by simp
  then show ?thesis by (auto simp: hex_digit_def upt_rec)
qed

lemma hexadecimal_nonzero: "0 \<notin> set (hexadecimal n)"
proof (induction n rule: hexadecimal.induct)
  case (1 n)
  have "hex_digit (n mod 16) \<noteq> 0" by (rule hex_digit_nonzero) simp
  moreover have "n < 16 \<Longrightarrow> hex_digit n \<noteq> 0" by (rule hex_digit_nonzero)
  ultimately show ?case using 1 by (subst hexadecimal.simps) auto
qed

lemma zero_pad_nonzero: "0 \<notin> set s \<Longrightarrow> 0 \<notin> set (zero_pad k s)"
  by (auto simp: zero_pad_def)

lemma length_hexadecimal: "n < 16 ^ k \<Longrightarrow> 0 < k \<Longrightarrow> length (hexadecimal n) \<le> k"
proof (induction k arbitrary: n)
  case (Suc k)
  show ?case
  proof (cases "n < 16")
    case True
    then show ?thesis by (subst hexadecimal.simps) simp
  next
    case False
    then have "0 < k" using Suc.prems by (cases k) auto
    moreover have "n div 16 < 16 ^ k" using Suc.prems(1) by (simp add: less_mult_imp_div_less mult.commute)
    ultimately show ?thesis using Suc.IH [of "n div 16"] False by (subst hexadecimal.simps) simp
  qed
qed simp

lemma length_zero_pad: "length s \<le> k \<Longrightarrow> length (zero_pad k s) = k"
  by (simp add: zero_pad_def)

lemma length_hex_byte: "length (zero_pad 2 (hexadecimal (unat (b :: byte)))) = 2"
  using length_hexadecimal [of "unat b" 2] unat_byte_less [of b] by (simp add: length_zero_pad)

section \<open>Numbers in memory\<close>

lemma le_nat_Cons [simp]: "le_nat [] = 0" "le_nat (b # bs) = unat b + 256 * le_nat bs"
  by (simp_all add: le_nat_def)

lemma le_nat_less: "le_nat bs < 256 ^ length bs"
proof (induction bs)
  case (Cons b bs)
  have "unat b < 256" by (rule unat_byte_less)
  with Cons show ?case by simp
qed simp

lemma unat_byte_of: "unat (ucast (x :: 'a :: len word) :: byte) = unat x mod 256"
  by (simp add: unsigned_ucast_eq take_bit_eq_mod)

lemma unat_drop_bit: "unat (drop_bit n (x :: 'a :: len word)) = unat x div 2 ^ n"
proof -
  have "unat (drop_bit n x) = drop_bit n (take_bit LENGTH('a) (unat x))" by (rule unsigned_drop_bit_eq)
  then show ?thesis using unsigned_less [of x, where 'a = nat] by (simp only: take_bit_nat_eq_self drop_bit_eq_div)
qed

lemma and_FF: "unat (x AND 0xFF :: u32) = unat x mod 256" "unat (y AND 0xFF :: u16) = unat y mod 256"
proof -
  have "x AND 0xFF = take_bit 8 x" "y AND 0xFF = take_bit 8 y"
    by (simp_all add: take_bit_eq_mask mask_eq_exp_minus_1)
  moreover have "unat (take_bit 8 x) = unat x mod 2 ^ 8" "unat (take_bit 8 y) = unat y mod 2 ^ 8"
    unfolding unsigned_take_bit_eq by (rule take_bit_eq_mod)+
  ultimately show "unat (x AND 0xFF :: u32) = unat x mod 256" "unat (y AND 0xFF :: u16) = unat y mod 256"
    by simp_all
qed

lemma le_nat_le16 [simp]: "le_nat (le16 x) = unat x"
  using unat_u16_less [of x]
  by (simp add: le16_def WORD_BYTE0_def WORD_BYTE1_def unat_byte_of and_FF unat_drop_bit del: drop_bit_eq_div)

lemma le_nat_le32 [simp]: "le_nat (le32 x) = unat x"
proof -
  have "unat x div 16777216 < 256" using unat_u32_less [of x] by simp
  then have "le_nat (le32 x) = unat x mod 256 + 256 * (unat x div 256 mod 256 + 256 * (unat x div 65536 mod 256 + 256 * (unat x div 16777216)))"
    unfolding le32_def LONG_BYTE0_def LONG_BYTE1_def LONG_BYTE2_def LONG_BYTE3_def
    by (simp add: unat_byte_of and_FF unat_drop_bit)
  also have "unat x div 65536 mod 256 + 256 * (unat x div 16777216) = unat x div 65536"
    using mod_mult_div_eq [of "unat x div 65536" 256] by (simp add: div_mult2_eq [symmetric])
  also have "unat x div 256 mod 256 + 256 * (unat x div 65536) = unat x div 256"
    using mod_mult_div_eq [of "unat x div 256" 256] by (simp add: div_mult2_eq [symmetric])
  finally show ?thesis by simp
qed


lemma le_nat_append: "le_nat (bs @ cs) = le_nat bs + 256 ^ length bs * le_nat cs"
  by (induction bs) (simp_all add: algebra_simps)

lemma le_nat_le64 [simp]: "le_nat (le64 x) = unat x"
proof -
  have "unat (ucast x :: u32) = unat x mod 2 ^ 32" "unat (ucast (drop_bit 32 x) :: u32) = unat x div 2 ^ 32"
    using unsigned_less [of x, where 'a = nat]
    by (simp_all only: unsigned_ucast_eq take_bit_eq_mod unat_drop_bit) simp_all
  then show ?thesis by (simp add: le64_def le_nat_append)
qed

section \<open>Values\<close>

text \<open>What an application logs, and the functions it calls for it. A float is given by its representation.\<close>

datatype log_value =
    V_bool byte
  | V_uint8 byte | V_uint16 u16 | V_uint32 u32 | V_uint64 u64
  | V_int8 byte | V_int16 u16 | V_int32 u32 | V_int64 u64
  | V_float32 u32 | V_float64 u64
  | V_ptr u64
  | V_string bytes | V_utf8 bytes
  | V_raw bytes

fun write_value :: "log_value \<Rightarrow> dlt_user \<Rightarrow> dlt_log \<Rightarrow> (int \<times> dlt_log) result" where
  "write_value (V_bool x) = dlt_user_log_write_bool x"
| "write_value (V_uint8 x) = dlt_user_log_write_uint8 x"
| "write_value (V_uint16 x) = dlt_user_log_write_uint16 x"
| "write_value (V_uint32 x) = dlt_user_log_write_uint32 x"
| "write_value (V_uint64 x) = dlt_user_log_write_uint64 x"
| "write_value (V_int8 x) = dlt_user_log_write_int8 x"
| "write_value (V_int16 x) = dlt_user_log_write_int16 x"
| "write_value (V_int32 x) = dlt_user_log_write_int32 x"
| "write_value (V_int64 x) = dlt_user_log_write_int64 x"
| "write_value (V_float32 x) = dlt_user_log_write_float32 x"
| "write_value (V_float64 x) = dlt_user_log_write_float64 x"
| "write_value (V_ptr x) = dlt_user_log_write_ptr x"
| "write_value (V_string s) = dlt_user_log_write_string (Some s)"
| "write_value (V_utf8 s) = dlt_user_log_write_utf8_string (Some s)"
| "write_value (V_raw d) = dlt_user_log_write_raw (Some d) (of_nat (length d))"

text \<open>Strings without zero bytes whose length with the zero byte fits sixteen bits; raw data likewise.\<close>

fun value_ok :: "log_value \<Rightarrow> bool" where
  "value_ok (V_string s) \<longleftrightarrow> 0 \<notin> set s \<and> length s < 65535"
| "value_ok (V_utf8 s) \<longleftrightarrow> 0 \<notin> set s \<and> length s < 65535"
| "value_ok (V_raw d) \<longleftrightarrow> length d < 65536"
| "value_ok v \<longleftrightarrow> True"

text \<open>The type description and the data of a value in a verbose message.\<close>

fun value_info :: "log_value \<Rightarrow> u32" where
  "value_info (V_bool x) = 0x11"
| "value_info (V_uint8 x) = 0x41"
| "value_info (V_uint16 x) = 0x42"
| "value_info (V_uint32 x) = 0x43"
| "value_info (V_uint64 x) = 0x44"
| "value_info (V_int8 x) = 0x21"
| "value_info (V_int16 x) = 0x22"
| "value_info (V_int32 x) = 0x23"
| "value_info (V_int64 x) = 0x24"
| "value_info (V_float32 x) = 0x83"
| "value_info (V_float64 x) = 0x84"
| "value_info (V_ptr x) = 0x10044"
| "value_info (V_string s) = 0x200"
| "value_info (V_utf8 s) = 0x8200"
| "value_info (V_raw d) = 0x400"

fun value_body :: "log_value \<Rightarrow> bytes" where
  "value_body (V_bool x) = [x]"
| "value_body (V_uint8 x) = [x]"
| "value_body (V_uint16 x) = le16 x"
| "value_body (V_uint32 x) = le32 x"
| "value_body (V_uint64 x) = le64 x"
| "value_body (V_int8 x) = [x]"
| "value_body (V_int16 x) = le16 x"
| "value_body (V_int32 x) = le32 x"
| "value_body (V_int64 x) = le64 x"
| "value_body (V_float32 x) = le32 x"
| "value_body (V_float64 x) = le64 x"
| "value_body (V_ptr x) = le64 x"
| "value_body (V_string s) = le16 (of_nat (length s + 1)) @ s @ [0]"
| "value_body (V_utf8 s) = le16 (of_nat (length s + 1)) @ s @ [0]"
| "value_body (V_raw d) = le16 (of_nat (length d)) @ d"

definition value_bytes :: "log_value \<Rightarrow> bytes" where
  "value_bytes v = le32 (value_info v) @ value_body v"

definition writes_value :: "log_value \<Rightarrow> dlt_user \<Rightarrow> dlt_log \<Rightarrow> dlt_log \<Rightarrow> bool" where
  "writes_value v u l l' \<longleftrightarrow> log_wf u l' \<and> log_abs l' = (log_bytes l @ value_bytes v, log_args_num l + 1) \<and>
     log_verbose_mode l' = log_verbose_mode l"

lemma argument_value:
  assumes "log_wf u l" "user_initialised u" "arg_ok a" "is_verbose_mode u l"
    and "record_argument (unat (user_log_buf_len u)) True a (log_abs l) =
      record_whole (unat (user_log_buf_len u)) (value_bytes v) (log_abs l)"
    and "write_argument a u l = Ok (DLT_RETURN_OK, l')"
  shows "writes_value v u l l'"
  using write_argument_records [OF assms(1-3)] assms(4-)
  by (auto simp: records_def writes_value_def record_whole_def log_abs_def dlt_log_return_defs split: if_splits)

lemma string_value:
  assumes wf: "log_wf u l" "user_initialised u" and "is_verbose_mode u l" and s: "length s < 65535"
    and v: "value_bytes v = le32 (string_type type False) @ le16 (of_nat (length s + 1)) @ s @ [0]"
    and ok: "dlt_user_log_write_sized_string_utils_attr (Some (s @ [0])) (of_nat (length s)) type None False u l =
      Ok (DLT_RETURN_OK, l')"
  shows "writes_value v u l l'"
proof -
  have len: "unat (of_nat (length s) :: u16) = length s" using s by (simp add: unat_u16)
  then have ne: "(of_nat (length s) :: u16) \<noteq> 0xffff" using s by (auto simp: word_unat_eq_iff)
  let ?D = "desc_len (is_verbose_mode u l) None False"
  show ?thesis
  proof (cases rule: fits_cases
    [where whole = "length (log_bytes l) + (?D + 2) + length s + 1" and cap = "unat (user_log_buf_len u)" and
      least = "length (log_bytes l) + 36 + 2 + ?D"])
    case whole
    then have "length (log_bytes l) + length (sized_field (is_verbose_mode u l) (string_type type False) None False 0) +
        unat (of_nat (length s) :: u16) + 1 \<le> unat (user_log_buf_len u)" by (simp add: len)
    note r = string_whole [OF wf ne _ this, of "s @ [0]"]
    show ?thesis
      using r ok v len assms(3) by (simp add: records_def writes_value_def log_abs_def sized_field_def)
  next
    case none
    then show ?thesis
      using string_full(1) [OF wf ne, of None False "s @ [0]" type] ok len by (simp add: dlt_log_return_defs)
  next
    case (part room)
    then have eq: "unat (user_log_buf_len u) < length (log_bytes l) + unat (of_nat (length s) :: u16) + 1 + 2 + ?D"
      "unat (user_log_buf_len u) = room + (length (log_bytes l) + 36 + 2 + ?D)" by (simp_all add: len)
    show ?thesis
      using ok unfolding string_full(2) [OF wf ne eq] by (auto simp: dlt_log_return_defs bind_r_Ok_iff)
  qed
qed

lemma write_value_writes:
  assumes wf: "log_wf u l" "user_initialised u" and verbose: "is_verbose_mode u l" and "value_ok v"
    and ok: "write_value v u l = Ok (DLT_RETURN_OK, l')"
  shows "writes_value v u l l'"
proof -
  have generic: "writes_value v u l l'"
    if "dlt_user_log_write_generic_attr d (value_info v) None u l = Ok (DLT_RETURN_OK, l')" "value_body v = d" "length d \<le> 8"
    for d
    by (rule argument_value [OF wf _ verbose, of "Value_arg d (value_info v) None"])
      (use that in \<open>simp_all add: value_bytes_def\<close>)
  show ?thesis
  proof (cases v)
    case (V_ptr x)
    show ?thesis
      by (rule argument_value [OF wf _ verbose, of "Formatted_arg (le64 x) 0x44 4"])
        (use V_ptr ok wf in \<open>simp_all add: value_bytes_def dlt_user_log_write_ptr_def
          dlt_user_log_write_uint64_formatted_def formatted_type_def type_info_defs dlt_format_defs\<close>)
  next
    case (V_string s)
    then show ?thesis
      using ok assms(4) by (intro string_value [OF wf verbose, of s _ ASCII_STRING])
        (simp_all add: value_bytes_def string_type_def type_info_defs dlt_user_log_write_string_def
          dlt_user_log_write_string_utils_attr_def)
  next
    case (V_utf8 s)
    then show ?thesis
      using ok assms(4) by (intro string_value [OF wf verbose, of s _ UTF8_STRING])
        (simp_all add: value_bytes_def string_type_def type_info_defs dlt_user_log_write_utf8_string_def
          dlt_user_log_write_string_utils_attr_def)
  next
    case (V_raw d)
    have "unat (of_nat (length d) :: u16) = length d" using assms(4) V_raw by (simp add: unat_u16)
    then show ?thesis
      by (intro argument_value [OF wf _ verbose, of "Raw_arg (Some d) (of_nat (length d)) 0 None False"])
        (use V_raw ok in \<open>simp_all add: value_bytes_def sized_field_def raw_type_def type_info_defs dlt_format_defs
          dlt_user_log_write_raw_def\<close>)
  qed (use ok generic in \<open>auto simp: type_info_defs dlt_user_log_write_bool_def dlt_user_log_write_uint8_def
      dlt_user_log_write_uint16_def dlt_user_log_write_uint32_def dlt_user_log_write_uint64_def
      dlt_user_log_write_int8_def dlt_user_log_write_int16_def dlt_user_log_write_int32_def
      dlt_user_log_write_int64_def dlt_user_log_write_float32_def dlt_user_log_write_float64_def\<close>)
qed

end
