(* ===== verification/Dlt_Value_Text.thy ===== *)
theory Dlt_Value_Text
  imports Dlt_Values
begin

text \<open>
  The text of logged values, and that the printer of \<open>dlt_common.c\<close> produces it from the bytes that
  \<open>dlt_user.c\<close> has written.
\<close>

section \<open>The text of a value\<close>

fun join :: "bytes \<Rightarrow> bytes list \<Rightarrow> bytes" where
  "join sep [] = []"
| "join sep [x] = x"
| "join sep (x # y # xs) = x @ sep @ join sep (y # xs)"

lemma join_Cons: "join sep (x # xs) = x @ concat (map (\<lambda>y. sep @ y) xs)"
  by (induction xs arbitrary: x) simp_all

definition hex_byte :: "byte \<Rightarrow> bytes" where
  "hex_byte b = zero_pad 2 (hexadecimal (unat b))"

fun value_text :: "log_value \<Rightarrow> bytes" where
  "value_text (V_bool x) = decimal (unat x)"
| "value_text (V_uint8 x) = decimal (unat x)"
| "value_text (V_uint16 x) = decimal (unat x)"
| "value_text (V_uint32 x) = decimal (unat x)"
| "value_text (V_uint64 x) = decimal (unat x)"
| "value_text (V_int8 x) = decimal_int (sint x)"
| "value_text (V_int16 x) = decimal_int (sint x)"
| "value_text (V_int32 x) = decimal_int (sint x)"
| "value_text (V_int64 x) = decimal_int (sint x)"
| "value_text (V_float32 x) = format_float 8 23 (unat x)"
| "value_text (V_float64 x) = format_float 11 52 (unat x)"
| "value_text (V_ptr x) = ascii ''0x'' @ zero_pad 16 (hexadecimal (unat x))"
| "value_text (V_string s) = map clean_char s"
| "value_text (V_utf8 s) = map clean_char s"
| "value_text (V_raw d) = join [39] (map hex_byte d)"

text \<open>The room a value needs in the text.\<close>

fun value_room :: "log_value \<Rightarrow> nat" where
  "value_room (V_string s) = length s + 2"
| "value_room (V_utf8 s) = length s + 2"
| "value_room (V_raw d) = 3 * length d + 1"
| "value_room v = length (value_text v) + 1"

section \<open>Floating point text has no zero byte\<close>

lemma strip_zeros_subset: "set (strip_zeros s) \<subseteq> set s"
  by (auto simp: strip_zeros_def dest: set_dropWhileD)

lemma with_fraction_nonzero: "0 \<notin> set a \<Longrightarrow> 0 \<notin> set b \<Longrightarrow> 0 \<notin> set (with_fraction a b)"
  using strip_zeros_subset [of b] by (auto simp: with_fraction_def Let_def)

lemma format_g_nonzero: "0 \<notin> set (format_g n d)"
proof -
  have "0 \<notin> set (take k (decimal q))" "0 \<notin> set (drop k (decimal q))" for k q
    using decimal_nonzero [of q] by (auto dest: in_set_takeD in_set_dropD)
  then show ?thesis
    by (simp add: format_g_def Let_def decimal_nonzero zero_pad_nonzero with_fraction_nonzero split: prod.splits)
qed

lemma format_float_nonzero: "0 \<notin> set (format_float eb mb w)"
  by (simp add: format_float_def Let_def format_g_nonzero ascii_def)

section \<open>Sixteen digits as twice eight\<close>

primrec hex_fixed :: "nat \<Rightarrow> nat \<Rightarrow> bytes" where
  "hex_fixed 0 n = []"
| "hex_fixed (Suc k) n = hex_fixed k (n div 16) @ [hex_digit (n mod 16)]"

lemma hex_fixed_zero: "hex_fixed k 0 = replicate k 48"
  by (induction k) (simp_all add: hex_digit_def replicate_append_same)

lemma zero_pad_hex_fixed: "n < 16 ^ k \<Longrightarrow> 0 < k \<Longrightarrow> zero_pad k (hexadecimal n) = hex_fixed k n"
proof (induction k arbitrary: n)
  case (Suc k)
  show ?case
  proof (cases "n < 16")
    case True
    then show ?thesis by (subst hexadecimal.simps) (simp add: zero_pad_def hex_fixed_zero)
  next
    case False
    then have "0 < k" using Suc.prems by (cases k) auto
    moreover have "n div 16 < 16 ^ k" using Suc.prems(1) by (simp add: less_mult_imp_div_less mult.commute)
    ultimately show ?thesis using Suc.IH [of "n div 16"] False by (subst hexadecimal.simps) (simp add: zero_pad_def)
  qed
qed simp

lemma hex_fixed_split: "hex_fixed (a + b) n = hex_fixed a (n div 16 ^ b) @ hex_fixed b (n mod 16 ^ b)"
proof (induction b arbitrary: n)
  case (Suc b)
  have "n mod 16 ^ Suc b div 16 = n div 16 mod 16 ^ b" "n mod 16 ^ Suc b mod 16 = n mod 16"
    by (simp_all add: mod_mult2_eq mod_mod_cancel)
  then show ?case using Suc.IH [of "n div 16"] by (simp add: div_mult2_eq [symmetric])
qed simp

lemma hex64_text:
  "zero_pad 16 (hexadecimal (unat (x :: u64))) =
   zero_pad 8 (hexadecimal (unat x div 2 ^ 32)) @ zero_pad 8 (hexadecimal (unat x mod 2 ^ 32))"
proof -
  have "unat x < 16 ^ 16" using unsigned_less [of x, where 'a = nat] by simp
  moreover have "(16 :: nat) ^ 8 = 2 ^ 32" by simp
  ultimately show ?thesis
    using hex_fixed_split [of 8 8 "unat x"] by (simp add: zero_pad_hex_fixed less_mult_imp_div_less)
qed

section \<open>Printing what was written\<close>

lemma read_value_at:
  assumes "0 \<le> pr_pos s" "drop (nat (pr_pos s)) mem = d @ rest" "n = length d" "0 < n" "int n \<le> pr_len s"
  shows "read_value mem n k s = k d (skip (int n) s)"
proof -
  have "nat (pr_pos s) + n \<le> length mem"
    using assms(2-4) by (metis add_leE append_eq_conv_conj drop_eq_Nil2 le_add_diff_inverse length_append length_drop
      less_nat_zero_code linorder_le_cases list.size(3) nat_add_left_cancel_le append_is_Nil_conv le_add1)
  then show ?thesis using assms by (simp add: read_value_def ptr_read_def)
qed

lemma print_text_holds:
  assumes "holds_text (pr_text s) str" "0 \<notin> set out" "length out < unat n" "length str + length out < length (pr_text s)"
  shows "\<exists>t. print_text (int (length str)) n out s = Ok (DLT_RETURN_OK, s\<lparr>pr_text := t\<rparr>) \<and>
    holds_text t (str @ out) \<and> length t = length (pr_text s)"
  using snprintf_text [OF assms(1,2,3,4) refl] by (auto simp: print_text_def)

lemma print_hex_loop_rest:
  assumes "holds_text t str" "delim \<noteq> 0" "length str + 3 * length xs < length t" "off = int (length str)"
  shows "\<exists>t'. print_hex_loop delim False xs off t = Ok t' \<and>
    holds_text t' (str @ concat (map (\<lambda>x. delim # hex_byte x) xs)) \<and> length t' = length t"
  using assms
proof (induction xs arbitrary: t str off)
  case (Cons x xs)
  obtain t1 where t1: "c_snprintf off 2 [delim] t = Ok t1" "holds_text t1 (str @ [delim])" "length t1 = length t"
    using snprintf_text [of t str "[delim]" 2 off] Cons.prems by auto
  have hex: "0 \<notin> set (hex_byte x)" "length (hex_byte x) = 2"
    by (simp_all add: hex_byte_def zero_pad_nonzero hexadecimal_nonzero length_hex_byte)
  obtain t2 where t2: "c_snprintf (off + 1) 3 (hex_byte x) t1 = Ok t2" "holds_text t2 (str @ delim # hex_byte x)"
    "length t2 = length t"
    using snprintf_text [OF t1(2) hex(1), of 3 "off + 1"] hex(2) t1 Cons.prems by auto
  show ?case
    using Cons.IH [OF t2(2), of "3 + off"] Cons.prems t1 t2 hex(2) by (auto simp: hex_byte_def)
qed simp

lemma print_hex_loop_all:
  assumes "holds_text t str" "delim \<noteq> 0" "length str + 3 * length xs < length t" "off = int (length str)"
  shows "\<exists>t'. print_hex_loop delim True xs off t = Ok t' \<and>
    holds_text t' (str @ join [delim] (map hex_byte xs)) \<and> length t' = length t"
proof (cases xs)
  case Nil
  then show ?thesis using assms by simp
next
  case (Cons x ys)
  have hex: "0 \<notin> set (hex_byte x)" "length (hex_byte x) = 2"
    by (simp_all add: hex_byte_def zero_pad_nonzero hexadecimal_nonzero length_hex_byte)
  obtain t2 where t2: "c_snprintf off 3 (hex_byte x) t = Ok t2" "holds_text t2 (str @ hex_byte x)" "length t2 = length t"
    using snprintf_text [OF assms(1) hex(1), of 3 off] hex(2) assms Cons by auto
  then show ?thesis
    using print_hex_loop_rest [OF t2(2) assms(2), of ys "off + 2"] assms Cons hex(2)
    by (auto simp: hex_byte_def [symmetric] join_Cons o_def)
qed

lemma endian_little:
  assumes "htyp AND DLT_HTYP_MSBF = 0"
  shows "DLT_ENDIAN_GET_16 htyp a = a" "DLT_ENDIAN_GET_32 htyp b = b" "DLT_ENDIAN_GET_64 htyp c = c"
  using assms by (simp_all add: DLT_ENDIAN_GET_16_def DLT_ENDIAN_GET_32_def DLT_ENDIAN_GET_64_def)

text \<open>The printer stands at the data \<open>d\<close> of an argument, with room for \<open>need\<close> bytes behind the text \<open>str\<close>.\<close>

definition at_argument :: "bytes \<Rightarrow> bytes \<Rightarrow> bytes \<Rightarrow> nat \<Rightarrow> u64 \<Rightarrow> printer \<Rightarrow> bool" where
  "at_argument mem d str need n s \<longleftrightarrow>
     0 \<le> pr_pos s \<and> nat (pr_pos s) + length d \<le> length mem \<and>
     (\<exists>rest. drop (nat (pr_pos s)) mem = d @ rest) \<and> int (length d) \<le> pr_len s \<and>
     holds_text (pr_text s) str \<and> length str + need \<le> length (pr_text s) \<and> need \<le> unat n \<and> unat n < 2 ^ 31"

definition prints :: "(int \<times> printer) result \<Rightarrow> nat \<Rightarrow> bytes \<Rightarrow> printer \<Rightarrow> bool" where
  "prints r k out s \<longleftrightarrow>
     (\<exists>t. r = Ok (DLT_RETURN_OK, skip (int k) (s\<lparr>pr_text := t\<rparr>)) \<and> holds_text t out \<and> length t = length (pr_text s))"

lemma skip_text [simp]:
  "pr_text (skip k s) = pr_text s" "(skip k s)\<lparr>pr_text := t\<rparr> = skip k (s\<lparr>pr_text := t\<rparr>)"
  "pr_len (skip k s) = pr_len s - k" "pr_pos (skip k s) = pr_pos s + k"
  by (simp_all add: skip_def)

lemma print_read_value:
  assumes "at_argument mem d str (length (out d) + 1) n s" "0 \<notin> set (out d)" "k = length d" "0 < k"
  shows "prints (read_value mem k (\<lambda>d. print_text (int (length str)) n (out d)) s) k (str @ out d) s"
proof -
  have "read_value mem k (\<lambda>d. print_text (int (length str)) n (out d)) s = print_text (int (length str)) n (out d) (skip (int k) s)"
    using assms by (auto simp: at_argument_def intro: read_value_at)
  then show ?thesis
    using print_text_holds [of "skip (int k) s" str "out d" n] assms by (auto simp: prints_def at_argument_def)
qed

lemma prints_checked:
  assumes "prints r k out s" "int k \<le> pr_len s"
  shows "prints (bind_r r (\<lambda>(ret, s1). if ret = DLT_RETURN_ERROR \<or> pr_len s1 < 0 then Ok (DLT_RETURN_ERROR, s1)
    else Ok (DLT_RETURN_OK, s1))) k out s"
    and "prints (bind_r r (\<lambda>(ret, s1). if ret = DLT_RETURN_ERROR then Ok (DLT_RETURN_ERROR, s1)
      else if pr_len s1 < 0 then Ok (DLT_RETURN_ERROR, s1) else Ok (DLT_RETURN_OK, s1))) k out s"
  using assms by (auto simp: prints_def dlt_log_return_defs)

lemma print_int_plain:
  assumes "at_argument mem d str (length (out d) + 1) n s" "0 \<notin> set (out d)"
    and "type_info AND DLT_TYPE_INFO_VARI = 0" "type_info AND DLT_TYPE_INFO_FIXP = 0" "0 < length d"
    and "print_int_value mem htyp type_info (int (length str)) n = read_value mem (length d) (\<lambda>d. print_text (int (length str)) n (out d))"
  shows "prints (print_int mem attrs htyp type_info (int (length str)) n s) (length d) (str @ out d) s"
  using prints_checked(2) [OF print_read_value [of mem d str out n s, OF assms(1,2) refl assms(5)]] assms
  by (simp add: print_int_def with_name_unit_def value_then_unit_def skip_fixp_def print_unit_def at_argument_def
    cong: if_cong)

lemma print_float_plain:
  assumes "at_argument mem d str (length (out d) + 1) n s" "0 \<notin> set (out d)"
    and "type_info AND DLT_TYPE_INFO_VARI = 0" "0 < length d"
    and "print_float_value mem htyp type_info (int (length str)) n = read_value mem (length d) (\<lambda>d. print_text (int (length str)) n (out d))"
  shows "prints (print_float mem attrs htyp type_info (int (length str)) n s) (length d) (str @ out d) s"
  using prints_checked(2) [OF print_read_value [of mem d str out n s, OF assms(1,2) refl assms(4)]] assms
  by (simp add: print_float_def with_name_unit_def value_then_unit_def print_unit_def at_argument_def cong: if_cong)

end
