(* ===== verification/Dlt_Value_Print.thy ===== *)
theory Dlt_Value_Print
  imports Dlt_Value_Text
begin

text \<open>
  The printer of \<open>dlt_common.c\<close> gives back, for each kind of value, the text of the value that \<open>dlt_user.c\<close> has
  written; and the loop over the arguments gives the texts in order, with a space between them.
\<close>

section \<open>Numbers\<close>

lemma int_text_le:
  assumes "htyp AND DLT_HTYP_MSBF = 0"
  shows "int_text htyp False DLT_TYLE_8BIT [x] = decimal (unat x)"
    "int_text htyp True DLT_TYLE_8BIT [x] = decimal_int (sint x)"
    "int_text htyp False DLT_TYLE_16BIT (le16 a) = decimal (unat a)"
    "int_text htyp True DLT_TYLE_16BIT (le16 a) = decimal_int (sint a)"
    "int_text htyp False DLT_TYLE_32BIT (le32 b) = decimal (unat b)"
    "int_text htyp True DLT_TYLE_32BIT (le32 b) = decimal_int (sint b)"
    "int_text htyp False DLT_TYLE_64BIT (le64 c) = decimal (unat c)"
    "int_text htyp True DLT_TYLE_64BIT (le64 c) = decimal_int (sint c)"
  by (simp_all add: int_text_def Let_def endian_little [OF assms] le_nat_Cons le_nat_le16 le_nat_le32 le_nat_le64 print_type_defs)

lemma at_argument_weaken: "at_argument mem d str need n s \<Longrightarrow> need' \<le> need \<Longrightarrow> at_argument mem d str need' n s"
  by (auto simp: at_argument_def)

abbreviation prints_value where
  "prints_value mem attrs htyp v str n s \<equiv>
     prints (dlt_message_argument_print mem attrs htyp (value_info v) (-1) (int (length str)) n s)
       (length (value_body v)) (str @ value_text v) s"

lemma argument_print_int:
  assumes "type_info \<in> {0x41, 0x42, 0x43, 0x44, 0x21, 0x22, 0x23, 0x24}"
  shows "dlt_message_argument_print mem attrs htyp type_info bl off n s = print_int mem attrs htyp type_info off n s"
    and "type_info AND DLT_TYPE_INFO_VARI = 0" "type_info AND DLT_TYPE_INFO_FIXP = 0"
  using assms
  by (elim insertE emptyE; hypsubst; simp only: dlt_message_argument_print_def Let_def print_type_defs; simp)+

lemma print_int_value_at:
  assumes "type_info \<in> {0x41, 0x42, 0x43, 0x44, 0x21, 0x22, 0x23, 0x24}"
  shows "print_int_value mem htyp type_info off n =
    read_value mem (if type_info AND 15 = 1 then 1 else if type_info AND 15 = 2 then 2 else if type_info AND 15 = 3 then 4 else 8)
      (\<lambda>d. print_text off n (int_text htyp (type_info AND 32 \<noteq> 0) (type_info AND 15) d))"
  using assms by (elim insertE emptyE; hypsubst; simp add: print_int_value_def Let_def print_type_defs)

lemma print_integer:
  assumes "at_argument mem (value_body v) str (value_room v) n s" "htyp AND DLT_HTYP_MSBF = 0"
    and info: "value_info v \<in> {0x41, 0x42, 0x43, 0x44, 0x21, 0x22, 0x23, 0x24}"
  shows "prints_value mem attrs htyp v str n s"
proof -
  let ?out = "\<lambda>d. int_text htyp (value_info v AND 32 \<noteq> 0) (value_info v AND 15) d"
  have out: "?out (value_body v) = value_text v" "0 \<notin> set (value_text v)" "value_room v = length (value_text v) + 1"
    "length (value_body v) = (if value_info v AND 15 = 1 then 1 else if value_info v AND 15 = 2 then 2 else if value_info v AND 15 = 3 then 4 else 8)"
    using info int_text_le [OF assms(2)]
    by (cases v; simp add: print_type_defs decimal_nonzero decimal_int_nonzero)+
  have "print_int_value mem htyp (value_info v) (int (length str)) n =
      read_value mem (length (value_body v)) (\<lambda>d. print_text (int (length str)) n (?out d))"
    unfolding out(4) by (rule print_int_value_at [OF info])
  moreover have "0 < length (value_body v)" unfolding out(4) by simp
  ultimately have "prints (print_int mem attrs htyp (value_info v) (int (length str)) n s)
      (length (value_body v)) (str @ ?out (value_body v)) s"
    using print_int_plain [of mem "value_body v" str ?out n s "value_info v" htyp attrs, OF _ _ argument_print_int(2,3) [OF info]]
      assms(1) out(1-3) by metis
  then show ?thesis unfolding argument_print_int(1) [OF info] out(1) .
qed

lemma print_float_number:
  assumes "at_argument mem (value_body v) str (value_room v) n s" "htyp AND DLT_HTYP_MSBF = 0"
    and v: "v = V_float32 x \<or> v = V_float64 y"
  shows "prints_value mem attrs htyp v str n s"
  using v
proof
  assume v: "v = V_float32 x"
  then show ?thesis
    using print_float_plain [of mem "le32 x" str "\<lambda>d. format_float 8 23 (unat (DLT_ENDIAN_GET_32 htyp (of_nat (le_nat d))))"
      n s "0x83" htyp attrs] assms(1,2)
    by (simp add: dlt_message_argument_print_def Let_def print_type_defs print_float_value_def endian_little format_float_nonzero)
next
  assume v: "v = V_float64 y"
  then show ?thesis
    using print_float_plain [of mem "le64 y" str "\<lambda>d. format_float 11 52 (unat (DLT_ENDIAN_GET_64 htyp (of_nat (le_nat d))))"
      n s "0x84" htyp attrs] assms(1,2)
    by (simp add: dlt_message_argument_print_def Let_def print_type_defs print_float_value_def endian_little format_float_nonzero)
qed

lemma print_boolean:
  assumes "at_argument mem (value_body (V_bool x)) str (value_room (V_bool x)) n s"
  shows "prints_value mem attrs htyp (V_bool x) str n s"
  using prints_checked(1) [OF print_read_value [of mem "[x]" str "\<lambda>d. decimal (le_nat d)" n s]] assms
  by (simp add: dlt_message_argument_print_def Let_def print_type_defs print_bool_def with_name_def decimal_nonzero
    at_argument_def)

section \<open>Pointers, strings and raw data\<close>

lemma at_argument_part:
  assumes "at_argument mem (a @ d @ b) str need n s"
  shows "0 \<le> pr_pos s" "\<exists>rest. drop (nat (pr_pos s + int (length a))) mem = d @ rest"
    "int (length a + length d + length b) \<le> pr_len s"
proof -
  obtain rest where "0 \<le> pr_pos s" "drop (nat (pr_pos s)) mem = a @ d @ b @ rest"
    using assms by (auto simp: at_argument_def)
  moreover have "drop (nat (pr_pos s + int (length a))) mem = drop (length a) (drop (nat (pr_pos s)) mem)"
    using calculation(1) by (simp add: nat_add_distrib add.commute)
  ultimately show "0 \<le> pr_pos s" "\<exists>rest. drop (nat (pr_pos s + int (length a))) mem = d @ rest"
    "int (length a + length d + length b) \<le> pr_len s" using assms by (auto simp: at_argument_def)
qed

lemma hex32_text: "zero_pad 8 (hexadecimal (unat (w :: u32))) = hx \<Longrightarrow> 0 \<notin> set hx \<and> length hx = 8"
  using length_hexadecimal [of "unat w" 8] unat_u32_less [of w]
  by (auto simp: length_zero_pad zero_pad_nonzero hexadecimal_nonzero)

lemma strlen_behind:
  assumes "holds_text t (str @ out)" shows "c_strlen (int (length str)) t = Ok (length out)"
  using assms by (auto simp: holds_text_def c_string_def c_strlen_def takeWhile_append)

lemma print_hex64_halves:
  assumes at: "at_argument mem (le32 lo @ le32 hi) str 19 n s"
  shows "prints (print_hex64 mem (int (length str)) n s) 8
    (str @ ascii ''0x'' @ zero_pad 8 (hexadecimal (unat hi)) @ zero_pad 8 (hexadecimal (unat lo))) s"
proof -
  define H L where "H = ascii ''0x'' @ zero_pad 8 (hexadecimal (unat hi))" and "L = zero_pad 8 (hexadecimal (unat lo))"
  have lens: "0 \<notin> set H" "length H = 10" "0 \<notin> set L" "length L = 8"
    using hex32_text [OF refl, of hi] hex32_text [OF refl, of lo] by (auto simp: H_def L_def ascii_def)
  obtain r1 where r1: "drop (nat (pr_pos s + 4)) mem = le32 hi @ r1" and pos: "0 \<le> pr_pos s" "8 \<le> pr_len s"
    using at_argument_part [of mem "le32 lo" "le32 hi" "[]" str 19 n s] at by auto
  obtain r2 where r2: "drop (nat (pr_pos s)) mem = le32 lo @ r2" using at by (auto simp: at_argument_def)
  have t: "holds_text (pr_text s) str" "length str + 19 \<le> length (pr_text s)" "19 \<le> unat n"
    using at by (auto simp: at_argument_def)
  obtain t1 where t1: "c_snprintf (int (length str)) (unat n) H (pr_text s) = Ok t1" "holds_text t1 (str @ H)"
    "length t1 = length (pr_text s)" using snprintf_text [OF t(1) lens(1), of "unat n" "int (length str)"] t lens by auto
  obtain t2 where t2: "c_snprintf (int (length str) + 10) (unat (n - 10)) L t1 = Ok t2" "holds_text t2 (str @ H @ L)"
    "length t2 = length (pr_text s)"
    using snprintf_text [OF t1(2) lens(3), of "unat (n - 10)" "int (length str) + 10"] t t1 lens unat_minus_nat [of 10 n] by (auto simp: less_diff_conv)
  have rd1: "read_value mem 4 k (s\<lparr>pr_pos := pr_pos s + 4\<rparr>) = k (le32 hi) (skip 4 (s\<lparr>pr_pos := pr_pos s + 4\<rparr>))" for k
    using read_value_at [of "s\<lparr>pr_pos := pr_pos s + 4\<rparr>" mem "le32 hi" r1 4 k] r1 pos by simp
  have rd2: "read_value mem 4 k s' = k (le32 lo) (skip 4 s')" if "pr_pos s' = pr_pos s" "4 \<le> pr_len s'" for k s'
    using read_value_at [of s' mem "le32 lo" r2 4 k] r2 pos that by simp
  have "print_hex64 mem (int (length str)) n s = Ok (DLT_RETURN_OK, skip 8 (s\<lparr>pr_text := t2\<rparr>))"
    unfolding print_hex64_def
    using pos t1 t2 strlen_behind [OF t1(2)] lens
    by (simp add: rd1 rd2 H_def [symmetric, simplified] L_def [symmetric] skip_def)
  then show ?thesis using t2 by (auto simp: prints_def H_def L_def)
qed

lemma print_pointer:
  assumes at: "at_argument mem (value_body (V_ptr x)) str (value_room (V_ptr x)) n s"
  shows "prints_value mem attrs htyp (V_ptr x) str n s"
proof -
  have split: "unat (ucast x :: u32) = unat x mod 2 ^ 32" "unat (ucast (drop_bit 32 x) :: u32) = unat x div 2 ^ 32"
    using unsigned_less [of x, where 'a = nat]
    by (simp_all only: unsigned_ucast_eq take_bit_eq_mod unat_drop_bit) simp_all
  have "length (zero_pad 16 (hexadecimal (unat x))) = 16"
    using length_hexadecimal [of "unat x" 16] unsigned_less [of x, where 'a = nat] by (simp add: length_zero_pad)
  then have "prints (print_hex64 mem (int (length str)) n s) 8 (str @ value_text (V_ptr x)) s"
    using print_hex64_halves [of mem "ucast x" "ucast (drop_bit 32 x)" str n s] at
    unfolding split by (simp add: le64_def hex64_text ascii_def)
  from prints_checked(1) [OF this] show ?thesis
    using at by (simp add: dlt_message_argument_print_def Let_def print_type_defs print_hex_def at_argument_def)
qed

lemma read_length_at:
  assumes "at_argument mem (le16 x @ d) str need n s" "htyp AND DLT_HTYP_MSBF = 0"
  shows "read_length mem htyp k s = k x (skip 2 s)" "at_argument mem d str need n (skip 2 s)"
proof -
  obtain rest where "0 \<le> pr_pos s" "drop (nat (pr_pos s)) mem = le16 x @ d @ rest" "2 \<le> pr_len s"
    using assms by (auto simp: at_argument_def)
  then show "read_length mem htyp k s = k x (skip 2 s)"
    using read_value_at [of s mem "le16 x" "d @ rest" 2] by (simp add: read_length_def endian_little [OF assms(2)])
  show "at_argument mem d str need n (skip 2 s)"
    using at_argument_part [of mem "le16 x" d "[]" str need n s] assms by (auto simp: at_argument_def)
qed

lemma skip_skip: "skip a (skip b s) = skip (b + a) s"
  by (simp add: skip_def)

lemma prints_skip: "prints r k out (skip 2 s) \<Longrightarrow> prints r (k + 2) out s"
  by (simp add: prints_def skip_skip)

lemma clean_nonzero: "0 \<notin> set s \<Longrightarrow> 0 \<notin> set (map clean_char s)"
  by (auto simp: clean_char_def)

lemma read_string_at:
  assumes at: "at_argument mem (s @ [0]) str (length s + 2) n p" and s: "0 \<notin> set s" "unat len = length s + 1"
  shows "prints (read_string mem (int (length str)) n len p) (length s + 1) (str @ map clean_char s) p"
proof -
  have len: "uint len = int (length s + 1)" using s(2) by (metis uint_nat)
  then have len_nat: "nat (uint len) = length s + 1" "nat (int (length str) + uint len) = length str + length s + 1"
    by (simp_all add: nat_add_distrib)
  obtain rest where mem: "drop (nat (pr_pos p)) mem = s @ 0 # rest" "0 \<le> pr_pos p" "int (length s + 1) \<le> pr_len p"
    using at by (auto simp: at_argument_def)
  have "nat (pr_pos p) + (length s + 1) \<le> length mem" using arg_cong [OF mem(1), of length] by simp
  then have src: "memcpy (pr_text p) (int (length str)) mem (pr_pos p) (length s + 1) =
      Ok (take (length str) (pr_text p) @ (s @ [0]) @ drop (length str + length s + 1) (pr_text p))"
    using at mem by (simp add: at_argument_def add.assoc)
  obtain junk where text0: "pr_text p = str @ 0 # junk" "0 \<notin> set str" using at by (auto simp: at_argument_def holds_text_def)
  have room: "length s + 1 \<le> length junk" using at text0 by (simp add: at_argument_def)
  let ?t = "str @ map clean_char s @ 0 # 0 # drop (length s + 1) junk"
  have clean: "dlt_clean_string (int (length str)) (uint len) (str @ s @ 0 # drop (length s) junk) =
      Ok (str @ map clean_char s @ 0 # drop (length s) junk)"
    using room by (simp add: dlt_clean_string_def len_nat(1) s(2) ptr_read_def ptr_write_def clean_char_def)
  have zero: "ptr_write (int (length str) + uint len) [0] (str @ map clean_char s @ 0 # drop (length s) junk) = Ok ?t"
    using room by (simp add: ptr_write_def len_nat(2))
  have "0 < len" "len \<noteq> 0" "\<not> n < ucast len"
    using s(2) at unsigned_less [of len, where 'a = nat]
    by (auto simp: word_less_nat_alt at_argument_def unsigned_ucast_eq take_bit_nat_eq_self)
  then have "read_string mem (int (length str)) n len p = Ok (DLT_RETURN_OK, skip (int (length s + 1)) (p\<lparr>pr_text := ?t\<rparr>))"
    using mem clean zero unfolding read_string_def s(2) src by (simp add: text0(1) len)
  then show ?thesis using text0 clean_nonzero [OF s(1)] room by (auto simp: prints_def holds_text_def)
qed

lemma print_string:
  assumes at: "at_argument mem (value_body v) str (value_room v) n p" and little: "htyp AND DLT_HTYP_MSBF = 0"
    and v: "v = V_string s \<or> v = V_utf8 s" "value_ok v"
  shows "prints_value mem attrs htyp v str n p"
proof -
  define len :: u16 where "len = of_nat (length s + 1)"
  have s: "0 \<notin> set s" "unat len = length s + 1" using v unat_u16 [of "length s + 1"] by (auto simp: len_def)
  have at': "at_argument mem (le16 len @ s @ [0]) str (length s + 2) n p"
    "length (value_body v) = length s + 1 + 2" "value_text v = map clean_char s"
    using at v by (auto simp: len_def)
  note rd = read_length_at [OF at'(1) little]
  have "dlt_message_argument_print mem attrs htyp (value_info v) (-1) (int (length str)) n p =
      bind_r (read_string mem (int (length str)) n len (skip 2 p)) (\<lambda>(ret, s1).
        if ret = DLT_RETURN_ERROR \<or> pr_len s1 < 0 then Ok (DLT_RETURN_ERROR, s1) else Ok (DLT_RETURN_OK, s1))"
    using v(1) by (elim disjE; hypsubst) (simp_all add: dlt_message_argument_print_def Let_def print_type_defs print_strg_def
      with_name_def rd(1))
  moreover have "int (length s + 1 + 2) \<le> pr_len p" using at' by (simp add: at_argument_def)
  ultimately show ?thesis
    using prints_checked(1) [OF prints_skip [OF read_string_at [OF rd(2) s]]] unfolding at' by simp
qed

lemma sint_of_size:
  assumes "unat (n :: u64) = k" "k < 2 ^ 31" shows "sint (ucast n :: u32) = int k"
proof -
  have "uint n = int k" using assms(1) by (metis uint_nat)
  then have "uint (ucast n :: u32) = int k" using assms(2) by (simp add: unsigned_ucast_eq take_bit_int_eq_self)
  then show ?thesis using assms(2) by (simp add: sint_uint signed_take_bit_int_eq_self)
qed

lemma hex_string_holds:
  assumes at: "at_argument mem d str (3 * length d + 1) n p" and "delim \<noteq> 0" "length d < 65536"
  shows "\<exists>t. dlt_print_hex_string_delim (int (length str)) (sint (ucast n :: u32)) mem (pr_pos p) (int (length d)) delim (pr_text p)
      = Ok (DLT_RETURN_OK, t) \<and> holds_text t (str @ join [delim] (map hex_byte d)) \<and> length t = length (pr_text p)"
proof -
  obtain k where k: "unat n = k" by simp
  then have n: "sint (ucast n :: u32) = int k" using at by (simp add: at_argument_def sint_of_size)
  obtain rest where "drop (nat (pr_pos p)) mem = d @ rest" using at by (auto simp: at_argument_def)
  then have "ptr_read (pr_pos p) (length d) mem = Ok d" using at by (simp add: at_argument_def ptr_read_def)
  then show ?thesis
    using print_hex_loop_all [of "pr_text p" str delim d "int (length str)"] at assms(2,3)
    by (auto simp: dlt_print_hex_string_delim_def n k at_argument_def)
qed

lemma print_raw:
  assumes at: "at_argument mem (value_body (V_raw d)) str (value_room (V_raw d)) n p" and little: "htyp AND DLT_HTYP_MSBF = 0"
    and d: "value_ok (V_raw d)"
  shows "prints_value mem attrs htyp (V_raw d) str n p"
proof -
  define len :: u16 where "len = of_nat (length d)"
  have "unat len = length d" using d unat_u16 [of "length d"] by (simp add: len_def)
  then have len: "uint len = int (length d)" by (metis uint_nat)
  have at': "at_argument mem (le16 len @ d) str (3 * length d + 1) n p" using at by (simp add: len_def)
  note rd = read_length_at [OF at' little]
  obtain t where t: "dlt_print_hex_string_delim (int (length str)) (sint (ucast n :: u32)) mem (pr_pos p + 2) (int (length d)) 39 (pr_text p)
      = Ok (DLT_RETURN_OK, t)" "holds_text t (str @ join [39] (map hex_byte d))" "length t = length (pr_text p)"
    using hex_string_holds [OF rd(2), of 39] d by auto
  have "\<not> pr_len p - 2 < int (length d)" using at' by (simp add: at_argument_def)
  then have "dlt_message_argument_print mem attrs htyp (value_info (V_raw d)) (-1) (int (length str)) n p =
      Ok (DLT_RETURN_OK, skip (int (length d + 2)) (p\<lparr>pr_text := t\<rparr>))"
    by (simp add: dlt_message_argument_print_def Let_def print_type_defs print_rawd_def with_name_def rd(1) len t(1) skip_skip
      dlt_log_return_defs)
  then show ?thesis using t by (auto simp: prints_def)
qed

text \<open>Every value is printed back from what was written for it.\<close>

lemma print_value:
  assumes "at_argument mem (value_body v) str (value_room v) n s" "htyp AND DLT_HTYP_MSBF = 0" "value_ok v"
  shows "prints_value mem attrs htyp v str n s"
proof (cases "value_info v \<in> {0x41, 0x42, 0x43, 0x44, 0x21, 0x22, 0x23, 0x24}")
  case True
  then show ?thesis using print_integer assms(1,2) by blast
next
  case False
  then consider x where "v = V_bool x" | x where "v = V_float32 x" | x where "v = V_float64 x" | x where "v = V_ptr x"
    | x where "v = V_string x" | x where "v = V_utf8 x" | x where "v = V_raw x"
    by (cases v) auto
  then show ?thesis
  proof cases
    case 1 then show ?thesis using print_boolean assms(1) by simp
  next
    case 2 then show ?thesis using print_float_number [OF assms(1,2)] by simp
  next
    case 3 then show ?thesis using print_float_number [OF assms(1,2)] by simp
  next
    case 4 then show ?thesis using print_pointer assms(1) by simp
  next
    case 5 then show ?thesis using print_string [OF assms(1,2) _ assms(3)] by simp
  next
    case 6 then show ?thesis using print_string [OF assms(1,2) _ assms(3)] by simp
  next
    case 7 then show ?thesis using print_raw [OF _ assms(2)] assms(1,3) by simp
  qed
qed

section \<open>All arguments of a message\<close>

lemma length_join_hex: "length (join [b] (map hex_byte d)) < 3 * length d + 1"
proof (cases d)
  case (Cons x xs)
  have "length (concat (map (\<lambda>y. [b] @ y) (map hex_byte ys))) = 3 * length ys" for ys
    by (induction ys) (simp_all add: hex_byte_def length_hex_byte)
  then show ?thesis using Cons length_hex_byte [of x] by (simp add: join_Cons hex_byte_def [symmetric])
qed simp

lemma value_text_room: "length (value_text v) < value_room v"
  using length_join_hex [of 39] by (cases v) simp_all

text \<open>The printer stands at the values \<open>vs\<close>, with room for \<open>need\<close> bytes in a text of \<open>textlength\<close> bytes.\<close>

definition at_values :: "bytes \<Rightarrow> log_value list \<Rightarrow> bytes \<Rightarrow> nat \<Rightarrow> u64 \<Rightarrow> printer \<Rightarrow> bool" where
  "at_values mem vs str need textlength s \<longleftrightarrow>
     (let d = concat (map value_bytes vs) in
      0 \<le> pr_pos s \<and> nat (pr_pos s) + length d \<le> length mem \<and> (\<exists>rest. drop (nat (pr_pos s)) mem = d @ rest) \<and>
      int (length d) \<le> pr_len s) \<and>
     holds_text (pr_text s) str \<and> length str + need \<le> unat textlength \<and> unat textlength \<le> length (pr_text s) \<and>
     unat textlength < 2 ^ 31"

definition text_room :: "log_value list \<Rightarrow> nat" where
  "text_room vs = sum_list (map (\<lambda>v. value_room v + 1) vs)"

lemma text_room_Cons [simp]: "text_room [] = 0" "text_room (v # vs) = value_room v + 1 + text_room vs"
  by (simp_all add: text_room_def)

lemma at_values_space:
  assumes "at_values mem vs str (k + 1) textlength s" "0 < k"
  shows "\<exists>s'. append_pr textlength [32] s = Ok s' \<and> at_values mem vs (str @ [32]) k textlength s'"
  using append_text_holds [of "pr_text s" str "[32]" textlength] assms by (auto simp: at_values_def append_pr_def)

lemma at_values_info:
  assumes "at_values mem (v # vs) str (value_room v + k) textlength s"
  shows "read_unchecked mem 4 tmp s = Ok (unat (value_info v), skip 4 s)"
    and "at_argument mem (value_body v) str (value_room v) (textlength - of_nat (length str)) (skip 4 s)"
proof -
  obtain rest where d: "drop (nat (pr_pos s)) mem = le32 (value_info v) @ value_body v @ rest"
      "0 \<le> pr_pos s" "nat (pr_pos s) + 4 + length (value_body v) \<le> length mem" "4 + int (length (value_body v)) \<le> pr_len s"
    using assms by (auto simp: at_values_def Let_def value_bytes_def)
  have "drop (nat (pr_pos s + 4)) mem = drop 4 (drop (nat (pr_pos s)) mem)" using d(2) by (simp add: nat_add_distrib add.commute)
  then have d4: "drop (nat (pr_pos s + 4)) mem = value_body v @ rest" by (simp add: d(1))
  show "read_unchecked mem 4 tmp s = Ok (unat (value_info v), skip 4 s)"
    using d by (simp add: read_unchecked_def ptr_read_def)
  show "at_argument mem (value_body v) str (value_room v) (textlength - of_nat (length str)) (skip 4 s)"
    using d d4 assms by (auto simp: at_argument_def at_values_def unat_minus_nat nat_add_distrib)
qed

lemma at_values_print:
  assumes "at_values mem (v # vs) str (value_room v + k) textlength s" "value_ok v" and little: "htyp AND DLT_HTYP_MSBF = 0"
  shows "\<exists>s'. dlt_message_argument_print mem attrs htyp (value_info v) (-1) (int (length str)) (textlength - of_nat (length str)) (skip 4 s)
      = Ok (DLT_RETURN_OK, s') \<and> at_values mem vs (str @ value_text v) k textlength s'"
proof -
  let ?n = "length (value_body v)"
  obtain t where t: "dlt_message_argument_print mem attrs htyp (value_info v) (-1) (int (length str)) (textlength - of_nat (length str))
      (skip 4 s) = Ok (DLT_RETURN_OK, skip (int ?n) (skip 4 (s\<lparr>pr_text := t\<rparr>)))" "holds_text t (str @ value_text v)"
      "length t = length (pr_text s)"
    using print_value [OF at_values_info(2) [OF assms(1)] little assms(2), of attrs] by (auto simp: prints_def)
  obtain rest where d: "drop (nat (pr_pos s)) mem = value_bytes v @ concat (map value_bytes vs) @ rest" "0 \<le> pr_pos s"
    using assms by (auto simp: at_values_def Let_def)
  have "drop (nat (pr_pos s + (4 + int ?n))) mem = drop (4 + ?n) (drop (nat (pr_pos s)) mem)"
    using d(2) by (simp add: nat_add_distrib ac_simps)
  then have "drop (nat (pr_pos s + (4 + int ?n))) mem = concat (map value_bytes vs) @ rest" by (simp add: d(1) value_bytes_def)
  then have "at_values mem vs (str @ value_text v) k textlength (skip (int ?n) (skip 4 (s\<lparr>pr_text := t\<rparr>)))"
    using t assms(1) value_text_room [of v]
    by (auto simp: at_values_def Let_def value_bytes_def skip_skip nat_add_distrib)
  then show ?thesis using t(1) by blast
qed

lemma payload_args_rest:
  assumes "at_values mem vs str (text_room vs) textlength s" "list_all value_ok vs" and little: "htyp AND DLT_HTYP_MSBF = 0"
    and "0 < num" "noar = num + length vs"
  shows "\<exists>t. payload_args mem attrs htyp textlength num noar tmp s = Ok (DLT_RETURN_OK, t) \<and>
    holds_text t (str @ concat (map (\<lambda>v. 32 # value_text v) vs))"
  using assms
proof (induction vs arbitrary: str s num tmp)
  case Nil
  then show ?case by (subst payload_args.simps) (simp add: at_values_def)
next
  case (Cons v vs)
  obtain s1 where s1: "append_pr textlength [32] s = Ok s1"
    "at_values mem (v # vs) (str @ [32]) (value_room v + text_room vs) textlength s1"
    using at_values_space [of mem "v # vs" str "value_room v + text_room vs" textlength s] Cons.prems(1) value_text_room [of v]
    by auto
  obtain s2 where s2: "dlt_message_argument_print mem attrs htyp (value_info v) (-1) (int (length (str @ [32])))
      (textlength - of_nat (length (str @ [32]))) (skip 4 s1) = Ok (DLT_RETURN_OK, s2)"
    "at_values mem vs ((str @ [32]) @ value_text v) (text_room vs) textlength s2"
    using at_values_print [OF s1(2)] Cons.prems by fastforce
  have "c_strlen 0 (pr_text (skip 4 s1)) = Ok (length (str @ [32]))"
    using s1(2) holds_text_strlen(2) [of "pr_text s1" "str @ [32]"] by (simp add: at_values_def)
  then have "payload_args mem attrs htyp textlength num noar tmp s =
      payload_args mem attrs htyp textlength (num + 1) noar (unat (value_info v)) s2"
    using Cons.prems s1(1) s2(1) at_values_info(1) [OF s1(2)]
    by (subst payload_args.simps) (simp add: endian_little [OF little] dlt_log_return_defs)
  then show ?case using Cons.IH [OF s2(2)] Cons.prems by simp
qed

lemma payload_args_text:
  assumes "at_values mem vs [] (text_room vs) textlength s" "list_all value_ok vs" and little: "htyp AND DLT_HTYP_MSBF = 0"
  shows "\<exists>t. payload_args mem attrs htyp textlength 0 (length vs) tmp s = Ok (DLT_RETURN_OK, t) \<and>
    holds_text t (join [32] (map value_text vs))"
proof (cases vs)
  case Nil
  then show ?thesis using assms by (subst payload_args.simps) (simp add: at_values_def)
next
  case (Cons v ws)
  have s: "at_values mem (v # ws) [] (value_room v + text_room ws) textlength s"
    using assms(1) Cons by (auto simp: at_values_def)
  obtain s2 where s2: "dlt_message_argument_print mem attrs htyp (value_info v) (-1) 0 textlength (skip 4 s) = Ok (DLT_RETURN_OK, s2)"
    "at_values mem ws (value_text v) (text_room ws) textlength s2"
    using at_values_print [OF s] assms Cons by fastforce
  have "c_strlen 0 (pr_text (skip 4 s)) = Ok 0"
    using s holds_text_strlen(2) [of "pr_text s" "[]"] by (simp add: at_values_def)
  then have "payload_args mem attrs htyp textlength 0 (length vs) tmp s =
      payload_args mem attrs htyp textlength 1 (length vs) (unat (value_info v)) s2"
    using Cons s2(1) at_values_info(1) [OF s]
    by (subst payload_args.simps) (simp add: endian_little [OF little] dlt_log_return_defs)
  then show ?thesis using payload_args_rest [OF s2(2) _ little, of 1 "length vs"] assms Cons by (simp add: join_Cons o_def)
qed

end
