(* ===== verification/Dlt_Delivery.thy ===== *)
theory Dlt_Delivery
  imports Dlt_Transfer Dlt_Value_Print
begin

text \<open>
  The way of a log message: the headers that \<open>dlt_user_log_send_log\<close> puts before the arguments are read back by
  \<open>dlt_message_read\<close>, and \<open>dlt_message_payload\<close> prints the values that the application has logged.
\<close>

section \<open>What is sent\<close>

lemma dlt_set_id_Ok: "4 \<le> length s \<Longrightarrow> \<exists>d. dlt_set_id s = Ok d \<and> length d = 4"
proof -
  have "n \<le> length s \<Longrightarrow> \<exists>d. set_id_from n s = Ok d \<and> length d = n" for n
    by (induction n s rule: set_id_from.induct) auto
  then show "4 \<le> length s \<Longrightarrow> \<exists>d. dlt_set_id s = Ok d \<and> length d = 4"
    by (simp add: dlt_set_id_def DLT_ID_SIZE_def)
qed

definition extra_bytes :: "byte \<Rightarrow> bytes \<Rightarrow> u32 \<Rightarrow> u32 \<Rightarrow> bytes" where
  "extra_bytes htyp ecu seid tmsp =
     (if htyp AND DLT_HTYP_WEID \<noteq> 0 then ecu else []) @
     (if htyp AND DLT_HTYP_WSID \<noteq> 0 then le32 (DLT_SWAP_32 seid) else []) @
     (if htyp AND DLT_HTYP_WTMS \<noteq> 0 then le32 (DLT_SWAP_32 tmsp) else [])"

lemma length_extra_bytes:
  "length ecu = 4 \<Longrightarrow> length (extra_bytes htyp ecu seid tmsp) = DLT_STANDARD_HEADER_EXTRA_SIZE htyp"
  by (simp add: extra_bytes_def DLT_STANDARD_HEADER_EXTRA_SIZE_def)

lemma set_extraparameters_value:
  assumes "length (headerbuffer m) = sizeof_headerbuffer" "msg_htyp m = Ok htyp" "length (extra_ecu m) = 4"
  shows "\<exists>m'. dlt_message_set_extraparameters m = Ok (DLT_RETURN_OK, m') \<and>
    headerbuffer m' = take 20 (headerbuffer m) @ extra_bytes htyp (extra_ecu m) (extra_seid m) (extra_tmsp m) @
      drop (20 + DLT_STANDARD_HEADER_EXTRA_SIZE htyp) (headerbuffer m)"
  using assms
  by (simp add: dlt_message_set_extraparameters_def extra_pos_def put_header_safe dlt_sizeof_defs extra_bytes_def
    DLT_STANDARD_HEADER_EXTRA_SIZE_def Let_def)

lemma log_htyp_version: "log_htyp se verbose AND DLT_HTYP_PROTOCOL_VERSION1 \<noteq> 0"
  by (simp add: log_htyp_def htyp_defs bit.conj_disj_distrib2)

lemma log_htyp_bits:
  "log_htyp se v AND DLT_HTYP_WEID \<noteq> 0 \<longleftrightarrow> se_with_ecu_id se" "log_htyp se v AND DLT_HTYP_WTMS \<noteq> 0 \<longleftrightarrow> se_with_timestamp se"
  "log_htyp se v AND DLT_HTYP_WSID \<noteq> 0 \<longleftrightarrow> se_with_session_id se"
  "log_htyp se v AND DLT_HTYP_UEH \<noteq> 0 \<longleftrightarrow> v \<or> se_extended_non_verbose se" "log_htyp se v AND DLT_HTYP_MSBF = 0"
  by (simp_all add: log_htyp_def htyp_defs)

definition ids_ok :: "send_env \<Rightarrow> bool" where
  "ids_ok se \<longleftrightarrow> 4 \<le> length (se_ecuID se) \<and> 4 \<le> length (se_appID se) \<and> 4 \<le> length (se_contextID se)"

definition extended_bytes :: "byte \<Rightarrow> byte \<Rightarrow> dlt_log \<Rightarrow> bytes \<Rightarrow> bytes \<Rightarrow> bytes" where
  "extended_bytes htyp msin l apid ctid =
     (if htyp AND DLT_HTYP_UEH \<noteq> 0 then [msin, ucast (log_args_num l)] @ apid @ ctid else [])"

lemma put_header_between:
  assumes "headerbuffer m = a @ old @ b" "length a = pos" "length old = length d"
  shows "put_header pos d m = Ok (m\<lparr>headerbuffer := a @ d @ b\<rparr>)"
  using assms by (simp add: put_header_def ptr_write_def)

text \<open>The standard header and the extra parameters; the two bytes \<open>c\<close> are for the length.\<close>

lemma send_standard_header:
  assumes hb: "length (headerbuffer m) = 42" and ecu: "dlt_set_id (se_ecuID se) = Ok ecu" "length ecu = 4"
    and htyp: "htyp = log_htyp se verbose"
  obtains st m1 m2 m3 c r where "dlt_set_storageheader 0 (se_ecuID se) sec usec m = Ok (DLT_RETURN_OK, m1)"
    "put_header sizeof_storage [htyp, mcnt] (m1\<lparr>standardheader := Some sizeof_storage\<rparr>) = Ok m2"
    "dlt_message_set_extraparameters (m2\<lparr>extra_ecu := ecu, extra_seid := if se_with_session_id se then se_pid se else extra_seid m2,
       extra_tmsp := tmsp\<rparr>) = Ok (DLT_RETURN_OK, m3)"
    "headerbuffer m3 = st @ [htyp, mcnt] @ c @ extra_bytes htyp ecu (se_pid se) tmsp @ r" "length st = 16" "length c = 2"
    "length r = 22 - DLT_STANDARD_HEADER_EXTRA_SIZE htyp"
proof -
  define st where "st = [68, 76, 84, 1] @ le32 sec @ le32 usec @ ecu"
  have st: "length st = 16" using ecu by (simp add: st_def)
  let ?hb = "headerbuffer m"
  let ?m1 = "m\<lparr>headerbuffer := st @ drop 16 ?hb\<rparr>"
  have m1: "dlt_set_storageheader 0 (se_ecuID se) sec usec m = Ok (DLT_RETURN_OK, ?m1)"
    using put_header_safe [of m 0 st] hb st unfolding st_def by (simp add: dlt_set_storageheader_def ecu dlt_sizeof_defs)
  let ?h2 = "st @ [htyp, mcnt] @ drop 18 ?hb"
  let ?m2 = "?m1\<lparr>standardheader := Some sizeof_storage, headerbuffer := ?h2\<rparr>"
  have m2: "put_header sizeof_storage [htyp, mcnt] (?m1\<lparr>standardheader := Some sizeof_storage\<rparr>) = Ok ?m2"
    using hb st by (simp add: put_header_safe dlt_sizeof_defs)
  let ?seid = "if se_with_session_id se then se_pid se else extra_seid ?m2"
  let ?m2' = "?m2\<lparr>extra_ecu := ecu, extra_seid := ?seid, extra_tmsp := tmsp\<rparr>"
  have "length (headerbuffer ?m2') = sizeof_headerbuffer" "msg_htyp ?m2' = Ok htyp"
    using hb st by (simp_all add: dlt_sizeof_defs msg_htyp_def header_byte_def ptr_read_def)
  from set_extraparameters_value [OF this] obtain m3 where m3: "dlt_message_set_extraparameters ?m2' = Ok (DLT_RETURN_OK, m3)"
    "headerbuffer m3 = take 20 ?h2 @ extra_bytes htyp ecu ?seid tmsp @ drop (20 + DLT_STANDARD_HEADER_EXTRA_SIZE htyp) ?h2"
    using ecu by auto
  have "extra_bytes htyp ecu ?seid tmsp = extra_bytes htyp ecu (se_pid se) tmsp"
    using log_htyp_bits(3) [of se verbose] by (auto simp: extra_bytes_def htyp)
  moreover have "take 20 ?h2 = st @ [htyp, mcnt] @ take 2 (drop 18 ?hb)" using st by simp
  moreover have "length (drop (20 + DLT_STANDARD_HEADER_EXTRA_SIZE htyp) ?h2) = 22 - DLT_STANDARD_HEADER_EXTRA_SIZE htyp"
    using hb st by simp
  ultimately show thesis
    using that [OF m1 m2 m3(1), of st "take 2 (drop 18 ?hb)" "drop (20 + DLT_STANDARD_HEADER_EXTRA_SIZE htyp) ?h2"] m3(2) st hb
    by simp
qed

lemma send_extended_header:
  assumes "headerbuffer m3 = pre @ r" "length pre = 20 + E" "length r = 22 - E" "E \<le> 12" and ids: "ids_ok se"
    and ok: "(if htyp AND DLT_HTYP_UEH \<noteq> 0 then log_extended se verbose mtype l (20 + E) m3 else Ok (DLT_RETURN_OK, m3)) = Ok (ret, m4)"
    and ret: "ret \<noteq> DLT_RETURN_ERROR"
  obtains msin apid ctid r4 where "headerbuffer m4 = pre @ extended_bytes htyp msin l apid ctid @ r4"
    "length apid = 4" "length ctid = 4" "htyp AND DLT_HTYP_UEH \<noteq> 0 \<longrightarrow> log_msin se verbose mtype l = Some msin"
    "dlt_set_id (se_appID se) = Ok apid" "dlt_set_id (se_contextID se) = Ok ctid"
proof -
  obtain apid ctid where id: "dlt_set_id (se_appID se) = Ok apid" "length apid = 4" "dlt_set_id (se_contextID se) = Ok ctid" "length ctid = 4"
    using ids dlt_set_id_Ok by (metis ids_ok_def)
  show thesis
  proof (cases "htyp AND DLT_HTYP_UEH = 0")
    case True
    then show thesis using ok assms(1) id by (intro that [of 0 apid ctid r]) (auto simp: extended_bytes_def)
  next
    case False
    then obtain msin where msin: "log_msin se verbose mtype l = Some msin"
      using ok ret by (auto simp: log_extended_def split: option.splits)
    let ?d = "[msin, ucast (log_args_num l)] @ apid @ ctid"
    have "put_header (20 + E) ?d (m3\<lparr>extendedheader := Some (20 + E)\<rparr>) =
        Ok (m3\<lparr>extendedheader := Some (20 + E), headerbuffer := pre @ ?d @ drop 10 r\<rparr>)"
      using assms(1-4) id put_header_safe [of "m3\<lparr>extendedheader := Some (20 + E)\<rparr>" "20 + E" ?d] by (simp add: dlt_sizeof_defs)
    then have "m4 = m3\<lparr>extendedheader := Some (20 + E), headerbuffer := pre @ ?d @ drop 10 r\<rparr>"
      using ok False msin id by (simp add: log_extended_def)
    then show thesis using False msin id by (intro that [of msin apid ctid "drop 10 r"]) (simp_all add: extended_bytes_def)
  qed
qed

definition log_tmsp :: "send_env \<Rightarrow> dlt_log \<Rightarrow> u32" where
  "log_tmsp se l = (if log_auto_timestamp l then se_uptime se else se_user_timestamp se)"

definition headers_length :: "byte \<Rightarrow> nat" where
  "headers_length htyp = sizeof_standard + DLT_STANDARD_HEADER_EXTRA_SIZE htyp + (if htyp AND DLT_HTYP_UEH \<noteq> 0 then sizeof_extended else 0)"

lemma headers_length_le: "headers_length htyp \<le> 26"
  using extra_size_le [of htyp] by (simp add: headers_length_def dlt_sizeof_defs)

lemma send_header_start:
  assumes ok: "dlt_user_log_send_header se mtype u l m = Ok (DLT_RETURN_OK, cnt, h)" and hb: "length (headerbuffer m) = 42"
    and ids: "ids_ok se" and htyp: "htyp = log_htyp se (is_verbose_mode u l)"
  obtains st c r ecu m3 m4 ret where "dlt_set_id (se_ecuID se) = Ok ecu" "length ecu = 4"
    "headerbuffer m3 = st @ [htyp, se_mcnt se] @ c @ extra_bytes htyp ecu (se_pid se) (log_tmsp se l) @ r" "length st = 16" "length c = 2"
    "length r = 22 - DLT_STANDARD_HEADER_EXTRA_SIZE htyp"
    "(if htyp AND DLT_HTYP_UEH \<noteq> 0
      then log_extended se (is_verbose_mode u l) mtype l (sizeof_storage + sizeof_standard + DLT_STANDARD_HEADER_EXTRA_SIZE htyp) m3
      else Ok (DLT_RETURN_OK, m3)) = Ok (ret, m4)" "ret \<noteq> DLT_RETURN_ERROR"
    "int (headers_length htyp) + sint (log_size l) \<le> 65535" "cnt = se_mcnt se + 1"
    "put_header (sizeof_storage + 2) (le16 (DLT_SWAP_16 (of_int (int (headers_length htyp) + sint (log_size l)))))
      (m4\<lparr>headersize := of_nat (sizeof_storage + headers_length htyp)\<rparr>) = Ok h"
proof -
  let ?v = "is_verbose_mode u l" and ?E = "DLT_STANDARD_HEADER_EXTRA_SIZE htyp"
  obtain ecu where ecu: "dlt_set_id (se_ecuID se) = Ok ecu" "length ecu = 4" using ids dlt_set_id_Ok by (metis ids_ok_def)
  let ?bad = "log_handle l = None \<or> se_contextID se ! 0 = 0 \<or> sint mtype < sint DLT_TYPE_LOG \<or> sint mtype > sint DLT_TYPE_CONTROL"
  have "user_initialised u" using ok by (rule contrapos_pp) (simp add: dlt_user_log_send_header_def dlt_log_return_defs)
  moreover have "\<not> ?bad"
    using ok by (rule contrapos_pn) (use calculation in \<open>simp add: dlt_user_log_send_header_def dlt_log_return_defs\<close>)
  ultimately have checks: "user_initialised u = True" "?bad = False" by simp_all
  have hb0: "length (headerbuffer (snd (dlt_message_init m))) = 42" using hb by (simp add: dlt_message_init_def)
  obtain st m1 m2 m3 c r where s: "dlt_set_storageheader 0 (se_ecuID se) (se_seconds se) (se_microseconds se) (snd (dlt_message_init m))
      = Ok (DLT_RETURN_OK, m1)"
    "put_header sizeof_storage [htyp, se_mcnt se] (m1\<lparr>standardheader := Some sizeof_storage\<rparr>) = Ok m2"
    "dlt_message_set_extraparameters (m2\<lparr>extra_ecu := ecu, extra_seid := if se_with_session_id se then se_pid se else extra_seid m2,
       extra_tmsp := log_tmsp se l\<rparr>) = Ok (DLT_RETURN_OK, m3)"
    "headerbuffer m3 = st @ [htyp, se_mcnt se] @ c @ extra_bytes htyp ecu (se_pid se) (log_tmsp se l) @ r" "length st = 16" "length c = 2"
    "length r = 22 - ?E"
    by (rule send_standard_header [OF hb0 ecu htyp, of "se_seconds se" "se_microseconds se" "se_mcnt se" "log_tmsp se l"])
  let ?ext = "sizeof_storage + sizeof_standard + ?E"
  let ?n = "?ext + (if htyp AND DLT_HTYP_UEH \<noteq> 0 then sizeof_extended else 0)"
  let ?len = "int (?n - sizeof_storage) + sint (log_size l)"
  have n: "?n - sizeof_storage = headers_length htyp" "?n = sizeof_storage + headers_length htyp"
    by (simp_all add: headers_length_def dlt_sizeof_defs)
  have start: "bind_r (if htyp AND DLT_HTYP_UEH \<noteq> 0 then log_extended se ?v mtype l ?ext m3 else Ok (DLT_RETURN_OK, m3)) (\<lambda>(ret, m4).
      if ret = DLT_RETURN_ERROR then Ok (DLT_RETURN_ERROR, se_mcnt se + 1, m4)
      else if ?len > 65535 then Ok (DLT_RETURN_ERROR, se_mcnt se + 1, m4\<lparr>headersize := of_nat ?n\<rparr>)
      else bind_r (put_header (sizeof_storage + 2) (le16 (DLT_SWAP_16 (of_int ?len))) (m4\<lparr>headersize := of_nat ?n\<rparr>))
        (\<lambda>m6. Ok (DLT_RETURN_OK, se_mcnt se + 1, m6))) = Ok (DLT_RETURN_OK, cnt, h)"
    using ok unfolding dlt_user_log_send_header_def checks if_False if_True not_True_eq_False Let_def
    by (simp only: htyp [symmetric] log_tmsp_def [symmetric] s(1-3) bind_r.simps ecu(1) prod.case)
  then obtain ret m4 where m4: "(if htyp AND DLT_HTYP_UEH \<noteq> 0 then log_extended se ?v mtype l ?ext m3 else Ok (DLT_RETURN_OK, m3)) = Ok (ret, m4)"
    by (auto simp only: bind_r_Ok_iff)
  have "ret \<noteq> DLT_RETURN_ERROR" "\<not> ?len > 65535"
    using start unfolding m4 by (auto simp: dlt_log_return_defs split: if_splits)
  moreover have "put_header (sizeof_storage + 2) (le16 (DLT_SWAP_16 (of_int ?len))) (m4\<lparr>headersize := of_nat ?n\<rparr>) = Ok h"
    "cnt = se_mcnt se + 1"
    using start calculation unfolding m4 by (auto simp: bind_r_Ok_iff)
  ultimately show thesis using m4 unfolding n by (intro that [OF ecu s(4-7)]) simp_all
qed

lemma frame_bytes_parts:
  assumes "headerbuffer h = st @ hdr @ r" "length st = 16" "headersize h = of_nat (16 + length hdr)" "length hdr \<le> 26"
  shows "frame_bytes h l = hdr @ log_bytes l"
proof -
  have "unat (headersize h) = 16 + length hdr" using assms(3,4) headers_unat [of "16 + length hdr"] by simp
  then show ?thesis using assms(1,2) by (simp add: frame_bytes_def log_bytes_def dlt_sizeof_defs)
qed

lemma send_header_layout:
  assumes ok: "dlt_user_log_send_header se mtype u l m = Ok (DLT_RETURN_OK, cnt, h)" and hb: "length (headerbuffer m) = 42"
    and wf: "log_wf u l" and ids: "ids_ok se" and htyp: "htyp = log_htyp se (is_verbose_mode u l)"
  obtains ecu msin apid ctid T where "dlt_set_id (se_ecuID se) = Ok ecu" "length ecu = 4"
    "dlt_set_id (se_appID se) = Ok apid" "dlt_set_id (se_contextID se) = Ok ctid" "length apid = 4" "length ctid = 4"
    "htyp AND DLT_HTYP_UEH \<noteq> 0 \<longrightarrow> log_msin se (is_verbose_mode u l) mtype l = Some msin"
    "frame_bytes h l = [htyp, se_mcnt se] @ le16 (DLT_SWAP_16 (of_nat T)) @ extra_bytes htyp ecu (se_pid se) (log_tmsp se l) @
       extended_bytes htyp msin l apid ctid @ log_bytes l"
    "T = headers_length htyp + length (log_bytes l)" "T \<le> 65535" "cnt = se_mcnt se + 1"
proof -
  let ?E = "DLT_STANDARD_HEADER_EXTRA_SIZE htyp" and ?T = "headers_length htyp + length (log_bytes l)"
  obtain st c r ecu m3 m4 ret where ecu: "dlt_set_id (se_ecuID se) = Ok ecu" "length ecu = 4"
    and m3: "headerbuffer m3 = st @ [htyp, se_mcnt se] @ c @ extra_bytes htyp ecu (se_pid se) (log_tmsp se l) @ r" "length st = 16"
      "length c = 2" "length r = 22 - ?E"
    and m4: "(if htyp AND DLT_HTYP_UEH \<noteq> 0 then log_extended se (is_verbose_mode u l) mtype l (sizeof_storage + sizeof_standard + ?E) m3
      else Ok (DLT_RETURN_OK, m3)) = Ok (ret, m4)" "ret \<noteq> DLT_RETURN_ERROR"
    and fin: "int (headers_length htyp) + sint (log_size l) \<le> 65535" "cnt = se_mcnt se + 1"
      "put_header (sizeof_storage + 2) (le16 (DLT_SWAP_16 (of_int (int (headers_length htyp) + sint (log_size l)))))
        (m4\<lparr>headersize := of_nat (sizeof_storage + headers_length htyp)\<rparr>) = Ok h"
    by (rule send_header_start [OF ok hb ids htyp])
  let ?x = "extra_bytes htyp ecu (se_pid se) (log_tmsp se l)"
  have x: "length ?x = ?E" "?E \<le> 12" using length_extra_bytes [OF ecu(2)] extra_size_le by simp_all
  have ext: "sizeof_storage + sizeof_standard + ?E = 20 + ?E" by (simp add: dlt_sizeof_defs)
  have pre: "headerbuffer m3 = (st @ [htyp, se_mcnt se] @ c @ ?x) @ r" "length (st @ [htyp, se_mcnt se] @ c @ ?x) = 20 + ?E"
    using m3 x by simp_all
  obtain msin apid ctid r4 where e: "headerbuffer m4 = (st @ [htyp, se_mcnt se] @ c @ ?x) @ extended_bytes htyp msin l apid ctid @ r4"
    "length apid = 4" "length ctid = 4" "htyp AND DLT_HTYP_UEH \<noteq> 0 \<longrightarrow> log_msin se (is_verbose_mode u l) mtype l = Some msin"
    "dlt_set_id (se_appID se) = Ok apid" "dlt_set_id (se_contextID se) = Ok ctid"
    by (rule send_extended_header [OF pre m3(4) x(2) ids m4(1) [unfolded ext] m4(2)])
  obtain b where b: "log_buffer l = Some b" "sint (log_size l) = int (length (log_bytes l))"
    using log_wf_obtain [OF wf] by metis
  let ?len = "le16 (DLT_SWAP_16 (of_nat ?T))"
  have "h = m4\<lparr>headersize := of_nat (sizeof_storage + headers_length htyp),
      headerbuffer := (st @ [htyp, se_mcnt se]) @ ?len @ ?x @ extended_bytes htyp msin l apid ctid @ r4\<rparr>"
    using fin(3) put_header_between [of "m4\<lparr>headersize := of_nat (sizeof_storage + headers_length htyp)\<rparr>" "st @ [htyp, se_mcnt se]" c
      "?x @ extended_bytes htyp msin l apid ctid @ r4" 18 ?len] e(1) m3(2,3) b(2) by (simp add: dlt_sizeof_defs)
  then have "headerbuffer h = st @ ([htyp, se_mcnt se] @ ?len @ ?x @ extended_bytes htyp msin l apid ctid) @ r4"
    "headersize h = of_nat (16 + headers_length htyp)" by (simp_all add: dlt_sizeof_defs)
  moreover have "length ([htyp, se_mcnt se] @ ?len @ ?x @ extended_bytes htyp msin l apid ctid) = headers_length htyp"
    using e(2,3) x(1) by (simp add: extended_bytes_def headers_length_def dlt_sizeof_defs)
  ultimately have "frame_bytes h l = ([htyp, se_mcnt se] @ ?len @ ?x @ extended_bytes htyp msin l apid ctid) @ log_bytes l"
    using m3(2) headers_length_le [of htyp] by (intro frame_bytes_parts) simp_all
  then have "frame_bytes h l = [htyp, se_mcnt se] @ ?len @ ?x @ extended_bytes htyp msin l apid ctid @ log_bytes l" by simp
  then show thesis using that [OF ecu e(5,6,2,3,4), of ?T] fin(1,2) b(2) by simp
qed

section \<open>What is received\<close>

lemma skip_to_first:
  assumes buffer: "buffer = pre @ dltSerialHeader @ d" and none: "\<forall>i < length pre. \<not> serial_at buffer i" and resync: "resync \<or> pre = []"
    and len: "len = length buffer" "len < 2 ^ 31"
  shows "\<exists>m'. skip_serial_header buffer len resync m = Ok (length pre + 4, length d, m') \<and> same_frame m m'"
proof (cases "pre = []")
  case True
  then show ?thesis using assms by (auto simp: skip_serial_header_def ptr_read_def dltSerialHeader_def same_frame_def)
next
  case False
  have at: "serial_at buffer (length pre)" using buffer by (simp add: serial_at_def dltSerialHeader_def)
  obtain found k where k: "resync_loop buffer len 0 = Ok (found, k)" "\<forall>i. 0 \<le> i \<and> i < k \<longrightarrow> \<not> serial_at buffer i"
    "if found then serial_at buffer k \<and> k + 4 \<le> len else k = len - 3"
    using resync_loop_first [of 0 len buffer] assms by (auto simp: dltSerialHeader_def)
  have "k \<le> length pre" using k(2) at by (meson leI le0)
  moreover have "length pre + 4 \<le> len" using buffer len by (simp add: dltSerialHeader_def)
  ultimately have "found" "k = length pre" using k(3) none by (auto split: if_splits dest: le_neq_implies_less)
  then show ?thesis using k(1) none False resync len buffer
    by (auto simp: skip_serial_header_def ptr_read_def serial_at_def Let_def same_frame_def dltSerialHeader_def)
qed

text \<open>A reader finds the frame \<open>d\<close> at position \<open>pos\<close>: behind a serial header, or where there is none.\<close>

definition found_at :: "bytes \<Rightarrow> u32 \<Rightarrow> bool \<Rightarrow> nat \<Rightarrow> bytes \<Rightarrow> bool" where
  "found_at buffer len resync pos d \<longleftrightarrow> d = drop pos buffer \<and> pos + length d = unat len \<and> unat len = length buffer \<and>
     (\<forall>m. \<exists>m'. skip_serial_header buffer (unat len) resync m = Ok (pos, length d, m') \<and> same_frame m m')"

lemma found_behind_serial:
  assumes "buffer = pre @ dltSerialHeader @ d" "\<forall>i < length pre. \<not> serial_at buffer i" "resync \<or> pre = []"
    and "unat len = length buffer" "unat len < 2 ^ 31"
  shows "found_at buffer len resync (length pre + 4) d"
  using skip_to_first [OF assms(1-3), of "unat len"] assms by (simp add: found_at_def dltSerialHeader_def)

lemma found_at_start:
  assumes "d = x # d'" "x \<noteq> 0x44" "4 \<le> length d" "unat len = length d"
  shows "found_at d len False 0 d"
proof -
  have "take 4 d \<noteq> dltSerialHeader" using assms(1,2) by (simp add: dltSerialHeader_def)
  then show ?thesis using assms by (simp add: found_at_def skip_serial_header_def ptr_read_def same_frame_def)
qed

text \<open>
  The ways in which a sent message is received. The daemon has it at the start of its buffer. A client gets the
  frame behind a serial header, when the daemon is set up to send serial headers, and possibly behind
  other bytes without such a header.
\<close>

inductive received :: "c_platform \<Rightarrow> bytes \<Rightarrow> dlt_message \<Rightarrow> (int \<times> dlt_message) result \<Rightarrow> bool" for env sent r0 where
  daemon: "unat len = length (sent @ post) \<Longrightarrow> received env sent r0 (daemon_read_log env (sent @ post) len r0)"
| client: "buffer = pre @ dltSerialHeader @ drop sizeof_userheader sent @ post \<Longrightarrow> \<forall>i < length pre. \<not> serial_at buffer i \<Longrightarrow>
    resync \<or> pre = [] \<Longrightarrow> unat len = length buffer \<Longrightarrow> unat len < 2 ^ 31 \<Longrightarrow>
    received env sent r0 (dlt_message_read env (Some buffer) len resync r0)"

lemma received_found:
  assumes "received env (sent_bytes h l) r0 result" "frame_bytes h l = x # d'" "x \<noteq> 0x44" "4 \<le> length (frame_bytes h l)"
  obtains buffer len resync pos post where "result = dlt_message_read env (Some buffer) len resync r0"
    "found_at buffer len resync pos (frame_bytes h l @ post)"
  using assms(1)
proof cases
  case (daemon len post)
  have uh: "drop sizeof_userheader (sent_bytes h l @ post) = frame_bytes h l @ post" "length (sent_bytes h l) = 8 + length (frame_bytes h l)"
    by (simp_all add: sent_bytes_def dlt_user_set_userheader_def DLT_USER_MESSAGE_LOG_def sizeof_userheader_def ascii_def)
  then have "unat (len - 8) = length (frame_bytes h l @ post)"
    using daemon(2) unat_sub [of 8 len] by (simp add: word_le_nat_alt)
  then have "found_at (frame_bytes h l @ post) (len - 8) False 0 (frame_bytes h l @ post)"
    using assms(2-4) by (intro found_at_start [of _ x "d' @ post"]) simp_all
  then show thesis using that [of "frame_bytes h l @ post" "len - 8" False] daemon(1) uh(1)
    by (simp add: daemon_read_log_def) (simp add: sizeof_userheader_def)
next
  case (client buffer pre post resync len)
  have "drop sizeof_userheader (sent_bytes h l) = frame_bytes h l"
    by (simp add: sent_bytes_def dlt_user_set_userheader_def DLT_USER_MESSAGE_LOG_def sizeof_userheader_def ascii_def)
  then show thesis using that found_behind_serial [OF _ client(3-6)] client(1,2) by auto
qed

lemma extras_read:
  assumes "headerbuffer m = a @ [htyp, mcnt] @ c @ extra_bytes htyp ecu seid tmsp @ rest" "length a = 16" "length c = 2" "length ecu = 4"
    and "extras_of m = m"
  shows "(htyp AND DLT_HTYP_WEID \<noteq> 0 \<longrightarrow> extra_ecu m = ecu) \<and> (htyp AND DLT_HTYP_WSID \<noteq> 0 \<longrightarrow> extra_seid m = seid) \<and>
    (htyp AND DLT_HTYP_WTMS \<noteq> 0 \<longrightarrow> extra_tmsp m = tmsp)"
proof -
  let ?x = "extra_bytes htyp ecu seid tmsp @ rest"
  have hb: "headerbuffer m ! sizeof_storage = htyp" "drop 20 (headerbuffer m) = ?x" "drop 24 (headerbuffer m) = drop 4 ?x"
    "drop 28 (headerbuffer m) = drop 8 ?x"
    using assms(1-3) by (simp_all add: nth_append dlt_sizeof_defs)
  have "extra_ecu (extras_of m) = ecu" if "htyp AND DLT_HTYP_WEID \<noteq> 0"
    unfolding extras_of_def Let_def hb using that assms(4) by (simp add: hb extra_bytes_def)
  moreover have "extra_seid (extras_of m) = seid" if "htyp AND DLT_HTYP_WSID \<noteq> 0"
    unfolding extras_of_def Let_def hb using that assms(4) by (simp add: hb header_word_def) (simp add: extra_bytes_def)
  moreover have "extra_tmsp (extras_of m) = tmsp" if "htyp AND DLT_HTYP_WTMS \<noteq> 0"
    unfolding extras_of_def Let_def hb using that assms(4) by (simp add: hb header_word_def) (simp add: extra_bytes_def)
  ultimately show ?thesis unfolding assms(5) by blast
qed

lemma read_from_fields:
  assumes "read_from buffer pos m" "msg_complete m" and d: "d = drop pos buffer" "4 \<le> length d"
  shows "headerbuffer m ! 16 = d ! 0" "take (headers_length (d ! 0)) (drop 16 (headerbuffer m)) = take (headers_length (d ! 0)) d"
    "take (unat (datasize m)) (the (databuffer m)) = take (unat (datasize m)) (drop (headers_length (d ! 0)) d)"
    "4 < headers_length (d ! 0) \<longrightarrow> extras_of m = m"
    "d ! 0 AND DLT_HTYP_UEH \<noteq> 0 \<longrightarrow> extendedheader m = Some (20 + DLT_STANDARD_HEADER_EXTRA_SIZE (d ! 0))"
proof -
  let ?n = "headers_length (headerbuffer m ! 16)"
  have hs: "unat (headersize m) = 16 + ?n" "0 < ?n"
    using assms(1) by (simp_all add: read_from_def Let_def dlt_sizeof_defs headers_length_def)
  have "take (unat (headersize m) - 16) (drop 16 (headerbuffer m)) = take (unat (headersize m) - 16) d"
    using assms(1) unfolding read_from_def Let_def sizeof_storage_def d by blast
  then have n: "take ?n (drop 16 (headerbuffer m)) = take ?n d" by (simp add: hs(1))
  have "length (headerbuffer m) = 42" using assms(2) by (simp add: msg_complete_def msg_wf_def dlt_sizeof_defs)
  then show eq: "headerbuffer m ! 16 = d ! 0" using arg_cong [OF n, of "\<lambda>xs. xs ! 0"] hs(2) by simp
  show "take (headers_length (d ! 0)) (drop 16 (headerbuffer m)) = take (headers_length (d ! 0)) d"
    "take (unat (datasize m)) (the (databuffer m)) = take (unat (datasize m)) (drop (headers_length (d ! 0)) d)"
    "4 < headers_length (d ! 0) \<longrightarrow> extras_of m = m"
    "d ! 0 AND DLT_HTYP_UEH \<noteq> 0 \<longrightarrow> extendedheader m = Some (20 + DLT_STANDARD_HEADER_EXTRA_SIZE (d ! 0))"
    using hs(1) n assms(1) eq by (auto simp: read_from_def Let_def dlt_sizeof_defs d add.commute)
qed

lemma message_received:
  fixes htyp :: byte and payload :: bytes
  defines "H \<equiv> headers_length htyp" and "T \<equiv> headers_length htyp + length payload"
  assumes d: "d = hdr @ payload @ post" "hdr = [htyp, mcnt] @ le16 (DLT_SWAP_16 (of_nat T)) @ extra_bytes htyp ecu seid tmsp @ e"
    and lens: "length ecu = 4" "length e = (if htyp AND DLT_HTYP_UEH \<noteq> 0 then 10 else 0)" "T \<le> 65535"
    and buffer: "found_at buffer len resync pos d"
    and m: "msg_wf m" and malloc: "malloc env (length payload) \<noteq> None"
  shows "\<exists>m' b. dlt_message_read env (Some buffer) len resync m = Ok (DLT_MESSAGE_ERROR_OK, m') \<and> msg_complete m' \<and>
    databuffer m' = Some b \<and> unat (datasize m') = length payload \<and> take (length payload) b = payload \<and>
    headerbuffer m' = take 16 (headerbuffer m') @ hdr @ drop (16 + H) (headerbuffer m') \<and> (4 < H \<longrightarrow> extras_of m' = m') \<and>
    (htyp AND DLT_HTYP_UEH \<noteq> 0 \<longrightarrow> extendedheader m' = Some (20 + DLT_STANDARD_HEADER_EXTRA_SIZE htyp))"
proof -
  obtain m1 where skip: "skip_serial_header buffer (unat len) resync (m\<lparr>resync_offset := 0\<rparr>) = Ok (pos, length d, m1)"
    "same_frame (m\<lparr>resync_offset := 0\<rparr>) m1"
    using buffer unfolding found_at_def by meson
  have hdr: "length hdr = H" "d ! 0 = htyp" "4 \<le> H"
    using lens length_extra_bytes [OF lens(1), of htyp seid tmsp] by (simp_all add: d H_def headers_length_def dlt_sizeof_defs)
  have pos: "d = drop pos buffer" "pos + length d = unat len" using buffer unfolding found_at_def by blast+
  have "4 \<le> length d" using hdr(1,3) d(1) by simp
  note pos = pos this
  have "frame_total d = T" using lens(3) unat_u16 [of T] by (simp add: d frame_total_def)
  moreover have "frame_headers d = H" by (simp add: frame_headers_def hdr H_def headers_length_def)
  moreover have "T - H = length payload" "H \<le> T" "T \<le> length d" using hdr by (simp_all add: T_def H_def d)
  moreover have "4 \<le> unat len" "unat len \<le> length buffer" using pos buffer by (simp_all add: found_at_def)
  ultimately obtain m' where m': "dlt_message_read env (Some buffer) len resync m = Ok (DLT_MESSAGE_ERROR_OK, m')" "msg_complete m'"
    "read_from buffer pos m'" "unat (datasize m') = length payload"
    using dlt_message_read_at [OF m _ _ skip(1) pos(2) skip(2) pos(3,1), of env] malloc by auto
  obtain b where b: "databuffer m' = Some b" using m'(2) by (auto simp: msg_complete_def split: option.splits)
  note f = read_from_fields [OF m'(3,2) pos(1,3), unfolded hdr(2) H_def [symmetric]]
  have "take H (drop 16 (headerbuffer m')) = hdr" using f(2) hdr(1) by (simp add: d(1))
  then have "headerbuffer m' = take 16 (headerbuffer m') @ hdr @ drop (16 + H) (headerbuffer m')"
    by (metis append_take_drop_id drop_drop add.commute)
  moreover have "take (length payload) b = payload" using f(3) m'(4) b hdr(1) by (simp add: d(1))
  ultimately show ?thesis using m' b f(4,5) by blast
qed

section \<open>Headers\<close>

lemma header_byte_at:
  assumes "headerbuffer m = a @ x # b" "length a = p + i"
  shows "header_byte (Some p) i m = Ok x"
  using assms by (simp add: header_byte_def ptr_read_def)

lemma extended_read:
  assumes "headerbuffer r = pre @ extended_bytes htyp msin l apid ctid @ rest" "length pre = p" "extendedheader r = Some p"
    and "htyp AND DLT_HTYP_UEH \<noteq> 0"
  shows "msg_msin r = Ok msin \<and> msg_noar r = Ok (ucast (log_args_num l))"
  using header_byte_at [of r pre msin _ p 0] header_byte_at [of r "pre @ [msin]" "ucast (log_args_num l)" _ p 1] assms
  by (simp add: msg_msin_def msg_noar_def extended_bytes_def)

lemma sent_received:
  assumes ok: "dlt_user_log_send_header se mtype u l m = Ok (DLT_RETURN_OK, cnt, h)" and hb: "length (headerbuffer m) = 42"
    and wf: "log_wf u l" and ids: "ids_ok se" and htyp: "htyp = log_htyp se (is_verbose_mode u l)"
    and received: "received env (sent_bytes h l) r0 result"
    and r: "msg_wf r0" and malloc: "malloc env (length (log_bytes l)) \<noteq> None"
  obtains r b msin where "result = Ok (DLT_MESSAGE_ERROR_OK, r)" "msg_complete r"
    "databuffer r = Some b" "unat (datasize r) = length (log_bytes l)" "take (length (log_bytes l)) b = log_bytes l" "msg_htyp r = Ok htyp"
    "htyp AND DLT_HTYP_UEH \<noteq> 0 \<longrightarrow>
      log_msin se (is_verbose_mode u l) mtype l = Some msin \<and> msg_msin r = Ok msin \<and> msg_noar r = Ok (ucast (log_args_num l))"
    "(se_with_ecu_id se \<longrightarrow> dlt_set_id (se_ecuID se) = Ok (extra_ecu r)) \<and> (se_with_session_id se \<longrightarrow> extra_seid r = se_pid se) \<and>
      (se_with_timestamp se \<longrightarrow> extra_tmsp r = log_tmsp se l)"
proof -
  let ?x = "\<lambda>ecu. extra_bytes htyp ecu (se_pid se) (log_tmsp se l)" and ?P = "log_bytes l" and ?H = "headers_length htyp"
  obtain ecu msin apid ctid T where ecu: "dlt_set_id (se_ecuID se) = Ok ecu" "length ecu = 4" and ap: "length apid = 4" "length ctid = 4"
    and msin: "htyp AND DLT_HTYP_UEH \<noteq> 0 \<longrightarrow> log_msin se (is_verbose_mode u l) mtype l = Some msin"
    and sent: "frame_bytes h l = [htyp, se_mcnt se] @ le16 (DLT_SWAP_16 (of_nat T)) @ ?x ecu @ extended_bytes htyp msin l apid ctid @ ?P"
    and T: "T = ?H + length ?P" "T \<le> 65535"
    by (rule send_header_layout [OF ok hb wf ids htyp])
  let ?e = "extended_bytes htyp msin l apid ctid"
  let ?hdr = "[htyp, se_mcnt se] @ le16 (DLT_SWAP_16 (of_nat (?H + length ?P))) @ ?x ecu @ ?e"
  have e: "length ?e = (if htyp AND DLT_HTYP_UEH \<noteq> 0 then 10 else 0)" using ap by (simp add: extended_bytes_def)
  have "htyp AND DLT_HTYP_PROTOCOL_VERSION1 \<noteq> 0" by (simp add: htyp log_htyp_version)
  then have "htyp \<noteq> 0x44" by (auto simp: DLT_HTYP_PROTOCOL_VERSION1_def)
  moreover have "frame_bytes h l = htyp # tl (frame_bytes h l)" "4 \<le> length (frame_bytes h l)" by (simp_all add: sent)
  ultimately obtain buffer len resync pos post where
    result: "result = dlt_message_read env (Some buffer) len resync r0" and "found_at buffer len resync pos (frame_bytes h l @ post)"
    using received_found [OF received, of htyp] by metis
  then have bf: "found_at buffer len resync pos (?hdr @ ?P @ post)" "?H + length ?P \<le> 65535" using sent T by simp_all
  obtain r b where rd: "dlt_message_read env (Some buffer) len resync r0 = Ok (DLT_MESSAGE_ERROR_OK, r)" "msg_complete r"
    "databuffer r = Some b" "unat (datasize r) = length ?P" "take (length ?P) b = ?P"
    "headerbuffer r = take 16 (headerbuffer r) @ ?hdr @ drop (16 + ?H) (headerbuffer r)" "4 < ?H \<longrightarrow> extras_of r = r"
    "htyp AND DLT_HTYP_UEH \<noteq> 0 \<longrightarrow> extendedheader r = Some (20 + DLT_STANDARD_HEADER_EXTRA_SIZE htyp)"
    using message_received [OF refl refl ecu(2) e bf(2) bf(1) r malloc] by (elim exE conjE) (rule that; assumption)
  have a: "length (take 16 (headerbuffer r)) = 16" using rd(2) by (simp add: msg_complete_def msg_wf_def dlt_sizeof_defs)
  have r1: "headerbuffer r ! sizeof_storage = htyp"
    by (subst rd(6)) (use a in \<open>simp add: nth_append sizeof_storage_def del: length_take\<close>)
  have "msg_htyp r = Ok htyp" using msg_htyp_at [of r] rd(2) r1 by (simp add: msg_complete_def)
  moreover have "msg_msin r = Ok msin \<and> msg_noar r = Ok (ucast (log_args_num l))" if ueh: "htyp AND DLT_HTYP_UEH \<noteq> 0"
    by (rule extended_read [where pre = "take 16 (headerbuffer r) @ [htyp, se_mcnt se] @ le16 (DLT_SWAP_16 (of_nat (?H + length ?P))) @ ?x ecu" and
        p = "20 + DLT_STANDARD_HEADER_EXTRA_SIZE htyp"], subst rd(6))
      (use a length_extra_bytes [OF ecu(2)] rd(8) ueh in simp_all)
  moreover have "(se_with_ecu_id se \<longrightarrow> dlt_set_id (se_ecuID se) = Ok (extra_ecu r)) \<and> (se_with_session_id se \<longrightarrow> extra_seid r = se_pid se) \<and>
      (se_with_timestamp se \<longrightarrow> extra_tmsp r = log_tmsp se l)"
  proof (cases "4 < ?H")
    case True
    have "headerbuffer r = take 16 (headerbuffer r) @ [htyp, se_mcnt se] @ le16 (DLT_SWAP_16 (of_nat (?H + length ?P))) @ ?x ecu @
        (?e @ drop (16 + ?H) (headerbuffer r))"
      by (subst rd(6)) simp
    from extras_read [OF this a _ ecu(2)] show ?thesis using rd(7) True ecu(1) by (simp add: htyp log_htyp_bits)
  next
    case False
    then have "DLT_STANDARD_HEADER_EXTRA_SIZE htyp = 0" by (simp add: headers_length_def dlt_sizeof_defs)
    then show ?thesis by (simp add: DLT_STANDARD_HEADER_EXTRA_SIZE_def htyp log_htyp_bits split: if_splits)
  qed
  ultimately show thesis using that [OF trans [OF result rd(1)] rd(2-5)] msin by blast
qed

section \<open>Logged values\<close>

primrec write_values :: "log_value list \<Rightarrow> dlt_user \<Rightarrow> dlt_log \<Rightarrow> (int \<times> dlt_log) result" where
  "write_values [] u l = Ok (DLT_RETURN_OK, l)"
| "write_values (v # vs) u l =
     bind_r (write_value v u l) (\<lambda>(ret, l1). if ret = DLT_RETURN_OK then write_values vs u l1 else Ok (ret, l1))"

lemma write_values_log:
  assumes "log_wf u l" "user_initialised u" "is_verbose_mode u l" "list_all value_ok vs"
    and "write_values vs u l = Ok (DLT_RETURN_OK, l')"
  shows "log_wf u l' \<and> is_verbose_mode u l' \<and>
    log_abs l' = (log_bytes l @ concat (map value_bytes vs), log_args_num l + of_nat (length vs))"
  using assms
proof (induction vs arbitrary: l)
  case Nil
  then show ?case by (simp add: log_abs_def)
next
  case (Cons v vs)
  obtain l1 where l1: "write_value v u l = Ok (DLT_RETURN_OK, l1)" "write_values vs u l1 = Ok (DLT_RETURN_OK, l')"
    using Cons.prems(5) by (auto simp: bind_r_Ok_iff split: if_splits)
  then have "writes_value v u l l1" using write_value_writes [OF Cons.prems(1-3)] Cons.prems(4) by simp
  then show ?case using Cons.IH [of l1] Cons.prems l1(2) by (simp add: writes_value_def log_abs_def is_verbose_mode_def algebra_simps)
qed

lemma sent_initialised: "dlt_user_log_send_header se mtype u l m = Ok (DLT_RETURN_OK, cnt, h) \<Longrightarrow> user_initialised u"
  by (rule ccontr) (simp add: dlt_user_log_send_header_def dlt_log_return_defs)

lemma log_msin_verbose: "log_msin se True mtype l = Some msin \<Longrightarrow> \<not> DLT_MSG_IS_NONVERBOSE (Some msin)"
  by (auto simp: log_msin_def Let_def DLT_MSG_IS_NONVERBOSE_def dlt_type_defs bit.conj_disj_distrib2 split: if_splits)

lemma print_received:
  assumes r: "msg_complete r" "databuffer r = Some b" "unat (datasize r) = length (concat (map value_bytes vs))"
      "take (length (concat (map value_bytes vs))) b = concat (map value_bytes vs)"
    and htyp: "msg_htyp r = Ok htyp" "htyp AND DLT_HTYP_UEH \<noteq> 0" "htyp AND DLT_HTYP_MSBF = 0"
    and ext: "msg_msin r = Ok msin" "\<not> DLT_MSG_IS_NONVERBOSE (Some msin)" "msg_noar r = Ok noar" "unat noar = length vs"
    and vs: "list_all value_ok vs"
    and room: "text_room vs \<le> unat textlength" "textlength \<noteq> 0" "unat textlength \<le> length text0" "unat textlength < 2 ^ 31"
  shows "\<exists>t. dlt_message_payload attrs r textlength DLT_OUTPUT_ASCII text0 = Ok (DLT_RETURN_OK, t) \<and>
    holds_text t (join [32] (map value_text vs))"
proof -
  have "unat (datasize r) < 2 ^ 31" using r(1) by (simp add: msg_complete_def)
  then have ds: "sint (datasize r) = int (length (concat (map value_bytes vs)))" using r(3) sint_small [of "datasize r"] by simp
  have len: "length (concat (map value_bytes vs)) \<le> length b" using r(1-3) by (simp add: msg_complete_def)
  obtain x text1 where text0: "text0 = x # text1" using room by (cases text0) (auto simp: unat_eq_zero)
  let ?s = "\<lparr>pr_pos = 0, pr_len = sint (datasize r), pr_text = 0 # text1\<rparr>"
  have "b = concat (map value_bytes vs) @ drop (length (concat (map value_bytes vs))) b" using r(4) by (metis append_take_drop_id)
  then have "at_values b vs [] (text_room vs) textlength ?s"
    using ds len room text0 by (auto simp: at_values_def Let_def holds_text_def)
  from payload_args_text [OF this vs htyp(3), of attrs 0] show ?thesis
    using r(2) htyp ext room(2) text0
    by (simp add: dlt_message_payload_def dlt_output_defs ptr_write_def Let_def)
qed

text \<open>
  [C16] What a reader gets from a log message is what the application has put into it: the daemon, which has the
  sent bytes at the start of its buffer, and a client, which gets the frame behind a serial header and possibly
  behind other bytes without one, read the payload, the number of arguments and the message information, and
  the parameters that were to be sent, whatever follows the message.
\<close>

theorem log_header_received:
  assumes "dlt_user_log_send_header se mtype u l m = Ok (DLT_RETURN_OK, cnt, h)" "length (headerbuffer m) = 42" "log_wf u l" "ids_ok se"
    and "received env (sent_bytes h l) r0 result"
    and "msg_wf r0" "malloc env (length (log_bytes l)) \<noteq> None"
  shows "\<exists>r b. result = Ok (DLT_MESSAGE_ERROR_OK, r) \<and> databuffer r = Some b \<and>
    take (unat (datasize r)) b = log_bytes l \<and>
    (se_with_ecu_id se \<longrightarrow> dlt_set_id (se_ecuID se) = Ok (extra_ecu r)) \<and> (se_with_session_id se \<longrightarrow> extra_seid r = se_pid se) \<and>
    (se_with_timestamp se \<longrightarrow> extra_tmsp r = log_tmsp se l) \<and>
    (is_verbose_mode u l \<or> se_extended_non_verbose se \<longrightarrow>
      (\<exists>msin. log_msin se (is_verbose_mode u l) mtype l = Some msin \<and> msg_msin r = Ok msin) \<and> msg_noar r = Ok (ucast (log_args_num l)))"
proof -
  obtain r b msin where "result = Ok (DLT_MESSAGE_ERROR_OK, r)"
    "databuffer r = Some b" "unat (datasize r) = length (log_bytes l)" "take (length (log_bytes l)) b = log_bytes l"
    "log_htyp se (is_verbose_mode u l) AND DLT_HTYP_UEH \<noteq> 0 \<longrightarrow>
      log_msin se (is_verbose_mode u l) mtype l = Some msin \<and> msg_msin r = Ok msin \<and> msg_noar r = Ok (ucast (log_args_num l))"
    "(se_with_ecu_id se \<longrightarrow> dlt_set_id (se_ecuID se) = Ok (extra_ecu r)) \<and> (se_with_session_id se \<longrightarrow> extra_seid r = se_pid se) \<and>
      (se_with_timestamp se \<longrightarrow> extra_tmsp r = log_tmsp se l)"
    by (rule sent_received [OF assms(1-4) refl assms(5-7)])
  then show ?thesis unfolding log_htyp_bits by (intro exI [of _ r] exI [of _ b]) auto
qed

text \<open>
  [C6] The whole way of a log message: an application starts a verbose message, writes values into it and sends
  it; the daemon or a client receives it, reads it and prints it. The text is that of the values, in their
  order, with a space between them. There are fewer than 256 values, as the header has one byte for their
  number, and the text has room.
\<close>

theorem logged_values_are_printed:
  assumes "dlt_user_log_write_start_internal init alloc handle loglevel messageid True u l = Ok (DLT_RETURN_TRUE, u1, l1)"
    and "write_values vs u1 l1 = Ok (DLT_RETURN_OK, l2)" "list_all value_ok vs" "length vs < 256"
    and "dlt_user_log_send_header se mtype u1 l2 m = Ok (DLT_RETURN_OK, cnt, h)" "length (headerbuffer m) = 42" "ids_ok se"
    and "received env (sent_bytes h l2) r0 result"
    and "msg_wf r0" "malloc env (length (log_bytes l2)) \<noteq> None"
    and "text_room vs \<le> unat textlength" "textlength \<noteq> 0" "unat textlength \<le> length text0" "unat textlength < 2 ^ 31"
  shows "\<exists>r t. result = Ok (DLT_MESSAGE_ERROR_OK, r) \<and>
    dlt_message_payload attrs r textlength DLT_OUTPUT_ASCII text0 = Ok (DLT_RETURN_OK, t) \<and>
    c_string 0 t = Ok (join [32] (map value_text vs))"
proof -
  have l1: "log_wf u1 l1" "is_verbose_mode u1 l1" "log_bytes l1 = []" "log_args_num l1 = 0"
    using start_wf [OF assms(1)] by (auto simp: log_abs_def)
  have "log_wf u1 l2 \<and> is_verbose_mode u1 l2 \<and> log_abs l2 = (concat (map value_bytes vs), of_nat (length vs))"
    using write_values_log [OF l1(1) sent_initialised [OF assms(5)] l1(2) assms(3,2)] l1(3,4) by simp
  then have l2: "log_wf u1 l2" "is_verbose_mode u1 l2" "log_bytes l2 = concat (map value_bytes vs)" "log_args_num l2 = of_nat (length vs)"
    by (auto simp: log_abs_def)
  obtain r b msin where r: "result = Ok (DLT_MESSAGE_ERROR_OK, r)" "msg_complete r"
    "databuffer r = Some b" "unat (datasize r) = length (log_bytes l2)" "take (length (log_bytes l2)) b = log_bytes l2"
    "msg_htyp r = Ok (log_htyp se (is_verbose_mode u1 l2))"
    "log_htyp se (is_verbose_mode u1 l2) AND DLT_HTYP_UEH \<noteq> 0 \<longrightarrow>
      log_msin se (is_verbose_mode u1 l2) mtype l2 = Some msin \<and> msg_msin r = Ok msin \<and> msg_noar r = Ok (ucast (log_args_num l2))"
    by (rule sent_received [OF assms(5,6) l2(1) assms(7) refl assms(8-10)])
  have noar: "unat (ucast (log_args_num l2) :: byte) = length vs" using assms(4) l2(4) by (simp add: unsigned_ucast_eq unat_u32 take_bit_nat_eq_self)
  have ueh: "log_htyp se True AND DLT_HTYP_UEH \<noteq> 0" by (simp add: log_htyp_bits)
  have "\<exists>t. dlt_message_payload attrs r textlength DLT_OUTPUT_ASCII text0 = Ok (DLT_RETURN_OK, t) \<and>
      holds_text t (join [32] (map value_text vs))"
    by (rule print_received [OF r(2,3) _ _ _ ueh log_htyp_bits(5) _ log_msin_verbose _ noar assms(3,11-14)])
      (use r(4-7) ueh l2(2,3) in auto)
  then show ?thesis using r(1) holds_text_strlen(1) by blast
qed

section \<open>An example\<close>

text \<open>An application that logs a number and a string, and the bytes a reader receives.\<close>

definition demo_user :: dlt_user where
  "demo_user = \<lparr>user_initialised = True, user_is_child = False, user_has_contexts = True, user_verbose_mode = 0, user_log_buf_len = 24\<rparr>"

definition demo_log :: dlt_log where
  "demo_log = \<lparr>log_handle = None, log_buffer = None, log_size = 0, log_level = 0, log_args_num = 0, log_auto_timestamp = True,
     log_verbose_mode = False\<rparr>"

definition demo_env :: send_env where
  "demo_env = \<lparr>se_ecuID = ascii ''ECU1'', se_appID = ascii ''APP1'', se_contextID = ascii ''CTX1'', se_mcnt = 7, se_trace_status = 0,
     se_user_timestamp = 0, se_with_ecu_id = True, se_with_timestamp = True, se_with_session_id = False,
     se_extended_non_verbose = False, se_pid = 0, se_uptime = 12345, se_seconds = 0, se_microseconds = 0\<rparr>"

definition demo_values :: "log_value list" where
  "demo_values = [V_int16 (-5), V_string (ascii ''ok'')]"

definition demo_started :: dlt_log where
  "demo_started = \<lparr>log_handle = Some \<lparr>ctx_log_level = Some 4\<rparr>, log_buffer = Some (replicate 24 0), log_size = 0, log_level = 4,
     log_args_num = 0, log_auto_timestamp = True, log_verbose_mode = True\<rparr>"

definition demo_written :: dlt_log where
  "demo_written = demo_started\<lparr>log_buffer := Some ([34, 0, 0, 0, 251, 255] @ [0, 2, 0, 0, 3, 0, 111, 107, 0] @ replicate 9 0),
     log_size := 15, log_args_num := 2\<rparr>"

definition demo_header :: dlt_message where
  "demo_header = fresh_message\<lparr>headersize := 38,
     headerbuffer := [68, 76, 84, 1, 0, 0, 0, 0, 0, 0, 0, 0, 69, 67, 85, 49] @ [53, 7, 0, 37] @ [69, 67, 85, 49, 0, 0, 48, 57] @
       [65, 2, 65, 80, 80, 49, 67, 84, 88, 49] @ [0, 0, 0, 0],
     standardheader := Some 16, extendedheader := Some 28, extra_ecu := [69, 67, 85, 49], extra_tmsp := 0x39300000\<rparr>"

definition demo_bytes :: bytes where
  "demo_bytes = [1, 2] @ dltSerialHeader @ drop sizeof_userheader (sent_bytes demo_header demo_written) @ []"

definition demo_platform :: c_platform where
  "demo_platform = \<lparr>malloc = (\<lambda>n. Some (\<lambda>i. 0)), padding = (0, 0, 0)\<rparr>"

lemma demo_start: "dlt_user_log_write_start_internal (\<lambda>u. (0, u)) True (Some \<lparr>ctx_log_level = Some 4\<rparr>) 4 0 True demo_user demo_log =
    Ok (DLT_RETURN_TRUE, demo_user, demo_started)"
  by code_simp

lemma demo_write: "write_values demo_values demo_user demo_started = Ok (DLT_RETURN_OK, demo_written)"
  by code_simp

lemma demo_send: "dlt_user_log_send_header demo_env DLT_TYPE_LOG demo_user demo_written fresh_message = Ok (DLT_RETURN_OK, 8, demo_header)"
  by code_simp

lemma demo_facts: "length (headerbuffer fresh_message) = 42" "ids_ok demo_env" "log_wf demo_user demo_written" "list_all value_ok demo_values"
  by (simp_all add: fresh_message_def ids_ok_def demo_env_def log_wf_def demo_user_def demo_written_def demo_started_def demo_values_def
    ascii_def)

lemma demo_length: "length demo_bytes = 43"
  by code_simp

lemma demo_first: "\<forall>i < length [1, 2 :: byte]. \<not> serial_at demo_bytes i"
proof -
  have "\<not> serial_at demo_bytes 0" "\<not> serial_at demo_bytes 1" by code_simp+
  then show ?thesis by (simp add: less_2_cases_iff numeral_2_eq_2 less_Suc_eq)
qed

lemma demo_received:
  "received demo_platform (sent_bytes demo_header demo_written) fresh_message (dlt_message_read demo_platform (Some demo_bytes) 43 True fresh_message)"
  "received demo_platform (sent_bytes demo_header demo_written) fresh_message
     (daemon_read_log demo_platform (sent_bytes demo_header demo_written @ [9]) 46 fresh_message)"
proof -
  show "received demo_platform (sent_bytes demo_header demo_written) fresh_message (dlt_message_read demo_platform (Some demo_bytes) 43 True fresh_message)"
    by (rule received.client [OF demo_bytes_def demo_first]) (simp_all add: demo_length)
  have "length (sent_bytes demo_header demo_written @ [9]) = 46" by code_simp
  then show "received demo_platform (sent_bytes demo_header demo_written) fresh_message
     (daemon_read_log demo_platform (sent_bytes demo_header demo_written @ [9]) 46 fresh_message)"
    by (intro received.daemon) simp
qed

theorem log_header_received_witness:
  "\<exists>r b. daemon_read_log demo_platform (sent_bytes demo_header demo_written @ [9]) 46 fresh_message = Ok (DLT_MESSAGE_ERROR_OK, r) \<and>
    databuffer r = Some b \<and> take (unat (datasize r)) b = log_bytes demo_written \<and>
    dlt_set_id (se_ecuID demo_env) = Ok (extra_ecu r) \<and> extra_tmsp r = 12345 \<and> msg_noar r = Ok 2"
proof -
  have "log_args_num demo_written = 2" "log_tmsp demo_env demo_written = 12345" "se_with_ecu_id demo_env" "se_with_timestamp demo_env"
    "is_verbose_mode demo_user demo_written"
    by code_simp+
  then show ?thesis
    using log_header_received [OF demo_send demo_facts(1,3,2) demo_received(2) fresh_wf]
    by (auto simp: demo_platform_def)
qed

theorem logged_values_are_printed_witness:
  "\<exists>r t. dlt_message_read demo_platform (Some demo_bytes) 43 True fresh_message = Ok (DLT_MESSAGE_ERROR_OK, r) \<and>
    dlt_message_payload False r 20 DLT_OUTPUT_ASCII (replicate 20 0) = Ok (DLT_RETURN_OK, t) \<and> c_string 0 t = Ok (ascii ''-5 ok'')"
proof -
  have text0: "join [32] (map value_text demo_values) = ascii ''-5 ok''" "text_room demo_values \<le> 20" "length demo_values < 256"
    by code_simp+
  show ?thesis
    using logged_values_are_printed [OF demo_start demo_write demo_facts(4) text0(3) demo_send demo_facts(1,2) demo_received(1) fresh_wf,
      of 20 "replicate 20 0" False] text0(1,2)
    by (simp add: demo_platform_def)
qed

end
