(* ===== verification/Spec2Isabelle.thy ===== *)
theory Spec2Isabelle
  imports Tp_Reassembler Sd_Message_Safety E2e_Provider Dlt_Fifo Dlt_Delivery
begin

text \<open>
  This development verifies protocol code of two of the packages under \<open>src/sources\<close>: the SOME/IP stack
  \<open>vsomeip\<close> (messages, segmentation, service discovery, end-to-end protection) and the logging framework
  \<open>dlt-daemon\<close> (the ring buffer, and log messages from the application's call to the printed text).

  \<^bold>\<open>The parts and their interaction.\<close> A SOME/IP message is written by a serializer and read by a deserializer.
  A message too large for a datagram is cut into segments, which the receiver reassembles per sender and
  message. Service discovery messages are built on the same serializer. End-to-end protection writes a
  checksum and a counter into the bytes of a message before it is sent, and checks them on reception. An
  application that logs builds a message argument by argument; headers are put in front of it; finished
  messages wait in a ring buffer. A receiver finds and reads the message and prints its arguments as text.

  \<^bold>\<open>Conventions.\<close> Integers are words of the width of the source. An operation that can fail has a
  \<open>result\<close>: \<open>Ok\<close>, \<open>Refused\<close> (the code reports failure) or \<open>Undefined\<close> (the code has undefined behaviour, such
  as an access outside a buffer). State is passed explicitly, as records with the fields of the classes.
  Loops are recursive functions with termination proofs; no fuel is used.

  \<^item> \<open>Prelude\<close>, \<open>Keyed\<close>: results, actions and their safety, words; the locale \<open>keyed_machine\<close> for tables with
    independent entries.
  \<^item> \<open>Byteorder\<close>, \<open>Serializer\<close>, \<open>Message\<close>: the macros of \<open>byteorder.hpp\<close>, and \<open>implementation/message/src\<close>. Shown:
    a message is read back as it was written, and which bytes are accepted with which result. The locale
    \<open>codec\<close> states a round trip for reuse by the service discovery theories.
  \<^item> \<open>Tp\<close>, \<open>Tp_Message\<close>, \<open>Tp_Stream\<close>, \<open>Tp_Transport\<close>, \<open>Tp_Reassembler\<close>: \<open>tp.cpp\<close>, \<open>tp_message.cpp\<close> and
    \<open>tp_reassembler.cpp\<close> of \<open>implementation/endpoints/src\<close>. Shown: the segments of a message, received in any order
    and with repetitions, give the message; the table handles interleaved senders independently, under any
    sequence of datagrams, callbacks of the timer and \<open>stop\<close>; what the cleanup removes, and that a cleanup is
    pending for every unfinished message unless a call overlaps the callback of the timer or \<open>stop\<close> has
    cancelled it. Times are inputs, a pending wait is a field of the state.
  \<^item> \<open>Sd_Entry\<close>, \<open>Sd_Option\<close>, \<open>Sd_Option_Wire\<close>, \<open>Sd_Message\<close>, \<open>Sd_Message_Wire\<close>, \<open>Sd_Message_Safety\<close>: the entries,
    options and messages of \<open>implementation/service_discovery/src\<close>. Shown: round trips with
    what the format does not transmit (\<open>reread_entry\<close>), the length field, the truncated options that are
    accepted, and the only causes of undefined behaviour on input from the network.
  \<^item> \<open>Crc\<close>, \<open>E2e_Profile\<close>, \<open>E2e_Profile04\<close>, \<open>E2e_Provider\<close>: \<open>implementation/e2e_protection/src\<close>. Shown: the lookup
    tables compute the polynomial division of their profile, bursts are detected, an undisturbed stream is
    accepted, a change of one protected byte is reported, and a protector and a checker of one configuration
    agree. The locale \<open>e2e_link\<close> is the contract of a profile. \<open>E2e_Provider\<close> also has the parts of \<open>send\<close>,
    \<open>send_to\<close> and \<open>on_message\<close> of \<open>routing_manager_impl.cpp\<close> that protect and check, with or without a provider;
    messages of service discovery are exempt.
  \<^item> \<open>Dlt_Buffer\<close>, \<open>Dlt_Queue\<close>, \<open>Dlt_Fifo\<close>: \<open>dlt_buffer_*\<close> of \<open>dlt-daemon/src/shared/dlt_common.c\<close>. Shown: the
    effect of storing and taking out a message, and that the buffer is a bounded queue (locale \<open>fifo_store\<close>).
    The allocator and the padding of the block head are parameters.
  \<^item> \<open>Dlt_Log\<close>, \<open>Dlt_Record\<close>, \<open>Dlt_Arguments\<close>: \<open>dlt_user_log_write_*\<close> of \<open>dlt-daemon/src/lib/dlt_user.c\<close>. \<open>Dlt_Log\<close> has one
    definition per function; \<open>Dlt_Record\<close> gives the layout the protocol prescribes and shows that the functions
    refine it; \<open>Dlt_Arguments\<close> has the properties of whole messages and of the truncation of strings. The
    functions for single types are instances of the four general ones the properties speak of. \<open>dlt_init\<close> and
    the outcome of \<open>calloc\<close> are parameters; numbers have the layout of a little-endian host with 64-bit pointers.
  \<^item> \<open>Dlt_Text\<close>, \<open>Dlt_Message\<close>, \<open>Dlt_Print\<close>: the text functions of \<open>dlt_common.c\<close> with the conversions of \<open>snprintf\<close>
    they use; the headers of a message, the header part of \<open>dlt_user_log_send_log\<close>, the user header in front of what is
    sent, \<open>dlt_message_read\<close> and its call by the daemon;
    \<open>dlt_message_payload\<close> with \<open>dlt_message_argument_print\<close>, floating point numbers included. What comes from the
    system (clock, process identifier, allocation) is a parameter.
  \<^item> \<open>Dlt_Transfer\<close>: reading arbitrary bytes never has undefined behaviour and keeps the message well-formed, with
    complete headers and data when success is reported; the search for a serial header stops at the first one.
  \<^item> \<open>Dlt_Values\<close>, \<open>Dlt_Value_Text\<close>, \<open>Dlt_Value_Print\<close>, \<open>Dlt_Delivery\<close>: a datatype of the values an application can
    log, the bytes and the text of each of them, and the composition: what is logged is sent with the headers of
    the user, is read back with these headers by the daemon, or by a client behind a serial header, and is
    printed as the text of the values.

  \<^bold>\<open>Defects.\<close> Some theorems state behaviour the code does not intend: an access outside a buffer for some
  segments, truncated IPv4 and IPv6 options that are accepted, protection with an offset at the end of a buffer, a
  first message that is larger than an empty ring buffer and is lost, a log string of 65535 bytes that
  overruns its buffer, and UTF-8 text that is read before its beginning.

  \<^bold>\<open>Not modelled.\<close> Sockets, threads and timers of the operating system, configuration files, routing and the
  state of service discovery subscriptions in \<open>vsomeip\<close>; input and output, files and the tools of
  \<open>dlt-daemon\<close>, the pipe a finished log message is written to; the other packages under
  \<open>src/sources\<close>.
\<close>

end
